(* ===== verification/Miner_Prelude.thy ===== *)
theory Miner_Prelude
  imports Main "HOL-Library.Word" "HOL-Library.Multiset"
begin

text \<open>
  Shared vocabulary of the development: Rust machine integers as words, the
  outcome of a fallible asynchronous computation, programs over a state that
  carries the environment and a trace of observable events, the proof rules
  for such programs, and the standard-library list operations the sources use
  (\<open>chunks\<close>, \<open>HashSet\<close> insertion, descending sort, \<open>position\<close>).
\<close>

subsection \<open>Machine integers\<close>

type_synonym u8 = "8 word"
type_synonym u16 = "16 word"
type_synonym u32 = "32 word"
type_synonym u64 = "64 word"
type_synonym u128 = "128 word"

text \<open>Rust's \<open>saturating_add\<close>, \<open>saturating_sub\<close>; plain \<open>+\<close> on words is
  the release build's wrapping addition.\<close>

definition saturating_add :: "'l::len word \<Rightarrow> 'l word \<Rightarrow> 'l word" where
  "saturating_add a b =
     (if unat a + unat b < 2 ^ LENGTH('l) then a + b else - 1)"

definition saturating_sub :: "'l::len word \<Rightarrow> 'l word \<Rightarrow> 'l word" where
  "saturating_sub a b = (if a < b then 0 else a - b)"

lemma unat_saturating_add:
  "unat (saturating_add a b) = min (unat a + unat b) (2 ^ LENGTH('l) - 1)"
  for a b :: "'l::len word"
proof (cases "unat a + unat b < 2 ^ LENGTH('l)")
  case True
  then show ?thesis
    by (simp add: saturating_add_def unat_word_ariths)
next
  case False
  then have "2 ^ LENGTH('l) - 1 \<le> unat a + unat b" by simp
  with False show ?thesis
    by (simp add: saturating_add_def unsigned_minus_1_eq_mask mask_eq_exp_minus_1)
qed

lemma saturating_add_0 [simp]: "saturating_add 0 x = x" "saturating_add x 0 = x"
  using unsigned_less [of x, where ?'a = nat] by (simp_all add: saturating_add_def)

lemma unat_saturating_sub: "unat (saturating_sub a b) = unat a - unat b"
  by (auto simp: saturating_sub_def unat_sub_if' word_less_nat_alt word_le_nat_alt)

lemma saturating_sub_le [simp]: "saturating_sub a b \<le> a"
  by (simp add: word_le_nat_alt unat_saturating_sub)

lemma unat_word_of_nat: "n < 2 ^ LENGTH('l) \<Longrightarrow> unat (word_of_nat n :: 'l::len word) = n"
  by (simp add: unsigned_of_nat take_bit_nat_eq_self)

lemma unat_u32: "n < 2 ^ 32 \<Longrightarrow> unat (word_of_nat n :: u32) = n"
  by (simp add: unat_word_of_nat)

text \<open>The range \<open>0..n\<close>.\<close>

definition u32_range :: "u32 \<Rightarrow> u32 list" where
  "u32_range n = List.map word_of_nat [0 ..< unat n]"

lemma unat_in_range: "i < unat (n :: u32) \<Longrightarrow> unat (word_of_nat i :: u32) = i"
  by (rule unat_word_of_nat) (rule less_trans [OF _ unsigned_less])

lemma set_u32_range [simp]: "set (u32_range n) = {i. i < n}"
proof
  show "set (u32_range n) \<subseteq> {i. i < n}"
    by (auto simp: u32_range_def word_less_nat_alt unat_in_range)
  show "{i. i < n} \<subseteq> set (u32_range n)"
  proof
    fix x
    assume "x \<in> {i. i < n}"
    then have "unat x \<in> {0 ..< unat n}" by (simp add: word_less_nat_alt)
    then have "word_of_nat (unat x) \<in> (word_of_nat :: nat \<Rightarrow> u32) ` {0 ..< unat n}"
      by (rule imageI)
    then show "x \<in> set (u32_range n)" by (simp add: u32_range_def)
  qed
qed

lemma length_u32_range [simp]: "length (u32_range n) = unat n"
  by (simp add: u32_range_def)

lemma distinct_u32_range [simp]: "distinct (u32_range n)"
proof -
  have "inj_on (word_of_nat :: nat \<Rightarrow> u32) {0 ..< unat n}"
    by (rule inj_on_inverseI [where g = unat]) (simp add: unat_in_range)
  then show ?thesis by (simp add: u32_range_def distinct_map)
qed

subsection \<open>Outcomes of asynchronous computations\<close>

text \<open>
  A future ends with \<open>Ok\<close>, with an error, or with a panic.  \<open>Pending\<close>
  stands for an await point that does not complete before the enclosing
  deadline (or ever, when there is none): the future is cut there and the
  effects up to that point remain.
\<close>

datatype ('e, 'a) outcome = Ok 'a | Err 'e | Panic string | Pending

type_synonym ('s, 'e, 'a) io = "'s \<Rightarrow> ('e, 'a) outcome \<times> 's"

definition ret :: "'a \<Rightarrow> ('s, 'e, 'a) io" where
  "ret x = (\<lambda>s. (Ok x, s))"

definition throw :: "'e \<Rightarrow> ('s, 'e, 'a) io" where
  "throw e = (\<lambda>s. (Err e, s))"

definition panic :: "string \<Rightarrow> ('s, 'e, 'a) io" where
  "panic msg = (\<lambda>s. (Panic msg, s))"

text \<open>Sequencing, Rust's \<open>?\<close> operator: errors, panics and cuts propagate.\<close>

definition io_bind :: "('s, 'e, 'a) io \<Rightarrow> ('a \<Rightarrow> ('s, 'e, 'b) io) \<Rightarrow> ('s, 'e, 'b) io" where
  "io_bind m f = (\<lambda>s. case m s of
      (Ok x, s') \<Rightarrow> f x s'
    | (Err e, s') \<Rightarrow> (Err e, s')
    | (Panic p, s') \<Rightarrow> (Panic p, s')
    | (Pending, s') \<Rightarrow> (Pending, s'))"

abbreviation io_seq :: "('s, 'e, 'a) io \<Rightarrow> ('s, 'e, 'b) io \<Rightarrow> ('s, 'e, 'b) io" where
  "io_seq m n \<equiv> io_bind m (\<lambda>_. n)"

text \<open>\<open>match fut.await\<close>: the result becomes a value, \<open>Inl\<close> for an error.\<close>

definition io_try :: "('s, 'e, 'a) io \<Rightarrow> ('s, 'f, 'e + 'a) io" where
  "io_try m = (\<lambda>s. case m s of
      (Ok x, s') \<Rightarrow> (Ok (Inr x), s')
    | (Err e, s') \<Rightarrow> (Ok (Inl e), s')
    | (Panic p, s') \<Rightarrow> (Panic p, s')
    | (Pending, s') \<Rightarrow> (Pending, s'))"

text \<open>\<open>tokio::time::timeout\<close>: \<open>None\<close> when the deadline cut the future.\<close>

definition io_timeout :: "('s, 'e, 'a) io \<Rightarrow> ('s, 'f, ('e + 'a) option) io" where
  "io_timeout m = (\<lambda>s. case m s of
      (Ok x, s') \<Rightarrow> (Ok (Some (Inr x)), s')
    | (Err e, s') \<Rightarrow> (Ok (Some (Inl e)), s')
    | (Panic p, s') \<Rightarrow> (Panic p, s')
    | (Pending, s') \<Rightarrow> (Ok None, s'))"

text \<open>\<open>map_err\<close> on the result of a computation.\<close>

definition io_map_err :: "('e \<Rightarrow> 'f) \<Rightarrow> ('s, 'e, 'a) io \<Rightarrow> ('s, 'f, 'a) io" where
  "io_map_err g m = (\<lambda>s. case m s of
      (Ok x, s') \<Rightarrow> (Ok x, s')
    | (Err e, s') \<Rightarrow> (Err (g e), s')
    | (Panic p, s') \<Rightarrow> (Panic p, s')
    | (Pending, s') \<Rightarrow> (Pending, s'))"

text \<open>A result lifted into a program.\<close>

primrec io_result :: "'e + 'a \<Rightarrow> ('s, 'e, 'a) io" where
  "io_result (Inl e) = throw e"
| "io_result (Inr x) = ret x"

text \<open>A \<open>for\<close> loop whose body may fail, over an accumulator.\<close>

primrec io_fold :: "('x \<Rightarrow> 'a \<Rightarrow> ('s, 'e, 'a) io) \<Rightarrow> 'x list \<Rightarrow> 'a \<Rightarrow> ('s, 'e, 'a) io" where
  "io_fold f [] acc = ret acc"
| "io_fold f (x # xs) acc = io_bind (f x acc) (\<lambda>acc'. io_fold f xs acc')"

lemma io_bind_Ok: "m s = (Ok x, s') \<Longrightarrow> io_bind m f s = f x s'"
  by (simp add: io_bind_def)

lemma io_bind_eq_Ok:
  "io_bind m f s = (Ok y, t) \<longleftrightarrow> (\<exists>x s'. m s = (Ok x, s') \<and> f x s' = (Ok y, t))"
  by (auto simp: io_bind_def split: prod.splits outcome.splits)

lemma io_bind_assoc: "io_bind (io_bind m f) g = io_bind m (\<lambda>x. io_bind (f x) g)"
  by (rule ext) (simp add: io_bind_def split: prod.split outcome.split)

lemma io_bind_ret [simp]: "io_bind (ret x) f = f x"
  by (rule ext) (simp add: io_bind_def ret_def)

lemma io_bind_throw [simp]: "io_bind (throw e) f = throw e"
  by (rule ext) (simp add: io_bind_def throw_def)

lemma io_bind_panic [simp]: "io_bind (panic p) f = panic p"
  by (rule ext) (simp add: io_bind_def panic_def)

lemma io_bind_if: "io_bind (if b then m else n) f = (if b then io_bind m f else io_bind n f)"
  by simp

named_theorems io_defs \<open>unfolding of the program combinators\<close>

lemmas [io_defs] = ret_def throw_def panic_def io_bind_def io_try_def io_timeout_def
  io_map_err_def

subsection \<open>Standard-library collections\<close>

text \<open>\<open>slice.chunks(n)\<close> for \<open>n > 0\<close>.\<close>

function chunks :: "nat \<Rightarrow> 'a list \<Rightarrow> 'a list list" where
  "chunks n xs = (if n = 0 \<or> xs = [] then [] else take n xs # chunks n (drop n xs))"
  by pat_completeness auto
termination
  by (relation "measure (\<lambda>(n, xs). length xs)") auto

declare chunks.simps [simp del]

lemma chunks_Nil [simp]: "chunks n [] = []"
  by (simp add: chunks.simps)

lemma concat_chunks: "0 < n \<Longrightarrow> concat (chunks n xs) = xs"
proof (induction n xs rule: chunks.induct)
  case (1 n xs)
  then show ?case by (cases "xs = []") (simp_all add: chunks.simps [of n xs])
qed

lemma chunks_lengths: "ys \<in> set (chunks n xs) \<Longrightarrow> 0 < length ys \<and> length ys \<le> n"
proof (induction n xs rule: chunks.induct)
  case (1 n xs)
  then show ?case
    by (cases "n = 0 \<or> xs = []") (auto simp: chunks.simps [of n xs])
qed

lemma chunks_single: "xs \<noteq> [] \<Longrightarrow> length xs \<le> n \<Longrightarrow> chunks n xs = [xs]"
  by (cases "n = 0") (auto simp: chunks.simps [of n xs] chunks.simps [of n "[]"])

text \<open>A \<open>HashSet\<close> as a list without repetition.\<close>

definition hs_insert :: "'a \<Rightarrow> 'a list \<Rightarrow> 'a list" where
  "hs_insert x xs = (if x \<in> set xs then xs else xs @ [x])"

definition hs_extend :: "'a list \<Rightarrow> 'a list \<Rightarrow> 'a list" where
  "hs_extend xs ys = fold hs_insert ys xs"

abbreviation hs_of :: "'a list \<Rightarrow> 'a list" where
  "hs_of xs \<equiv> hs_extend [] xs"

lemma set_hs_insert [simp]: "set (hs_insert x xs) = insert x (set xs)"
  by (auto simp: hs_insert_def)

lemma distinct_hs_insert [simp]: "distinct (hs_insert x xs) = distinct xs"
  by (auto simp: hs_insert_def)

lemma set_hs_extend [simp]: "set (hs_extend xs ys) = set xs \<union> set ys"
  unfolding hs_extend_def by (induction ys arbitrary: xs) auto

lemma distinct_hs_extend [simp]: "distinct (hs_extend xs ys) = distinct xs"
  unfolding hs_extend_def by (induction ys arbitrary: xs) auto

text \<open>\<open>iter().enumerate()\<close> with the index cast to \<open>u32\<close>.\<close>

definition enumerate_u32 :: "'a list \<Rightarrow> (u32 \<times> 'a) list" where
  "enumerate_u32 xs = map (\<lambda>(i, x). (word_of_nat i, x)) (enumerate 0 xs)"

lemma map_fst_enumerate_u32: "map fst (enumerate_u32 xs) = map word_of_nat [0..<length xs]"
proof -
  have "map fst (enumerate_u32 xs) = map word_of_nat (map fst (enumerate 0 xs))"
    unfolding enumerate_u32_def by (simp only: map_map comp_def case_prod_unfold fst_conv)
  then show ?thesis by simp
qed

text \<open>\<open>BTreeMap\<close>: an association list sorted by key.\<close>

fun bt_insert :: "'k::linorder \<Rightarrow> 'v \<Rightarrow> ('k \<times> 'v) list \<Rightarrow> ('k \<times> 'v) list" where
  "bt_insert k v [] = [(k, v)]"
| "bt_insert k v ((k', v') # m) =
     (if k < k' then (k, v) # (k', v') # m
      else if k = k' then (k, v) # m
      else (k', v') # bt_insert k v m)"

definition bt_ok :: "('k::linorder \<times> 'v) list \<Rightarrow> bool" where
  "bt_ok m = sorted_wrt (<) (List.map fst m)"

lemma bt_insert_lookup [simp]: "map_of (bt_insert k v m) = (map_of m)(k \<mapsto> v)"
  by (induction k v m rule: bt_insert.induct) (auto simp: fun_eq_iff)

lemma bt_insert_keys [simp]: "fst ` set (bt_insert k v m) = insert k (fst ` set m)"
  by (induction k v m rule: bt_insert.induct) auto

lemma bt_insert_ok [simp]: "bt_ok m \<Longrightarrow> bt_ok (bt_insert k v m)"
proof (induction k v m rule: bt_insert.induct)
  case (2 k v k' v' m)
  have "\<forall>x \<in> fst ` set (bt_insert k v m). k' < x" if "k' < k" "\<forall>x \<in> fst ` set m. k' < x"
    using that by simp
  with 2 show ?case by (auto simp: bt_ok_def)
qed (simp add: bt_ok_def)

subsection \<open>State with an environment and a trace\<close>

text \<open>
  Every task runs against an environment it cannot see (\<open>world\<close>: the node,
  the network, the clock) and leaves a trace of observable events.  Records
  that extend \<open>sys\<close> add a task's own variables.
\<close>

record ('w, 'v) sys =
  world :: 'w
  trace :: "'v list"

text \<open>A call of the environment; it changes the world only.\<close>

definition call :: "('w \<Rightarrow> ('e, 'a) outcome \<times> 'w) \<Rightarrow> (('w, 'v, 'm) sys_scheme, 'e, 'a) io" where
  "call f = (\<lambda>s. case f (world s) of (r, w) \<Rightarrow> (r, s\<lparr>world := w\<rparr>))"

definition emit :: "'v \<Rightarrow> (('w, 'v, 'm) sys_scheme, 'e, unit) io" where
  "emit v = (\<lambda>s. (Ok (), s\<lparr>trace := trace s @ [v]\<rparr>))"

lemmas [io_defs] = call_def emit_def

named_theorems run_defs \<open>definitions to evaluate a concrete run\<close>

text \<open>Reading and writing a task's own variables.\<close>

definition io_get :: "('s \<Rightarrow> 'a) \<Rightarrow> ('s, 'e, 'a) io" where
  "io_get f = (\<lambda>s. (Ok (f s), s))"

definition io_modify :: "('s \<Rightarrow> 's) \<Rightarrow> ('s, 'e, unit) io" where
  "io_modify f = (\<lambda>s. (Ok (), f s))"

lemmas [io_defs] = io_get_def io_modify_def

fun is_ok :: "('e, 'a) outcome \<Rightarrow> bool" where
  "is_ok (Ok x) = True"
| "is_ok r = False"

lemma is_ok_iff: "is_ok r \<longleftrightarrow> (\<exists>x. r = Ok x)"
  by (cases r) simp_all

end
