(* ===== verification/Errors.thy ===== *)
theory Errors
  imports Miner_Prelude
begin

text \<open>
  The error values of the miner (\<open>src/src/error.rs\<close>), the foreign
  \<open>subxt::Error\<close> they wrap, and the two classifications of
  \<open>monitor.rs\<close> that decide whether a task survives an error.  Foreign error
  payloads are kept as their printed text.
\<close>

subsection \<open>Scores\<close>

text \<open>\<open>sp_npos_elections::ElectionScore\<close>, a plain struct of three \<open>u128\<close>.\<close>

record election_score =
  minimal_stake :: u128
  sum_stake :: u128
  sum_stake_squared :: u128

subsection \<open>The error enums\<close>

datatype timeout_error =
    MiningTimeout u64
  | CheckExistingSubmissionTimeout u64
  | BailTimeout u64
  | SubmitTimeout u64
  | PhaseCheckTimeout u64
  | ScoreCheckTimeout u64
  | MissingPagesTimeout u64
  | InitialConnectionTimeout u64 u32 u32

datatype channel_failure_error = MinerChannel | EraPruningChannel | ClearOldRoundsChannel

datatype task_failure_error = ListenerTask | MinerTask | EraPruningTask | ClearOldRoundsTask

text \<open>
  The variants of \<open>subxt::Error\<close> that the sources name, in the \<open>From\<close>
  instances of \<open>error.rs\<close> and in the classification of miner errors; every
  other variant is \<open>OtherSubxtError\<close>.
\<close>

datatype subxt_error =
    ExtrinsicError string
  | TransactionFinalizedSuccessError string
  | TransactionProgressError string
  | TransactionStatusError string
  | TransactionEventsError string
  | OtherRpcClientError string
  | BackendError string
  | StorageError string
  | StorageValueError string
  | OnlineClientAtBlockError string
  | BlocksError string
  | OnlineClientError string
  | EventsError string
  | AccountNonceError string
  | RuntimeApiError string
  | ConstantError string
  | StorageKeyError string
  | OtherSubxtError string

datatype error =
    LogParse string
  | Io string
  | Rpc string
  | Subxt subxt_error
  | Crypto string
  | Codec string
  | AccountDoesNotExists
  | InvalidChain string
  | OtherError string
  | InvalidMetadata string
  | DynamicTransaction string
  | Feasibility string
  | Join string
  | EmptySnapshot
  | MissingTxEvent string
  | FailedToSubmitPages nat
  | InsufficientSignedPhaseBlocks u32 u32
  | PhaseChangedDuringSubmission string u32
  | SolutionValidation u32 u32
  | WrongPageCount u32 u32
  | WrongRound u32 u32
  | ScoreBelowMinimum election_score election_score
  | Timeout timeout_error
  | SubscriptionRecreationLimitExceeded u32
  | ChannelFailure channel_failure_error
  | TaskFailure task_failure_error
  | SerdeJson string

text \<open>Every \<open>From<subxt::...>\<close> instance boxes the error into \<open>Error::Subxt\<close>.\<close>

definition from_subxt :: "subxt_error \<Rightarrow> error" where
  "from_subxt e = Subxt e"

subsection \<open>Programs of the miner\<close>

type_synonym ('w, 'v, 'm, 'a) prog = "(('w, 'v, 'm) sys_scheme, error, 'a) io"

text \<open>The type of an operation of the node client: it fails with a \<open>subxt\<close> error.\<close>

type_synonym ('w, 'a) ext = "'w \<Rightarrow> (subxt_error, 'a) outcome \<times> 'w"

text \<open>\<open>op().await?\<close> on a node operation.\<close>

definition await :: "('w, 'a) ext \<Rightarrow> ('w, 'v, 'm, 'a) prog" where
  "await f = io_map_err from_subxt (call f)"

lemmas [io_defs] = await_def

subsection \<open>Substring search\<close>

fun starts_with :: "string \<Rightarrow> string \<Rightarrow> bool" where
  "starts_with [] ys = True"
| "starts_with (x # xs) [] = False"
| "starts_with (x # xs) (y # ys) = (x = y \<and> starts_with xs ys)"

fun contains :: "string \<Rightarrow> string \<Rightarrow> bool" where
  "contains [] needle = (needle = [])"
| "contains (y # ys) needle = (starts_with needle (y # ys) \<or> contains ys needle)"

lemma starts_with_iff: "starts_with xs ys \<longleftrightarrow> (\<exists>zs. ys = xs @ zs)"
  by (induction xs ys rule: starts_with.induct) auto

lemma contains_iff: "contains hay needle \<longleftrightarrow> (\<exists>us vs. hay = us @ needle @ vs)"
proof (induction hay)
  case Nil
  then show ?case by auto
next
  case (Cons y ys)
  show ?case
  proof
    assume "contains (y # ys) needle"
    then consider "starts_with needle (y # ys)" | "contains ys needle" by auto
    then show "\<exists>us vs. y # ys = us @ needle @ vs"
    proof cases
      case 1
      then show ?thesis by (metis append_Nil starts_with_iff)
    next
      case 2
      with Cons.IH show ?thesis by (metis append_Cons)
    qed
  next
    assume "\<exists>us vs. y # ys = us @ needle @ vs"
    then obtain us vs where eq: "y # ys = us @ needle @ vs" by blast
    show "contains (y # ys) needle"
    proof (cases us)
      case Nil
      with eq have "starts_with needle (y # ys)" by (auto simp: starts_with_iff)
      then show ?thesis by simp
    next
      case (Cons u us')
      with eq have "ys = us' @ needle @ vs" by simp
      with \<open>contains ys needle = (\<exists>us vs. ys = us @ needle @ vs)\<close> show ?thesis by auto
    qed
  qed
qed

subsection \<open>Which errors end a task\<close>

definition is_critical_listener_error :: "error \<Rightarrow> bool" where
  "is_critical_listener_error e =
     (case e of
        ChannelFailure _ \<Rightarrow> True
      | TaskFailure _ \<Rightarrow> True
      | OtherError msg \<Rightarrow> contains msg ''Subscription terminated''
      | _ \<Rightarrow> False)"

definition is_critical_miner_error :: "error \<Rightarrow> bool" where
  "is_critical_miner_error e =
     (case e of
        Join _ \<Rightarrow> False
      | Feasibility _ \<Rightarrow> False
      | EmptySnapshot \<Rightarrow> False
      | FailedToSubmitPages _ \<Rightarrow> False
      | SolutionValidation _ _ \<Rightarrow> False
      | WrongPageCount _ _ \<Rightarrow> False
      | WrongRound _ _ \<Rightarrow> False
      | ScoreBelowMinimum _ _ \<Rightarrow> False
      | Timeout _ \<Rightarrow> False
      | Subxt (ExtrinsicError _) \<Rightarrow> False
      | Subxt (TransactionFinalizedSuccessError _) \<Rightarrow> False
      | Subxt (TransactionProgressError _) \<Rightarrow> False
      | Subxt (TransactionStatusError _) \<Rightarrow> False
      | Subxt (TransactionEventsError _) \<Rightarrow> False
      | Subxt (OtherRpcClientError _) \<Rightarrow> False
      | Subxt (BackendError _) \<Rightarrow> False
      | Subxt (StorageError _) \<Rightarrow> False
      | Subxt (StorageValueError _) \<Rightarrow> False
      | InsufficientSignedPhaseBlocks _ _ \<Rightarrow> False
      | PhaseChangedDuringSubmission _ _ \<Rightarrow> False
      | _ \<Rightarrow> True)"

end
