(* ===== verification/Chain_Api.thy ===== *)
theory Chain_Api
  imports Errors "HOL-Library.List_Lexorder"
begin

text \<open>
  The data the miner exchanges with a node, and the node client itself as a
  parameter: \<open>chain_api\<close> holds one function for every operation of
  \<open>subxt\<close> and of the node's RPC that the sources call.  Nothing is assumed
  of these functions here; a theorem that relies on the node says so in its
  hypotheses.  The helpers of \<open>src/src/utils.rs\<close> for reading storage and
  the transaction constructors follow.
\<close>

subsection \<open>Accounts\<close>

text \<open>\<open>AccountId32\<close>: 32 bytes, ordered as byte strings.\<close>

datatype account_id = AccountId (account_bytes: "u8 list")

instantiation account_id :: linorder
begin

definition less_eq_account_id :: "account_id \<Rightarrow> account_id \<Rightarrow> bool" where
  "less_eq_account_id a b = (account_bytes a \<le> account_bytes b)"

definition less_account_id :: "account_id \<Rightarrow> account_id \<Rightarrow> bool" where
  "less_account_id a b = (account_bytes a < account_bytes b)"

instance
proof
  fix x y z :: account_id
  show "(x < y) = (x \<le> y \<and> \<not> y \<le> x)"
    by (auto simp: less_eq_account_id_def less_account_id_def)
  show "x \<le> x" by (simp add: less_eq_account_id_def)
  show "x \<le> z" if "x \<le> y" and "y \<le> z"
    using that by (auto simp: less_eq_account_id_def)
  show "x = y" if "x \<le> y" and "y \<le> x"
    using that by (cases x; cases y) (simp add: less_eq_account_id_def)
  show "x \<le> y \<or> y \<le> x"
    by (auto simp: less_eq_account_id_def)
qed

end

subsection \<open>Phases, blocks, storage values\<close>

text \<open>
  The runtime's \<open>Phase\<close>.  The sources distinguish \<open>Off\<close>, \<open>Signed\<close> and
  \<open>Snapshot\<close>; every other variant, by its printed name, is \<open>OtherPhase\<close>.
\<close>

datatype phase = Off | Signed u32 | SnapshotPhase u32 | OtherPhase string

type_synonym hash = "256 word"

text \<open>\<open>AtBlock\<close>: a client positioned at a block.\<close>

record at_block =
  ab_hash :: hash
  ab_number :: u64
  ab_spec_version :: u32

text \<open>A fetched storage value either decodes at its type or does not.\<close>

datatype 'v storage_value = Decodes 'v | Malformed subxt_error

text \<open>The same for bytes decoded with the codec directly.\<close>

datatype 'v raw_value = RawValue 'v | RawMalformed string

record submission_metadata =
  claimed_score :: election_score
  pages :: "bool list"

record account_info =
  free :: u128

type_synonym voter = "account_id \<times> u64 \<times> account_id list"
type_synonym voter_page = "voter list"
type_synonym target_page = "account_id list"

subsection \<open>Transactions\<close>

datatype 'sol runtime_call =
    Register election_score
  | SubmitPage u32 "'sol option"
  | Bail
  | ClearOldRoundData u32 u32
  | PruneEraStep u32

text \<open>
  A signed extrinsic: the call, the nonce, the mortality if one is set, and
  whether the \<open>RestrictOrigins\<close> extension is supplied.
\<close>

record 'sol extrinsic =
  ext_call :: "'sol runtime_call"
  ext_nonce :: u64
  ext_mortal :: "u64 option"
  ext_restrict :: bool

text \<open>Handles of a watched transaction, and the events of a finalized one.\<close>

type_synonym tx_progress = nat
type_synonym tx_in_block = nat

datatype chain_event = EvRegistered | EvStored "u32 option" | EvOther

subsection \<open>Observable events\<close>

datatype metric =
    SubmissionStarted
  | SubmissionSuccess
  | SubmissionSkippedNotCompetitive
  | BalanceSet u128
  | ScoreSet election_score
  | BalanceFetchTimeoutM
  | CheckExistingSubmissionTimeoutM
  | PhaseCheckTimeoutM
  | BailTimeoutM
  | MissingPagesTimeoutM
  | ScoreCheckTimeoutM
  | SubmitTimeoutM
  | MiningTimeoutM
  | CleanupSuccess u32
  | CleanupFailure
  | OldSubmissionsFound u32
  | EraPruningSubmissionSuccess
  | EraPruningSubmissionFailure
  | EraPruningMapSize u32
  | EraPruningTimeout

text \<open>
  What a task does that can be seen from outside, and what it learns from the
  node where a property is about the order of the two.
\<close>

datatype 'sol event =
    ReadPhase phase
  | ReadMinimum "election_score option"
  | ReadScores "election_score list"
  | ReadSubmission "submission_metadata option"
  | SentTx "'sol extrinsic"
  | ScoreRegistered
  | PageStored u32
  | Mined u32
  | Metric metric
  | Slept nat

subsection \<open>The node client\<close>

record ('w, 'sol) chain_api =
  api_at_current_block :: "('w, at_block) ext"
  api_at_block :: "hash \<Rightarrow> ('w, at_block) ext"
  api_try_phase :: "at_block \<Rightarrow> ('w, phase storage_value option) ext"
  api_phase :: "at_block \<Rightarrow> ('w, phase storage_value) ext"
  api_round :: "at_block \<Rightarrow> ('w, u32 storage_value) ext"
  api_submission :: "at_block \<Rightarrow> u32 \<Rightarrow> account_id \<Rightarrow>
     ('w, submission_metadata storage_value option) ext"
  api_sorted_scores :: "at_block \<Rightarrow> u32 \<Rightarrow>
     ('w, (account_id \<times> election_score) list storage_value) ext"
  api_minimum_score :: "at_block \<Rightarrow> ('w, election_score storage_value option) ext"
  api_desired_targets :: "at_block \<Rightarrow> u32 \<Rightarrow> ('w, u32 storage_value option) ext"
  api_voter_snapshot :: "at_block \<Rightarrow> u32 \<Rightarrow> u32 \<Rightarrow> ('w, voter_page raw_value option) ext"
  api_voter_snapshot_hash :: "at_block \<Rightarrow> u32 \<Rightarrow> u32 \<Rightarrow> ('w, hash raw_value option) ext"
  api_target_snapshot :: "at_block \<Rightarrow> u32 \<Rightarrow> u32 \<Rightarrow> ('w, target_page raw_value option) ext"
  api_target_snapshot_hash :: "at_block \<Rightarrow> u32 \<Rightarrow> u32 \<Rightarrow> ('w, hash raw_value option) ext"
  api_account :: "at_block \<Rightarrow> account_id \<Rightarrow> ('w, account_info storage_value option) ext"
  api_nonce :: "account_id \<Rightarrow> ('w, u64) ext"
  api_restrict_origins :: "at_block \<Rightarrow> bool"
  api_create_signed :: "'sol extrinsic \<Rightarrow> ('w, unit) ext"
  api_submit_and_watch :: "'sol extrinsic \<Rightarrow> ('w, tx_progress) ext"
  api_wait_finalized :: "tx_progress \<Rightarrow> ('w, tx_in_block) ext"
  api_wait_success :: "tx_in_block \<Rightarrow> ('w, (subxt_error + chain_event) list) ext"
  api_next_ready :: "nat \<Rightarrow> 'w \<Rightarrow> nat \<times> 'w"
  api_hash_order :: "u32 list \<Rightarrow> u32 list"
  api_debug_phase :: "phase \<Rightarrow> string"
  api_encode_error :: "'sol runtime_call \<Rightarrow> string option"
  api_default_solution :: 'sol

text \<open>
  \<open>api_restrict_origins\<close> is the outcome of the metadata probe of
  \<open>with_restrict_origins\<close>; \<open>api_next_ready n\<close> picks which of \<open>n\<close> futures
  of a \<open>FuturesUnordered\<close> completes next; \<open>api_hash_order\<close> is the iteration
  order of a \<open>HashSet\<close>, a permutation of its elements; \<open>api_encode_error\<close>
  is the message of a failed conversion of a call's arguments to dynamic values.
\<close>

definition hash_order_ok :: "('w, 'sol) chain_api \<Rightarrow> bool" where
  "hash_order_ok api \<longleftrightarrow> (\<forall>xs. mset (api_hash_order api xs) = mset xs)"

lemma hash_order_set: "hash_order_ok api \<Longrightarrow> set (api_hash_order api xs) = set xs"
  unfolding hash_order_ok_def by (metis set_mset_mset)

lemma hash_order_length: "hash_order_ok api \<Longrightarrow> length (api_hash_order api xs) = length xs"
  unfolding hash_order_ok_def by (metis size_mset)

lemma hash_order_distinct: "hash_order_ok api \<Longrightarrow> distinct (api_hash_order api xs) = distinct xs"
  unfolding hash_order_ok_def by (metis mset_eq_imp_distinct_iff)

subsection \<open>Reading storage\<close>

primrec decode_value :: "'v storage_value \<Rightarrow> ('s, error, 'v) io" where
  "decode_value (Decodes v) = ret v"
| "decode_value (Malformed e) = throw (from_subxt e)"

definition decode_storage_opt :: "'v storage_value option \<Rightarrow> ('s, error, 'v option) io" where
  "decode_storage_opt val =
     (case val of
        None \<Rightarrow> ret None
      | Some v \<Rightarrow> io_bind (decode_value v) (\<lambda>x. ret (Some x)))"

text \<open>\<open>Decode::decode\<close>; a failure is \<open>Error::Codec\<close>.\<close>

primrec decode_raw :: "'v raw_value \<Rightarrow> ('s, error, 'v) io" where
  "decode_raw (RawValue v) = ret v"
| "decode_raw (RawMalformed msg) = throw (Codec msg)"

definition storage_at ::
  "('w, 'sol) chain_api \<Rightarrow> hash option \<Rightarrow> ('w, 'v, 'm, at_block) prog" where
  "storage_at api block =
     (case block of
        Some block_hash \<Rightarrow> await (api_at_block api block_hash)
      | None \<Rightarrow> await (api_at_current_block api))"

definition get_latest_finalized_head ::
  "('w, 'sol) chain_api \<Rightarrow> ('w, 'v, 'm, hash) prog" where
  "get_latest_finalized_head api =
     io_bind (await (api_at_current_block api)) (\<lambda>at. ret (ab_hash at))"

definition storage_at_head :: "('w, 'sol) chain_api \<Rightarrow> ('w, 'v, 'm, at_block) prog" where
  "storage_at_head api =
     io_bind (get_latest_finalized_head api) (\<lambda>h. storage_at api (Some h))"

definition wait_tx_in_finalized_block ::
  "('w, 'sol) chain_api \<Rightarrow> tx_progress \<Rightarrow> ('w, 'v, 'm, tx_in_block) prog" where
  "wait_tx_in_finalized_block api tx = await (api_wait_finalized api tx)"

text \<open>
  Signing and submitting: \<open>create_signed\<close>, then \<open>submit_and_watch\<close>.  The
  extrinsic is in the trace as soon as it is handed to the node.
\<close>

definition with_restrict_origins ::
  "('w, 'sol) chain_api \<Rightarrow> at_block \<Rightarrow> 'sol extrinsic \<Rightarrow> 'sol extrinsic" where
  "with_restrict_origins api at x = x\<lparr>ext_restrict := api_restrict_origins api at\<rparr>"

definition send_tx ::
  "('w, 'sol) chain_api \<Rightarrow> 'sol extrinsic \<Rightarrow> ('w, 'sol event, 'm, tx_progress) prog" where
  "send_tx api x =
     io_seq (await (api_create_signed api x))
    (io_seq (emit (SentTx x))
            (await (api_submit_and_watch api x)))"

lemmas [run_defs] = storage_at_head_def get_latest_finalized_head_def storage_at_def
  decode_storage_opt_def wait_tx_in_finalized_block_def with_restrict_origins_def send_tx_def

end
