(* ===== verification/Submission.thy ===== *)
theory Submission
  imports Chain_Api
begin

text \<open>
  Submission of a mined solution, \<open>src/src/dynamic/multi_block.rs\<close>: phase
  validation with bail, score registration with retries, the submission of a
  batch of pages, the concurrent and the chunked strategy, and \<open>submit\<close>,
  which composes them and retries failed pages once.
\<close>

subsection \<open>Solutions and transactions\<close>

text \<open>\<open>PagedRawSolution\<close>: its score, its round and its pages.\<close>

record 'sol paged_raw_solution =
  score :: election_score
  round :: u32
  solution_pages :: "'sol list"

datatype transaction_kind = RegisterScoreKind | SubmitPageKind u32

record 'sol multi_block_transaction =
  tx_kind :: transaction_kind
  tx_call :: "'sol runtime_call"

definition dynamic_tx ::
  "('w, 'sol) chain_api \<Rightarrow> transaction_kind \<Rightarrow> 'sol runtime_call \<Rightarrow>
     ('s, error, 'sol multi_block_transaction) io" where
  "dynamic_tx api kind c =
     (case api_encode_error api c of
        Some msg \<Rightarrow> throw (DynamicTransaction msg)
      | None \<Rightarrow> ret \<lparr>tx_kind = kind, tx_call = c\<rparr>)"

definition register_score ::
  "('w, 'sol) chain_api \<Rightarrow> election_score \<Rightarrow> ('s, error, 'sol multi_block_transaction) io" where
  "register_score api sc = dynamic_tx api RegisterScoreKind (Register sc)"

definition submit_page ::
  "('w, 'sol) chain_api \<Rightarrow> u32 \<Rightarrow> 'sol option \<Rightarrow>
     ('s, error, 'sol multi_block_transaction) io" where
  "submit_page api page maybe_solution =
     dynamic_tx api (SubmitPageKind page) (SubmitPage page maybe_solution)"

subsection \<open>Sending one transaction\<close>

text \<open>The transaction lives for the rest of the signed phase and one block more.\<close>

definition submit_inner ::
  "('w, 'sol) chain_api \<Rightarrow> 'sol multi_block_transaction \<Rightarrow> u64 \<Rightarrow> u32 \<Rightarrow>
     ('w, 'sol event, 'm, tx_progress) prog" where
  "submit_inner api tx nonce blocks_remaining =
     (let mortality = blocks_remaining + 1 in
      io_bind (await (api_at_current_block api)) (\<lambda>at.
      send_tx api (with_restrict_origins api at
        \<lparr>ext_call = tx_call tx, ext_nonce = nonce,
         ext_mortal = Some (ucast mortality), ext_restrict = False\<rparr>)))"

definition bail ::
  "('w, 'sol) chain_api \<Rightarrow> account_id \<Rightarrow> ('w, 'sol event, 'm, unit) prog" where
  "bail api who =
     io_bind (await (api_at_current_block api)) (\<lambda>at.
     io_bind (await (api_nonce api who)) (\<lambda>nonce.
     io_bind (send_tx api (with_restrict_origins api at
        \<lparr>ext_call = Bail, ext_nonce = nonce, ext_mortal = None, ext_restrict = False\<rparr>)) (\<lambda>tx.
     io_seq (wait_tx_in_finalized_block api tx)
     (ret ()))))"

subsection \<open>Phase validation\<close>

text \<open>The phase at the latest finalized head, \<open>Off\<close> when it is not stored.\<close>

definition read_phase :: "('w, 'sol) chain_api \<Rightarrow> ('w, 'sol event, 'm, phase) prog" where
  "read_phase api =
     io_bind (storage_at_head api) (\<lambda>storage.
     io_bind (await (api_try_phase api storage)) (\<lambda>val.
     io_bind (decode_storage_opt val) (\<lambda>maybe_phase.
     (let current_phase = (case maybe_phase of Some p \<Rightarrow> p | None \<Rightarrow> Off) in
      io_seq (emit (ReadPhase current_phase)) (ret current_phase)))))"

definition get_signed_phase_blocks_remaining :: "phase \<Rightarrow> ('s, error, u32) io" where
  "get_signed_phase_blocks_remaining current_phase =
     (case current_phase of
        Signed blocks_remaining \<Rightarrow> ret blocks_remaining
      | _ \<Rightarrow> panic ''get_signed_phase_blocks_remaining called but not in SignedPhase'')"

definition validate_signed_phase_or_bail ::
  "('w, 'sol) chain_api \<Rightarrow> account_id \<Rightarrow> u32 \<Rightarrow> u32 \<Rightarrow> phase \<Rightarrow>
     ('w, 'sol event, 'm, unit) prog" where
  "validate_signed_phase_or_bail api who rnd min_signed_phase_blocks current_phase =
     (case current_phase of
        Signed blocks_remaining \<Rightarrow>
          if blocks_remaining \<le> min_signed_phase_blocks then
            io_bind (storage_at_head api) (\<lambda>storage.
            io_bind (await (api_submission api storage rnd who)) (\<lambda>val.
            io_bind (decode_storage_opt val) (\<lambda>maybe_submission.
            io_seq
              (case maybe_submission of
                 Some submission \<Rightarrow>
                   if \<not> list_all (\<lambda>p. p) (pages submission) then bail api who else ret ()
               | None \<Rightarrow> ret ())
              (throw (InsufficientSignedPhaseBlocks blocks_remaining min_signed_phase_blocks)))))
          else ret ()
      | _ \<Rightarrow> throw (PhaseChangedDuringSubmission (api_debug_phase api current_phase) rnd))"

subsection \<open>Submitting a batch of pages\<close>

record submission_result =
  failed_pages :: "u32 list"
  submitted_pages :: "u32 list"

definition all_successful :: "submission_result \<Rightarrow> bool" where
  "all_successful res = (failed_pages res = [])"

text \<open>
  The submission loop: for each page the phase is read again, its mortality
  computed, the transaction sent, and the nonce incremented.
\<close>

primrec send_pages ::
  "('w, 'sol) chain_api \<Rightarrow> (u32 \<times> 'sol) list \<Rightarrow> u64 \<Rightarrow> (u32 \<times> tx_progress) list \<Rightarrow>
     ('w, 'sol event, 'm, (u32 \<times> tx_progress) list) prog" where
  "send_pages api [] nonce txs = ret txs"
| "send_pages api (ps # pss) nonce txs =
     io_bind (read_phase api) (\<lambda>current_phase.
     io_bind (get_signed_phase_blocks_remaining current_phase) (\<lambda>blocks_remaining.
     io_bind (submit_page api (fst ps) (Some (snd ps))) (\<lambda>tx.
     io_bind (submit_inner api tx nonce blocks_remaining) (\<lambda>tx_status.
     send_pages api pss (nonce + 1) (txs @ [(fst ps, tx_status)])))))"

primrec scan_events ::
  "(subxt_error + chain_event) list \<Rightarrow> u32 list \<Rightarrow> ('w, 'sol event, 'm, u32 list) prog" where
  "scan_events [] submitted = ret submitted"
| "scan_events (ev # evs) submitted =
     (case ev of
        Inl e \<Rightarrow> throw (from_subxt e)
      | Inr (EvStored (Some page)) \<Rightarrow>
          io_seq (emit (PageStored page)) (scan_events evs (hs_insert page submitted))
      | Inr _ \<Rightarrow> scan_events evs submitted)"

definition next_ready ::
  "('w, 'sol) chain_api \<Rightarrow> nat \<Rightarrow> ('w, 'sol event, 'm, nat) prog" where
  "next_ready api n = (\<lambda>s. case api_next_ready api n (world s) of
      (i, w) \<Rightarrow> (Ok (i mod n), s\<lparr>world := w\<rparr>))"

text \<open>
  \<open>while let Some(page) = txs.next().await\<close> on a \<open>FuturesUnordered\<close>: the
  futures complete in an order the environment chooses.  The first argument
  is the number of futures left.
\<close>

primrec collect_txs ::
  "nat \<Rightarrow> ('w, 'sol) chain_api \<Rightarrow> (u32 \<times> tx_progress) list \<Rightarrow> u32 list \<Rightarrow> u32 list \<Rightarrow>
     ('w, 'sol event, 'm, u32 list \<times> u32 list) prog" where
  "collect_txs 0 api txs failed submitted = ret (failed, submitted)"
| "collect_txs (Suc n) api txs failed submitted =
     io_bind (next_ready api (Suc n)) (\<lambda>i.
     (let rest = take i txs @ drop (Suc i) txs in
      io_bind (io_try (wait_tx_in_finalized_block api (snd (txs ! i)))) (\<lambda>r.
      (case r of
         Inr tx \<Rightarrow>
           io_bind (await (api_wait_success api tx)) (\<lambda>evs.
           io_bind (scan_events evs submitted) (\<lambda>submitted'.
           collect_txs n api rest failed submitted'))
       | Inl _ \<Rightarrow> collect_txs n api rest (hs_insert (fst (txs ! i)) failed) submitted))))"

definition submit_pages_batch ::
  "('w, 'sol) chain_api \<Rightarrow> account_id \<Rightarrow> (u32 \<times> 'sol) list \<Rightarrow> u32 \<Rightarrow> u32 \<Rightarrow>
     ('w, 'sol event, 'm, submission_result) prog" where
  "submit_pages_batch api who pages_to_submit rnd min_signed_phase_blocks =
     io_bind (read_phase api) (\<lambda>current_phase.
     io_seq (validate_signed_phase_or_bail api who rnd min_signed_phase_blocks current_phase)
    (io_bind (await (api_nonce api who)) (\<lambda>nonce.
     (let expected_pages = hs_of (map fst pages_to_submit) in
      io_bind (send_pages api pages_to_submit nonce []) (\<lambda>txs.
      io_bind (collect_txs (length txs) api txs [] []) (\<lambda>(failed, submitted).
      (let missing_pages = filter (\<lambda>p. p \<notin> set submitted) expected_pages;
           failed_set = hs_extend failed missing_pages in
       ret \<lparr>failed_pages = api_hash_order api failed_set,
            submitted_pages = submitted\<rparr>)))))))"

subsection \<open>The two strategies\<close>

definition inner_submit_pages_concurrent ::
  "('w, 'sol) chain_api \<Rightarrow> account_id \<Rightarrow> (u32 \<times> 'sol) list \<Rightarrow> u32 \<Rightarrow> u32 \<Rightarrow>
     ('w, 'sol event, 'm, u32 list) prog" where
  "inner_submit_pages_concurrent api who paged rnd min_signed_phase_blocks =
     io_bind (submit_pages_batch api who paged rnd min_signed_phase_blocks) (\<lambda>result.
     if all_successful result then ret [] else ret (failed_pages result))"

primrec submit_chunks ::
  "('w, 'sol) chain_api \<Rightarrow> account_id \<Rightarrow> u32 \<Rightarrow> u32 \<Rightarrow> nat \<Rightarrow>
     (u32 \<times> 'sol) list list \<Rightarrow> u32 list \<Rightarrow> ('w, 'sol event, 'm, u32 list) prog" where
  "submit_chunks api who rnd min_signed_phase_blocks total_pages [] submitted = ret []"
| "submit_chunks api who rnd min_signed_phase_blocks total_pages (chunk # rest) submitted =
     io_bind (read_phase api) (\<lambda>current_phase.
     io_seq (validate_signed_phase_or_bail api who rnd min_signed_phase_blocks current_phase)
    (io_bind (submit_pages_batch api who chunk rnd min_signed_phase_blocks) (\<lambda>result.
     if \<not> all_successful result then ret (failed_pages result)
     else
       (let submitted' = hs_extend submitted (submitted_pages result) in
        if length submitted' = total_pages then ret []
        else submit_chunks api who rnd min_signed_phase_blocks total_pages rest submitted'))))"

definition inner_submit_pages_chunked ::
  "('w, 'sol) chain_api \<Rightarrow> account_id \<Rightarrow> (u32 \<times> 'sol) list \<Rightarrow> nat \<Rightarrow> u32 \<Rightarrow> u32 \<Rightarrow>
     ('w, 'sol event, 'm, u32 list) prog" where
  "inner_submit_pages_chunked api who paged chunk_size rnd min_signed_phase_blocks =
     (if chunk_size = 0 then panic ''Chunk size must be greater than 0''
      else submit_chunks api who rnd min_signed_phase_blocks (length paged)
             (chunks chunk_size paged) [])"

definition submit_pages ::
  "('w, 'sol) chain_api \<Rightarrow> account_id \<Rightarrow> (u32 \<times> 'sol) list \<Rightarrow> nat \<Rightarrow> u32 \<Rightarrow> u32 \<Rightarrow>
     ('w, 'sol event, 'm, u32 list) prog" where
  "submit_pages api who paged chunk_size rnd min_signed_phase_blocks =
     (if chunk_size = 0
      then inner_submit_pages_concurrent api who paged rnd min_signed_phase_blocks
      else inner_submit_pages_chunked api who paged chunk_size rnd min_signed_phase_blocks)"

subsection \<open>Submitting a solution\<close>

text \<open>
  Registration of the score.  The source counts failed attempts in \<open>i\<close> and
  gives up when \<open>i\<close> reaches 10; the first argument here is \<open>9 - i\<close>.
\<close>

definition register_attempt ::
  "('w, 'sol) chain_api \<Rightarrow> account_id \<Rightarrow> election_score \<Rightarrow> u32 \<Rightarrow>
     ('w, 'sol event, 'm, error + tx_progress) prog" where
  "register_attempt api who sc blocks_remaining =
     io_bind (await (api_nonce api who)) (\<lambda>nonce.
     io_bind (register_score api sc) (\<lambda>tx.
     io_try (submit_inner api tx nonce blocks_remaining)))"

primrec register_loop ::
  "nat \<Rightarrow> ('w, 'sol) chain_api \<Rightarrow> account_id \<Rightarrow> election_score \<Rightarrow> u32 \<Rightarrow>
     ('w, 'sol event, 'm, tx_progress) prog" where
  "register_loop 0 api who sc blocks_remaining =
     io_bind (register_attempt api who sc blocks_remaining) (\<lambda>r. io_result r)"
| "register_loop (Suc n) api who sc blocks_remaining =
     io_bind (register_attempt api who sc blocks_remaining) (\<lambda>r.
     (case r of
        Inr tx \<Rightarrow> ret tx
      | Inl (Subxt (ExtrinsicError e)) \<Rightarrow>
          io_seq (emit (Slept 6000)) (register_loop n api who sc blocks_remaining)
      | Inl e \<Rightarrow> throw e))"

text \<open>\<open>std::mem::take\<close> of the failed pages; an index out of range panics.\<close>

primrec take_pages :: "'sol \<Rightarrow> 'sol list \<Rightarrow> u32 list \<Rightarrow> (u32 \<times> 'sol) list option" where
  "take_pages d sols [] = Some []"
| "take_pages d sols (page # rest) =
     (if unat page < length sols
      then map_option (\<lambda>ps. (page, sols ! unat page) # ps)
             (take_pages d (sols[unat page := d]) rest)
      else None)"

definition submit ::
  "('w, 'sol) chain_api \<Rightarrow> account_id \<Rightarrow> 'sol paged_raw_solution \<Rightarrow> nat \<Rightarrow> u32 \<Rightarrow> u32 \<Rightarrow>
     ('w, 'sol event, 'm, unit) prog" where
  "submit api who paged chunk_size rnd min_signed_phase_blocks =
     io_bind (read_phase api) (\<lambda>current_phase.
     io_seq (validate_signed_phase_or_bail api who rnd min_signed_phase_blocks current_phase)
    (io_bind (get_signed_phase_blocks_remaining current_phase) (\<lambda>blocks_remaining.
     io_bind (register_loop 9 api who (score paged) blocks_remaining) (\<lambda>tx_status.
     io_bind (wait_tx_in_finalized_block api tx_status) (\<lambda>tx.
     io_bind (await (api_wait_success api tx)) (\<lambda>events.
     if Inr EvRegistered \<notin> set events then throw (MissingTxEvent ''Register score'')
     else
     io_seq (emit ScoreRegistered)
    (io_seq (emit (Metric SubmissionStarted))
    (io_bind (read_phase api) (\<lambda>current_phase'.
     io_seq (validate_signed_phase_or_bail api who rnd min_signed_phase_blocks current_phase')
    (io_bind (submit_pages api who (enumerate_u32 (solution_pages paged)) chunk_size rnd
                min_signed_phase_blocks) (\<lambda>failed.
     if failed = [] then io_seq (emit (Metric SubmissionSuccess)) (ret ())
     else
     io_bind (read_phase api) (\<lambda>current_phase''.
     io_seq (validate_signed_phase_or_bail api who rnd min_signed_phase_blocks current_phase'')
    (case take_pages (api_default_solution api) (solution_pages paged) failed of
       None \<Rightarrow> panic ''index out of bounds''
     | Some solutions \<Rightarrow>
         io_bind (submit_pages api who solutions chunk_size rnd min_signed_phase_blocks)
           (\<lambda>failed'.
         if failed' = [] then io_seq (emit (Metric SubmissionSuccess)) (ret ())
         else
         io_bind (read_phase api) (\<lambda>current_phase'''.
         io_seq (validate_signed_phase_or_bail api who rnd min_signed_phase_blocks
                   current_phase''')
        (throw (FailedToSubmitPages (length failed'))))))))))))))))))"

lemmas [run_defs] = submit_def read_phase_def validate_signed_phase_or_bail_def
  get_signed_phase_blocks_remaining_def submit_inner_def register_attempt_def register_score_def
  dynamic_tx_def submit_page_def submit_pages_def inner_submit_pages_concurrent_def
  inner_submit_pages_chunked_def submit_pages_batch_def all_successful_def next_ready_def bail_def
  register_loop.simps(2) [of 8, simplified] Let_def hs_insert_def hs_extend_def enumerate_u32_def

end
