(* ===== verification/Trace_Monitor.thy ===== *)
theory Trace_Monitor
  imports Errors
begin

text \<open>
  Safety monitors over traces.  A monitor is a partial automaton over events:
  \<open>d g v = None\<close> says that event \<open>v\<close> is not allowed in state \<open>g\<close>.  A
  program is safe from \<open>g\<close> when the events it adds are accepted in every
  environment; the judgement carries a postcondition on the monitor state for
  normal results and one for all other outcomes, and its rules work backwards
  from the postcondition, one per program combinator.
\<close>

primrec run_monitor :: "('g \<Rightarrow> 'v \<Rightarrow> 'g option) \<Rightarrow> 'g \<Rightarrow> 'v list \<Rightarrow> 'g option" where
  "run_monitor d g [] = Some g"
| "run_monitor d g (v # vs) = (case d g v of None \<Rightarrow> None | Some g' \<Rightarrow> run_monitor d g' vs)"

lemma run_monitor_append:
  "run_monitor d g (vs @ ws) =
     (case run_monitor d g vs of None \<Rightarrow> None | Some g' \<Rightarrow> run_monitor d g' ws)"
  by (induction vs arbitrary: g) (auto split: option.split)

definition safe ::
  "('g \<Rightarrow> 'v \<Rightarrow> 'g option) \<Rightarrow> (('w, 'v, 'm) sys_scheme, 'e, 'a) io \<Rightarrow>
     ('a \<Rightarrow> 'g \<Rightarrow> bool) \<Rightarrow> ('g \<Rightarrow> bool) \<Rightarrow> 'g \<Rightarrow> bool" where
  "safe d m Q E g \<longleftrightarrow>
     (\<forall>s. \<exists>evs g'. trace (snd (m s)) = trace s @ evs \<and> run_monitor d g evs = Some g' \<and>
        (case fst (m s) of Ok x \<Rightarrow> Q x g' | _ \<Rightarrow> E g'))"

lemma safeD:
  assumes "safe d m Q E g" and "m s = (r, t)"
  obtains evs g' where "trace t = trace s @ evs" and "run_monitor d g evs = Some g'"
    and "case r of Ok x \<Rightarrow> Q x g' | _ \<Rightarrow> E g'"
  using assms unfolding safe_def by (metis fst_conv snd_conv)

lemma safeI:
  assumes "\<And>s r t. m s = (r, t) \<Longrightarrow>
    \<exists>evs g'. trace t = trace s @ evs \<and> run_monitor d g evs = Some g' \<and>
      (case r of Ok x \<Rightarrow> Q x g' | _ \<Rightarrow> E g')"
  shows "safe d m Q E g"
  unfolding safe_def by (metis assms prod.collapse)

text \<open>From the judgement to a statement about one run.\<close>

lemma safe_run:
  assumes "safe d m Q E g" and "m s = (r, t)"
  shows "\<exists>evs g'. trace t = trace s @ evs \<and> run_monitor d g evs = Some g' \<and>
    (\<forall>x. r = Ok x \<longrightarrow> Q x g')"
proof -
  from safeD [OF assms] obtain evs g' where "trace t = trace s @ evs"
    and "run_monitor d g evs = Some g'" and "case r of Ok x \<Rightarrow> Q x g' | _ \<Rightarrow> E g'" .
  then show ?thesis by (auto split: outcome.splits)
qed

lemma safe_mono:
  assumes "safe d m Q' E' g" and "\<And>x g'. Q' x g' \<Longrightarrow> Q x g'" and "\<And>g'. E' g' \<Longrightarrow> E g'"
  shows "safe d m Q E g"
proof (rule safeI)
  fix s r t
  assume "m s = (r, t)"
  with assms(1) obtain evs g' where "trace t = trace s @ evs"
    and "run_monitor d g evs = Some g'" and "case r of Ok x \<Rightarrow> Q' x g' | _ \<Rightarrow> E' g'"
    by (rule safeD)
  then show "\<exists>evs g'. trace t = trace s @ evs \<and> run_monitor d g evs = Some g' \<and>
      (case r of Ok x \<Rightarrow> Q x g' | _ \<Rightarrow> E g')"
    using assms(2,3) by (auto split: outcome.splits)
qed

subsection \<open>Silent programs\<close>

text \<open>A program that leaves the trace alone.\<close>

definition silent :: "(('w, 'v, 'm) sys_scheme, 'e, 'a) io \<Rightarrow> bool" where
  "silent m \<longleftrightarrow> (\<forall>s. trace (snd (m s)) = trace s)"

named_theorems silent_intros \<open>programs that emit no event\<close>

lemma silent_ret [silent_intros]: "silent (ret x)"
  by (simp add: silent_def ret_def)

lemma silent_throw [silent_intros]: "silent (throw e)"
  by (simp add: silent_def throw_def)

lemma silent_panic [silent_intros]: "silent (panic e)"
  by (simp add: silent_def panic_def)

lemma silent_result [silent_intros]: "silent (io_result r)"
  by (cases r) (simp_all add: silent_intros)

lemma silent_await [silent_intros]: "silent (await f)"
  by (auto simp: silent_def await_def io_map_err_def call_def split: prod.split outcome.split)

lemma silent_bind [silent_intros]:
  assumes "silent m" and "\<And>x. silent (f x)"
  shows "silent (io_bind m f)"
  unfolding silent_def
proof
  fix s
  obtain r t where "m s = (r, t)" by fastforce
  then show "trace (snd (io_bind m f s)) = trace s"
    using assms by (cases r) (auto simp: io_bind_def silent_def dest!: spec [of _ s])
qed

lemma silent_map_err [silent_intros]:
  assumes "silent m"
  shows "silent (io_map_err g m)"
  unfolding silent_def
proof
  fix s
  obtain r t where "m s = (r, t)" by fastforce
  then show "trace (snd (io_map_err g m s)) = trace s"
    using assms by (cases r) (auto simp: io_map_err_def silent_def dest!: spec [of _ s])
qed

subsection \<open>Rules\<close>

named_theorems safe_intros \<open>backward rules of the safety judgement\<close>

lemma safe_silent:
  assumes "silent m" and "\<And>x. Q x g" and "E g"
  shows "safe d m Q E g"
  using assms by (auto simp: safe_def silent_def split: outcome.split intro!: exI [of _ "[]"])

lemma safe_ret [safe_intros]: "Q x g \<Longrightarrow> safe d (ret x) Q E g"
  by (auto simp: safe_def ret_def intro: exI [of _ "[]"])

lemma safe_throw [safe_intros]: "E g \<Longrightarrow> safe d (throw e) Q E g"
  by (auto simp: safe_def throw_def intro: exI [of _ "[]"])

lemma safe_panic [safe_intros]: "E g \<Longrightarrow> safe d (panic p) Q E g"
  by (auto simp: safe_def panic_def intro: exI [of _ "[]"])

lemma safe_result [safe_intros]:
  "(\<And>x. r = Inr x \<Longrightarrow> Q x g) \<Longrightarrow> E g \<Longrightarrow> safe d (io_result r) Q E g"
  by (cases r) (simp_all add: safe_ret safe_throw)

lemma safe_await [safe_intros]: "(\<And>x. Q x g) \<Longrightarrow> E g \<Longrightarrow> safe d (await f) Q E g"
  by (rule safe_silent [OF silent_await])

lemma safe_emit: "d g v = Some g' \<Longrightarrow> Q () g' \<Longrightarrow> safe d (emit v) Q E g"
  by (auto simp: safe_def emit_def intro!: exI [of _ "[v]"])

lemma safe_emit_iff: "safe d (emit v) Q E g \<longleftrightarrow> (\<exists>g'. d g v = Some g' \<and> Q () g')"
  by (auto simp: safe_def emit_def split: option.splits)

lemma safe_bind [safe_intros]:
  assumes m: "safe d m (\<lambda>x. safe d (f x) Q E) E g"
  shows "safe d (io_bind m f) Q E g"
proof (rule safeI)
  fix s r' t'
  assume run: "io_bind m f s = (r', t')"
  obtain r t where r: "m s = (r, t)" by fastforce
  from safeD [OF m r] obtain evs g' where tr: "trace t = trace s @ evs"
    and mon: "run_monitor d g evs = Some g'"
    and post: "case r of Ok x \<Rightarrow> safe d (f x) Q E g' | _ \<Rightarrow> E g'" .
  show "\<exists>evs g'. trace t' = trace s @ evs \<and> run_monitor d g evs = Some g' \<and>
      (case r' of Ok x \<Rightarrow> Q x g' | _ \<Rightarrow> E g')"
  proof (cases r)
    case (Ok x)
    with run r have fx: "f x t = (r', t')" by (simp add: io_bind_def)
    from post Ok have "safe d (f x) Q E g'" by simp
    from safeD [OF this fx] obtain evs' g'' where "trace t' = trace t @ evs'"
      and "run_monitor d g' evs' = Some g''" and "case r' of Ok x \<Rightarrow> Q x g'' | _ \<Rightarrow> E g''" .
    with tr mon show ?thesis
      by (intro exI [of _ "evs @ evs'"] exI [of _ g'']) (simp add: run_monitor_append)
  qed (use tr mon post r run in \<open>auto simp: io_bind_def\<close>)
qed

lemma safe_bind_via:
  assumes "safe d m Q' E g" and "\<And>x g'. Q' x g' \<Longrightarrow> safe d (f x) Q E g'"
  shows "safe d (io_bind m f) Q E g"
  by (rule safe_bind, rule safe_mono [OF assms(1)]) (simp_all add: assms(2))

lemma safe_try [safe_intros]:
  assumes "safe d m (\<lambda>x. Q (Inr x)) (\<lambda>g'. (\<forall>e. Q (Inl e) g') \<and> E g') g"
  shows "safe d (io_try m) Q E g"
proof (rule safeI)
  fix s r' t
  assume run: "io_try m s = (r', t)"
  obtain r t0 where r: "m s = (r, t0)" by fastforce
  from safeD [OF assms r] obtain evs g' where "trace t0 = trace s @ evs"
    and "run_monitor d g evs = Some g'"
    and "case r of Ok x \<Rightarrow> Q (Inr x) g' | _ \<Rightarrow> (\<forall>e. Q (Inl e) g') \<and> E g'" .
  then show "\<exists>evs g'. trace t = trace s @ evs \<and> run_monitor d g evs = Some g' \<and>
      (case r' of Ok x \<Rightarrow> Q x g' | _ \<Rightarrow> E g')"
    using r run by (cases r) (auto simp: io_try_def)
qed

lemma safe_timeout [safe_intros]:
  assumes "safe d m (\<lambda>x. Q (Some (Inr x)))
    (\<lambda>g'. (\<forall>e. Q (Some (Inl e)) g') \<and> Q None g' \<and> E g') g"
  shows "safe d (io_timeout m) Q E g"
proof (rule safeI)
  fix s r' t
  assume run: "io_timeout m s = (r', t)"
  obtain r t0 where r: "m s = (r, t0)" by fastforce
  from safeD [OF assms r] obtain evs g' where "trace t0 = trace s @ evs"
    and "run_monitor d g evs = Some g'"
    and "case r of Ok x \<Rightarrow> Q (Some (Inr x)) g'
         | _ \<Rightarrow> (\<forall>e. Q (Some (Inl e)) g') \<and> Q None g' \<and> E g'" .
  then show "\<exists>evs g'. trace t = trace s @ evs \<and> run_monitor d g evs = Some g' \<and>
      (case r' of Ok x \<Rightarrow> Q x g' | _ \<Rightarrow> E g')"
    using r run by (cases r) (auto simp: io_timeout_def)
qed

lemma safe_if [safe_intros]:
  "(b \<Longrightarrow> safe d m Q E g) \<Longrightarrow> (\<not> b \<Longrightarrow> safe d n Q E g) \<Longrightarrow> safe d (if b then m else n) Q E g"
  by simp

lemma safe_case_option [safe_intros]:
  "(x = None \<Longrightarrow> safe d m Q E g) \<Longrightarrow> (\<And>y. x = Some y \<Longrightarrow> safe d (f y) Q E g) \<Longrightarrow>
   safe d (case x of None \<Rightarrow> m | Some y \<Rightarrow> f y) Q E g"
  by (cases x) simp_all

lemma safe_case_sum [safe_intros]:
  "(\<And>e. x = Inl e \<Longrightarrow> safe d (h e) Q E g) \<Longrightarrow> (\<And>y. x = Inr y \<Longrightarrow> safe d (f y) Q E g) \<Longrightarrow>
   safe d (case x of Inl e \<Rightarrow> h e | Inr y \<Rightarrow> f y) Q E g"
  by (cases x) simp_all

lemma safe_case_prod [safe_intros]:
  "(\<And>a b. x = (a, b) \<Longrightarrow> safe d (f a b) Q E g) \<Longrightarrow> safe d (case x of (a, b) \<Rightarrow> f a b) Q E g"
  by (cases x) simp_all

lemma safe_get [safe_intros]: "(\<And>x. Q x g) \<Longrightarrow> E g \<Longrightarrow> safe d (io_get f) Q E g"
  by (auto simp: safe_def io_get_def intro: exI [of _ "[]"])

lemma safe_modify [safe_intros]:
  "(\<And>s. trace (f s) = trace s) \<Longrightarrow> Q () g \<Longrightarrow> E g \<Longrightarrow> safe d (io_modify f) Q E g"
  by (auto simp: safe_def io_modify_def intro: exI [of _ "[]"])

lemma safe_call_err [safe_intros]:
  "(\<And>x. Q x g) \<Longrightarrow> E g \<Longrightarrow> safe d (io_map_err h (call f)) Q E g"
  by (auto simp: safe_def io_map_err_def call_def split: prod.split outcome.split
      intro!: exI [of _ "[]"])

subsection \<open>Programs confined to a set of events\<close>

definition within :: "('v \<Rightarrow> bool) \<Rightarrow> unit \<Rightarrow> 'v \<Rightarrow> unit option" where
  "within A u ev = (if A ev then Some () else None)"

abbreviation emits :: "('v \<Rightarrow> bool) \<Rightarrow> (('w, 'v, 'm) sys_scheme, 'e, 'a) io \<Rightarrow> bool" where
  "emits A m \<equiv> safe (within A) m (\<lambda>_ _. True) (\<lambda>_. True) ()"

lemma run_within: "run_monitor (within A) () evs = Some u \<longleftrightarrow> list_all A evs"
  by (induction evs) (auto simp: within_def)

lemma safe_emits:
  assumes "emits A m" and step: "\<And>g ev. P g \<Longrightarrow> A ev \<Longrightarrow> \<exists>g'. d g ev = Some g' \<and> P g'" and "P g"
    and Q: "\<And>x g. P g \<Longrightarrow> Q x g" and E: "\<And>g. P g \<Longrightarrow> E g"
  shows "safe d m Q E g"
proof (rule safeI)
  fix s r t
  assume "m s = (r, t)"
  from safeD [OF assms(1) this] obtain evs where tr: "trace t = trace s @ evs"
    and "list_all A evs" by (metis run_within)
  from this(2) \<open>P g\<close> have "\<exists>g'. run_monitor d g evs = Some g' \<and> P g'"
  proof (induction evs arbitrary: g)
    case (Cons ev evs)
    with step [of g ev] show ?case by auto
  qed simp
  with tr show "\<exists>evs g'. trace t = trace s @ evs \<and> run_monitor d g evs = Some g' \<and>
      (case r of Ok x \<Rightarrow> Q x g' | _ \<Rightarrow> E g')"
    using Q E by (auto split: outcome.split)
qed

lemma emits_mono:
  assumes "emits A m" and "\<And>ev. A ev \<Longrightarrow> B ev"
  shows "emits B m"
  by (rule safe_emits [OF assms(1), where P = "\<lambda>_. True"]) (simp_all add: within_def assms(2))

lemma emits_emit [safe_intros]: "A v \<Longrightarrow> Q () () \<Longrightarrow> safe (within A) (emit v) Q E ()"
  by (auto simp: within_def intro: safe_emit)

lemma emits_bind: "emits A m \<Longrightarrow> (\<And>x. emits A (f x)) \<Longrightarrow> emits A (io_bind m f)"
  by (rule safe_bind_via) simp_all

lemma emits_try: "emits A m \<Longrightarrow> emits A (io_try m)"
  by (rule safe_try) (simp add: safe_mono)

lemma safe_call [safe_intros]: "(\<And>x. Q x g) \<Longrightarrow> E g \<Longrightarrow> safe d (call f) Q E g"
  by (auto simp: safe_def call_def split: prod.split outcome.split intro!: exI [of _ "[]"])

subsection \<open>Task variables\<close>

text \<open>
  A program that leaves the task's own variables alone, whatever they are.
\<close>

definition frames :: "(('w, 'v, 'm) sys_scheme, 'e, 'a) io \<Rightarrow> bool" where
  "frames m \<longleftrightarrow> (\<forall>s. sys.more (snd (m s)) = sys.more s)"

named_theorems frames_intros \<open>programs that keep the task variables\<close>

lemma framesD: "frames m \<Longrightarrow> m s = (r, t) \<Longrightarrow> sys.more t = sys.more s"
  unfolding frames_def by (metis snd_conv)

lemma frames_ret [frames_intros]: "frames (ret x)"
  by (simp add: frames_def ret_def)

lemma frames_throw [frames_intros]: "frames (throw e)"
  by (simp add: frames_def throw_def)

lemma frames_panic [frames_intros]: "frames (panic e)"
  by (simp add: frames_def panic_def)

lemma frames_result [frames_intros]: "frames (io_result r)"
  by (cases r) (simp_all add: frames_intros)

lemma frames_emit [frames_intros]: "frames (emit v)"
  by (simp add: frames_def emit_def)

lemma frames_await [frames_intros]: "frames (await f)"
  by (auto simp: frames_def await_def io_map_err_def call_def split: prod.split outcome.split)

lemma frames_bind [frames_intros]:
  assumes "frames m" and "\<And>x. frames (f x)"
  shows "frames (io_bind m f)"
  unfolding frames_def
proof
  fix s
  obtain r t where m: "m s = (r, t)" by fastforce
  show "sys.more (snd (io_bind m f s)) = sys.more s"
    using framesD [OF assms(1) m] assms(2) m by (cases r) (simp_all add: io_bind_def frames_def)
qed

lemma frames_try [frames_intros]:
  assumes "frames m"
  shows "frames (io_try m)"
  unfolding frames_def
proof
  fix s
  obtain r t where m: "m s = (r, t)" by fastforce
  show "sys.more (snd (io_try m s)) = sys.more s"
    using framesD [OF assms m] m by (cases r) (simp_all add: io_try_def)
qed

lemma frames_timeout [frames_intros]:
  assumes "frames m"
  shows "frames (io_timeout m)"
  unfolding frames_def
proof
  fix s
  obtain r t where m: "m s = (r, t)" by fastforce
  show "sys.more (snd (io_timeout m s)) = sys.more s"
    using framesD [OF assms m] m by (cases r) (simp_all add: io_timeout_def)
qed

lemma frames_if [frames_intros]: "frames m \<Longrightarrow> frames n \<Longrightarrow> frames (if b then m else n)"
  by simp

lemma frames_case_option [frames_intros]:
  "frames m \<Longrightarrow> (\<And>y. frames (f y)) \<Longrightarrow> frames (case x of None \<Rightarrow> m | Some y \<Rightarrow> f y)"
  by (cases x) simp_all

lemma frames_case_sum [frames_intros]:
  "(\<And>e. frames (h e)) \<Longrightarrow> (\<And>y. frames (f y)) \<Longrightarrow> frames (case x of Inl e \<Rightarrow> h e | Inr y \<Rightarrow> f y)"
  by (cases x) simp_all

lemma frames_case_prod [frames_intros]:
  "(\<And>a b. frames (f a b)) \<Longrightarrow> frames (case x of (a, b) \<Rightarrow> f a b)"
  by (cases x) simp_all

lemma frames_fold [frames_intros]: "(\<And>x a. frames (f x a)) \<Longrightarrow> frames (io_fold f xs a)"
  by (induction xs arbitrary: a) (simp_all add: frames_intros)

lemma frames_call_plain [frames_intros]: "frames (call f)"
  by (auto simp: frames_def call_def split: prod.split)

lemma frames_call [frames_intros]: "frames (io_map_err h (call f))"
  by (auto simp: frames_def io_map_err_def call_def split: prod.split outcome.split)

text \<open>
  Invariants of a task: what a program preserves whatever its outcome.  An
  invariant of the task variables alone is independent of the environment and
  of the trace, and every program that leaves the variables alone preserves it.
\<close>

definition preserves :: "('s \<Rightarrow> bool) \<Rightarrow> ('s, 'e, 'a) io \<Rightarrow> bool" where
  "preserves I m \<longleftrightarrow> (\<forall>s. I s \<longrightarrow> I (snd (m s)))"

definition independent :: "(('w, 'v, 'm) sys_scheme \<Rightarrow> bool) \<Rightarrow> bool" where
  "independent I \<longleftrightarrow> (\<forall>s w tr. I s \<longrightarrow> I (s\<lparr>world := w, trace := tr\<rparr>))"

named_theorems preserves_intros \<open>rules for task invariants\<close>

lemma preservesD: "preserves I m \<Longrightarrow> I s \<Longrightarrow> m s = (r, t) \<Longrightarrow> I t"
  unfolding preserves_def by (metis snd_conv)

lemma preserves_frames:
  assumes "frames m" and "independent I"
  shows "preserves I m"
  unfolding preserves_def
proof (intro allI impI)
  fix s
  assume "I s"
  let ?t = "snd (m s)"
  from assms(1) have "sys.more ?t = sys.more s" by (simp add: frames_def)
  then have "s\<lparr>world := world ?t, trace := trace ?t\<rparr> = ?t" by (cases s; cases ?t) simp
  with \<open>I s\<close> assms(2) show "I ?t" unfolding independent_def by metis
qed

lemma preserves_ret [preserves_intros]: "preserves I (ret x)"
  by (simp add: preserves_def ret_def)

lemma preserves_throw [preserves_intros]: "preserves I (throw e)"
  by (simp add: preserves_def throw_def)

lemma preserves_panic [preserves_intros]: "preserves I (panic e)"
  by (simp add: preserves_def panic_def)

lemma preserves_get [preserves_intros]: "preserves I (io_get f)"
  by (simp add: preserves_def io_get_def)

lemma preserves_modify [preserves_intros]: "(\<And>s. I s \<Longrightarrow> I (f s)) \<Longrightarrow> preserves I (io_modify f)"
  by (simp add: preserves_def io_modify_def)

lemma preserves_bind [preserves_intros]:
  assumes "preserves I m" and "\<And>x. preserves I (f x)"
  shows "preserves I (io_bind m f)"
  unfolding preserves_def
proof (intro allI impI)
  fix s
  assume "I s"
  obtain r t where m: "m s = (r, t)" by fastforce
  from preservesD [OF assms(1) \<open>I s\<close> m] have "I t" .
  then show "I (snd (io_bind m f s))"
    using assms(2) m by (cases r) (simp_all add: io_bind_def preserves_def)
qed

lemma preserves_try [preserves_intros]:
  assumes "preserves I m"
  shows "preserves I (io_try m)"
  unfolding preserves_def
proof (intro allI impI)
  fix s
  assume "I s"
  obtain r t where m: "m s = (r, t)" by fastforce
  from preservesD [OF assms \<open>I s\<close> m] m show "I (snd (io_try m s))"
    by (cases r) (simp_all add: io_try_def)
qed

lemma preserves_timeout [preserves_intros]:
  assumes "preserves I m"
  shows "preserves I (io_timeout m)"
  unfolding preserves_def
proof (intro allI impI)
  fix s
  assume "I s"
  obtain r t where m: "m s = (r, t)" by fastforce
  from preservesD [OF assms \<open>I s\<close> m] m show "I (snd (io_timeout m s))"
    by (cases r) (simp_all add: io_timeout_def)
qed

lemma preserves_if [preserves_intros]:
  "preserves I m \<Longrightarrow> preserves I n \<Longrightarrow> preserves I (if b then m else n)"
  by simp

lemma preserves_case_option [preserves_intros]:
  "preserves I m \<Longrightarrow> (\<And>y. preserves I (f y)) \<Longrightarrow>
   preserves I (case x of None \<Rightarrow> m | Some y \<Rightarrow> f y)"
  by (cases x) simp_all

lemma preserves_case_sum [preserves_intros]:
  "(\<And>e. preserves I (h e)) \<Longrightarrow> (\<And>y. preserves I (f y)) \<Longrightarrow>
   preserves I (case x of Inl e \<Rightarrow> h e | Inr y \<Rightarrow> f y)"
  by (cases x) simp_all

lemma preserves_case_prod [preserves_intros]:
  "(\<And>a b. preserves I (f a b)) \<Longrightarrow> preserves I (case x of (a, b) \<Rightarrow> f a b)"
  by (cases x) simp_all

text \<open>
  Invariants that see the trace as well: a program confined to the events \<open>A\<close>
  that leaves the task variables alone preserves every invariant closed under
  those events and under changes of the environment.
\<close>

lemma preserves_within:
  assumes "emits A m" and "frames m"
    and closed: "\<And>s w evs. I s \<Longrightarrow> list_all A evs \<Longrightarrow> I (s\<lparr>world := w, trace := trace s @ evs\<rparr>)"
  shows "preserves I m"
  unfolding preserves_def
proof (intro allI impI)
  fix s
  assume "I s"
  obtain r t where m: "m s = (r, t)" by fastforce
  from safeD [OF assms(1) m] obtain evs where tr: "trace t = trace s @ evs" and "list_all A evs"
    by (metis run_within)
  with closed [OF \<open>I s\<close>] have "I (s\<lparr>world := world t, trace := trace s @ evs\<rparr>)" by blast
  moreover have "s\<lparr>world := world t, trace := trace s @ evs\<rparr> = t"
    using framesD [OF assms(2) m] tr by (cases s; cases t) simp
  ultimately show "I (snd (m s))" by (simp add: m)
qed

end
