(* ===== verification/Submission_Safety.thy ===== *)
theory Submission_Safety
  imports Submission Trace_Monitor
begin

text \<open>
  Safety of the submission component: which transactions may leave the miner
  and when, in every environment.
\<close>

subsection \<open>Silent reads\<close>

lemma silent_decode_value [silent_intros]: "silent (decode_value v)"
  by (cases v) (simp_all add: silent_intros)

lemma silent_decode_storage_opt [silent_intros]: "silent (decode_storage_opt v)"
  by (cases v) (simp_all add: decode_storage_opt_def silent_intros)

lemma silent_storage_at [silent_intros]: "silent (storage_at api b)"
  by (cases b) (simp_all add: storage_at_def silent_intros)

lemma silent_storage_at_head [silent_intros]: "silent (storage_at_head api)"
  by (simp add: storage_at_head_def get_latest_finalized_head_def silent_intros)

lemma silent_wait_tx [silent_intros]: "silent (wait_tx_in_finalized_block api tx)"
  by (simp add: wait_tx_in_finalized_block_def silent_intros)

lemma silent_blocks_remaining [silent_intros]: "silent (get_signed_phase_blocks_remaining p)"
  by (cases p) (simp_all add: get_signed_phase_blocks_remaining_def silent_intros)

lemma silent_dynamic_tx [silent_intros]: "silent (dynamic_tx api k c)"
  by (simp add: dynamic_tx_def silent_intros split: option.split)

lemma silent_next_ready [silent_intros]: "silent (next_ready api n)"
  by (simp add: silent_def next_ready_def split: prod.split)

subsection \<open>Rules for the shared steps, for any monitor\<close>

lemma safe_next_ready:
  "(\<And>i. i < Suc n \<Longrightarrow> Q i g) \<Longrightarrow> E g \<Longrightarrow> safe d (next_ready api (Suc n)) Q E g"
  by (auto simp: safe_def next_ready_def split: prod.split intro!: exI [of _ "[]"])

lemmas safe_silent_steps [safe_intros] =
  safe_silent [OF silent_storage_at] safe_silent [OF silent_storage_at_head]
  safe_silent [OF silent_decode_storage_opt] safe_silent [OF silent_wait_tx]

lemma safe_blocks_remaining [safe_intros]:
  "(\<And>k. p = Signed k \<Longrightarrow> Q k g) \<Longrightarrow> E g \<Longrightarrow> safe d (get_signed_phase_blocks_remaining p) Q E g"
  by (cases p) (auto simp: get_signed_phase_blocks_remaining_def intro: safe_intros)

lemma safe_dynamic_tx [safe_intros]:
  "Q \<lparr>tx_kind = kind, tx_call = c\<rparr> g \<Longrightarrow> E g \<Longrightarrow> safe d (dynamic_tx api kind c) Q E g"
  by (simp add: dynamic_tx_def safe_intros split: option.split)

lemma safe_send_tx:
  assumes "d g (SentTx x) = Some g'" and "\<And>y. Q y g'" and "E g" and "E g'"
  shows "safe d (send_tx api x) Q E g"
  unfolding send_tx_def
  by (intro safe_intros assms) (simp add: safe_emit_iff assms safe_intros)

lemma safe_submit_inner:
  assumes "\<And>b. d g (SentTx \<lparr>ext_call = tx_call tx, ext_nonce = nonce,
         ext_mortal = Some (ucast (br + 1)), ext_restrict = b\<rparr>) = Some g'"
    and "\<And>y. Q y g'" and "E g" and "E g'"
  shows "safe d (submit_inner api tx nonce br) Q E g"
  unfolding submit_inner_def Let_def with_restrict_origins_def
  by (intro safe_intros assms(3), rule safe_send_tx [where g' = g']) (simp_all add: assms)

lemma safe_read_phase:
  assumes "\<And>p. d g (ReadPhase p) = Some (h p)" and "\<And>p. Q p (h p)" and "E g"
  shows "safe d (read_phase api) Q E g"
  unfolding read_phase_def Let_def
  by (intro safe_intros assms(3)) (simp add: safe_emit_iff assms safe_intros)

lemma safe_bail:
  assumes "\<And>n b. d g (SentTx \<lparr>ext_call = Bail, ext_nonce = n,
         ext_mortal = None, ext_restrict = b\<rparr>) = Some g'"
    and "Q () g'" and "E g" and "E g'"
  shows "safe d (bail api who) Q E g"
  unfolding bail_def with_restrict_origins_def
  by (intro safe_intros assms(3), rule safe_send_tx [where g' = g'])
    (auto simp: assms intro!: safe_intros)

lemma safe_scan_events:
  assumes step: "\<And>p ys g. I ys g \<Longrightarrow> \<exists>g'. d g (PageStored p) = Some g' \<and> I (hs_insert p ys) g'"
    and "I ys g" and Q: "\<And>zs g. I zs g \<Longrightarrow> Q zs g" and E: "\<And>zs g. I zs g \<Longrightarrow> E g"
  shows "safe d (scan_events evs ys) Q E g"
  using assms(2)
proof (induction evs arbitrary: ys g)
  case Nil
  then show ?case by (simp add: safe_ret Q)
next
  case (Cons ev evs)
  from step [OF Cons.prems] Cons.IH Cons.prems show ?case
    by (auto simp: safe_emit_iff split: sum.split chain_event.split option.split
        intro!: safe_intros E; blast)
qed

text \<open>
  Every future is collected once, so the pages recorded as failed are pages
  of the batch.
\<close>

lemma safe_collect_txs:
  assumes step: "\<And>p ys g. I ys g \<Longrightarrow> \<exists>g'. d g (PageStored p) = Some g' \<and> I (hs_insert p ys) g'"
    and "I ys g" and "length txs = n" and "distinct failed" and "set failed \<subseteq> F"
    and "fst ` set txs \<subseteq> F"
    and Q: "\<And>fs zs g. I zs g \<Longrightarrow> distinct fs \<Longrightarrow> set fs \<subseteq> F \<Longrightarrow> Q (fs, zs) g"
    and E: "\<And>zs g. I zs g \<Longrightarrow> E g"
  shows "safe d (collect_txs n api txs failed ys) Q E g"
  using assms(2-6)
proof (induction n arbitrary: txs failed ys g)
  case 0
  then show ?case by (simp add: safe_ret Q)
next
  case (Suc n)
  have pick: "length (take i txs @ drop (Suc i) txs) = n" "txs ! i \<in> set txs"
    "fst ` set (take i txs @ drop (Suc i) txs) \<subseteq> F" if "i < Suc n" for i
    using that Suc.prems by (auto dest!: in_set_takeD in_set_dropD)
  show ?case
    unfolding collect_txs.simps Let_def
    by (intro safe_bind safe_next_ready safe_intros conjI allI E [OF Suc.prems(1)]
        safe_scan_events [where I = I and d = d, OF step] Suc.IH)
      (use Suc.prems pick E in \<open>auto dest: subsetD\<close>)
qed

subsection \<open>Transactions are sent in a signed phase only\<close>

text \<open>
  The monitor remembers the last phase read.  A registration needs a signed
  phase with more than \<open>min_blocks\<close> blocks left; a page needs a signed phase;
  both live for the blocks left and one more.  A bail needs a signed phase
  with too few blocks left.
\<close>

definition phase_guard ::
  "u32 \<Rightarrow> phase option \<Rightarrow> 'sol event \<Rightarrow> phase option option" where
  "phase_guard min_blocks seen ev =
     (case ev of
        ReadPhase p \<Rightarrow> Some (Some p)
      | SentTx x \<Rightarrow>
          (case seen of
             Some (Signed k) \<Rightarrow>
               (case ext_call x of
                  Register _ \<Rightarrow>
                    if min_blocks < k \<and> ext_mortal x = Some (ucast (k + 1)) then Some seen
                    else None
                | SubmitPage _ _ \<Rightarrow>
                    if ext_mortal x = Some (ucast (k + 1)) then Some seen else None
                | Bail \<Rightarrow> if k \<le> min_blocks then Some seen else None
                | _ \<Rightarrow> None)
           | _ \<Rightarrow> None)
      | _ \<Rightarrow> Some seen)"

lemma phase_guard_simps [simp]:
  "phase_guard m g (ReadPhase p) = Some (Some p)"
  "phase_guard m g (PageStored q) = Some g"
  "phase_guard m g ScoreRegistered = Some g"
  "phase_guard m g (Metric c) = Some g"
  "phase_guard m g (Slept n) = Some g"
  by (simp_all add: phase_guard_def)

named_theorems guard_intros \<open>rules for the phase monitor\<close>

lemma guard_read_phase [guard_intros]:
  "(\<And>p. Q p (Some p)) \<Longrightarrow> safe (phase_guard m) (read_phase api) Q (\<lambda>_. True) g"
  by (rule safe_read_phase [where h = Some]) simp_all

lemma guard_emit [guard_intros]:
  "\<forall>x. ev \<noteq> SentTx x \<Longrightarrow> \<forall>p. ev \<noteq> ReadPhase p \<Longrightarrow> Q () g \<Longrightarrow>
   safe (phase_guard m) (emit ev) Q (\<lambda>_. True) g"
  by (cases ev) (simp_all add: safe_emit_iff phase_guard_def)

lemma guard_submit_inner [guard_intros]:
  assumes "\<And>y. Q y (Some (Signed k))"
    and "(\<exists>sc. tx_call tx = Register sc) \<and> m < k \<or> (\<exists>i sol. tx_call tx = SubmitPage i sol)"
  shows "safe (phase_guard m) (submit_inner api tx n k) Q (\<lambda>_. True) (Some (Signed k))"
  by (rule safe_submit_inner [where g' = "Some (Signed k)"])
    (use assms in \<open>auto simp: phase_guard_def\<close>)

lemma guard_validate [guard_intros]:
  assumes "\<And>k. p = Signed k \<Longrightarrow> m < k \<Longrightarrow> Q () (Some (Signed k))"
  shows "safe (phase_guard m) (validate_signed_phase_or_bail api who rnd m p) Q (\<lambda>_. True) (Some p)"
proof (cases p)
  case (Signed k)
  then show ?thesis
    unfolding validate_signed_phase_or_bail_def Signed phase.case
    by (intro safe_intros safe_bail [where g' = "Some p"])
      (use assms Signed in \<open>auto simp: phase_guard_def intro!: safe_intros\<close>)
qed (auto simp: validate_signed_phase_or_bail_def intro: safe_throw)

lemma guard_send_pages [guard_intros]:
  assumes "\<And>x g. Q x g"
  shows "safe (phase_guard m) (send_pages api ps nonce txs) Q (\<lambda>_. True) g"
proof (induction ps arbitrary: nonce txs g)
  case Nil
  then show ?case by (simp add: safe_ret assms)
next
  case (Cons q qs)
  show ?case
    unfolding send_pages.simps submit_page_def
    by (intro safe_intros guard_intros) (auto intro!: guard_submit_inner Cons.IH)
qed

lemma guard_collect_txs [guard_intros]:
  "(\<And>x g. Q x g) \<Longrightarrow>
   safe (phase_guard m) (collect_txs (length txs) api txs [] ys) Q (\<lambda>_. True) g"
  by (rule safe_collect_txs [where I = "\<lambda>_ _. True" and F = "UNIV"]) simp_all

lemma guard_submit_pages_batch [guard_intros]:
  assumes "\<And>x g. Q x g"
  shows "safe (phase_guard m) (submit_pages_batch api who ps rnd m) Q (\<lambda>_. True) g"
  unfolding submit_pages_batch_def Let_def
  by (intro safe_intros guard_intros) (simp_all add: assms)

lemma guard_submit_chunks [guard_intros]:
  assumes "\<And>x g. Q x g"
  shows "safe (phase_guard m) (submit_chunks api who rnd m n cs submitted) Q (\<lambda>_. True) g"
proof (induction cs arbitrary: submitted g)
  case Nil
  then show ?case by (simp add: safe_ret assms)
next
  case (Cons c cs)
  then show ?case
    unfolding submit_chunks.simps Let_def
    by (intro safe_intros guard_intros) (simp_all add: assms)
qed

lemma guard_submit_pages [guard_intros]:
  assumes "\<And>x g. Q x g"
  shows "safe (phase_guard m) (submit_pages api who ps c rnd m) Q (\<lambda>_. True) g"
  unfolding submit_pages_def inner_submit_pages_chunked_def inner_submit_pages_concurrent_def
  by (intro safe_intros guard_intros) (simp_all add: assms)

lemma guard_register_attempt [guard_intros]:
  assumes "m < k" and "\<And>y. Q y (Some (Signed k))"
  shows "safe (phase_guard m) (register_attempt api who sc k) Q (\<lambda>_. True) (Some (Signed k))"
  unfolding register_attempt_def register_score_def
  by (intro safe_intros, rule safe_mono [where Q' = "\<lambda>_ g. g = Some (Signed k)" and E' = "\<lambda>g. g = Some (Signed k)"])
    (use assms in \<open>auto intro!: safe_submit_inner [where g' = "Some (Signed k)"] simp: phase_guard_def\<close>)

lemma guard_register_loop [guard_intros]:
  assumes "m < k" and "\<And>y. Q y (Some (Signed k))"
  shows "safe (phase_guard m) (register_loop n api who sc k) Q (\<lambda>_. True) (Some (Signed k))"
proof (induction n)
  case 0
  then show ?case
    unfolding register_loop.simps by (intro safe_intros guard_intros) (simp_all add: assms)
next
  case (Suc n)
  then show ?case
    unfolding register_loop.simps
    by (intro safe_bind guard_register_attempt assms(1))
      (auto split: sum.split error.split subxt_error.split
        intro!: safe_intros guard_emit assms(2))
qed

lemma guard_submit:
  "safe (phase_guard m) (submit api who paged c rnd m) (\<lambda>_ _. True) (\<lambda>_. True) g"
  unfolding submit_def
  by (intro safe_bind guard_intros safe_blocks_remaining)
    (auto intro!: safe_intros guard_intros)

subsection \<open>The events of a submission\<close>

text \<open>
  What a submission may do at all, with the scores \<open>S\<close> it may register: it
  sends no transaction of another kind.
\<close>

definition submission_event :: "election_score set \<Rightarrow> 'sol event \<Rightarrow> bool" where
  "submission_event S ev =
     (case ev of
        ReadPhase _ \<Rightarrow> True
      | SentTx x \<Rightarrow>
          (case ext_call x of
             Register sc' \<Rightarrow> sc' \<in> S
           | SubmitPage _ _ \<Rightarrow> True
           | Bail \<Rightarrow> True
           | _ \<Rightarrow> False)
      | ScoreRegistered \<Rightarrow> True
      | PageStored _ \<Rightarrow> True
      | Metric SubmissionStarted \<Rightarrow> True
      | Metric SubmissionSuccess \<Rightarrow> True
      | Slept _ \<Rightarrow> True
      | _ \<Rightarrow> False)"

lemma submission_event_simps [simp]:
  "submission_event S (ReadPhase p)" "submission_event S (PageStored q)"
  "submission_event S ScoreRegistered" "submission_event S (Slept n)"
  "submission_event S (Metric SubmissionStarted)" "submission_event S (Metric SubmissionSuccess)"
  by (simp_all add: submission_event_def)

named_theorems emits_intros \<open>confinement of submission programs\<close>

lemma emits_read_phase [emits_intros]:
  "(\<And>p. A (ReadPhase p)) \<Longrightarrow> (\<And>p. Q p ()) \<Longrightarrow> E () \<Longrightarrow> safe (within A) (read_phase api) Q E ()"
  by (rule safe_read_phase [where h = "\<lambda>_. ()"]) (simp_all add: within_def)

lemma emits_bail [emits_intros]:
  "(\<And>x. ext_call x = Bail \<Longrightarrow> A (SentTx x)) \<Longrightarrow> Q () () \<Longrightarrow> E () \<Longrightarrow>
   safe (within A) (bail api who) Q E ()"
  by (rule safe_bail [where g' = "()"]) (simp_all add: within_def)

lemma emits_submit_inner [emits_intros]:
  "(\<And>x. ext_call x = tx_call tx \<Longrightarrow> A (SentTx x)) \<Longrightarrow> (\<And>y. Q y ()) \<Longrightarrow> E () \<Longrightarrow>
   safe (within A) (submit_inner api tx n k) Q E ()"
  by (rule safe_submit_inner [where g' = "()"]) (simp_all add: within_def)

abbreviation within_submission :: "election_score set \<Rightarrow> unit \<Rightarrow> 'sol event \<Rightarrow> unit option" where
  "within_submission S \<equiv> within (submission_event S)"

lemma emits_validate [emits_intros]:
  assumes "Q () ()" and "E ()"
  shows "safe (within_submission S) (validate_signed_phase_or_bail api who rnd m p) Q E ()"
  unfolding validate_signed_phase_or_bail_def
  by (cases p) (auto intro!: safe_intros emits_intros assms simp: submission_event_def)

lemma emits_send_pages [emits_intros]:
  assumes "\<And>x. Q x ()" and "E ()"
  shows "safe (within_submission S) (send_pages api ps nonce txs) Q E ()"
proof (induction ps arbitrary: nonce txs)
  case (Cons q qs)
  then show ?case
    unfolding send_pages.simps submit_page_def
    by (auto intro!: safe_intros emits_intros assms simp: submission_event_def)
qed (simp add: safe_ret assms)

lemma emits_collect_txs [emits_intros]:
  assumes "\<And>x. Q x ()" and "E ()"
  shows "safe (within_submission S) (collect_txs (length txs) api txs [] []) Q E ()"
  by (rule safe_collect_txs [where I = "\<lambda>_ _. True" and F = UNIV]) (simp_all add: assms within_def)

lemma emits_submit_pages_batch [emits_intros]:
  assumes "\<And>x. Q x ()" and "E ()"
  shows "safe (within_submission S) (submit_pages_batch api who ps rnd m) Q E ()"
  unfolding submit_pages_batch_def Let_def
  by (intro safe_intros emits_intros) (simp_all add: assms)

lemma emits_submit_chunks [emits_intros]:
  assumes "\<And>x. Q x ()" and "E ()"
  shows "safe (within_submission S) (submit_chunks api who rnd m n cs submitted) Q E ()"
proof (induction cs arbitrary: submitted)
  case (Cons c cs)
  then show ?case
    unfolding submit_chunks.simps Let_def
    by (intro safe_intros emits_intros) (simp_all add: assms)
qed (simp add: safe_ret assms)

lemma emits_submit_pages [emits_intros]:
  assumes "\<And>x. Q x ()" and "E ()"
  shows "safe (within_submission S) (submit_pages api who ps c rnd m) Q E ()"
  unfolding submit_pages_def inner_submit_pages_chunked_def inner_submit_pages_concurrent_def
  by (intro safe_intros emits_intros) (simp_all add: assms)

lemma emits_register_attempt [emits_intros]:
  assumes "sc \<in> S" and "\<And>x. Q x ()" and "E ()"
  shows "safe (within_submission S) (register_attempt api who sc k) Q E ()"
  unfolding register_attempt_def register_score_def
  by (intro safe_intros emits_intros) (simp_all add: assms submission_event_def)

lemma emits_register_loop [emits_intros]:
  assumes "sc \<in> S" and "\<And>x. Q x ()" and "E ()"
  shows "safe (within_submission S) (register_loop n api who sc k) Q E ()"
proof (induction n)
  case 0
  then show ?case
    unfolding register_loop.simps by (intro safe_intros emits_intros) (simp_all add: assms)
next
  case (Suc n)
  then show ?case
    unfolding register_loop.simps
    by (intro safe_bind emits_intros)
      (auto split: sum.split error.split subxt_error.split intro!: safe_intros assms)
qed

lemma emits_submit:
  "emits (submission_event {score paged}) (submit api who paged c rnd m)"
  unfolding submit_def by (intro safe_intros emits_intros) simp_all

subsection \<open>Task variables\<close>

lemma frames_decode_value [frames_intros]: "frames (decode_value v)"
  by (cases v) (simp_all add: frames_intros)

lemma frames_decode_storage_opt [frames_intros]: "frames (decode_storage_opt v)"
  unfolding decode_storage_opt_def by (intro frames_intros)

lemma frames_storage_at [frames_intros]: "frames (storage_at api b)"
  unfolding storage_at_def by (intro frames_intros)

lemma frames_storage_at_head [frames_intros]: "frames (storage_at_head api)"
  unfolding storage_at_head_def get_latest_finalized_head_def by (intro frames_intros)

lemma frames_wait_tx [frames_intros]: "frames (wait_tx_in_finalized_block api tx)"
  unfolding wait_tx_in_finalized_block_def by (intro frames_intros)

lemma frames_send_tx [frames_intros]: "frames (send_tx api x)"
  unfolding send_tx_def by (intro frames_intros)

lemma frames_dynamic_tx [frames_intros]: "frames (dynamic_tx api k c)"
  unfolding dynamic_tx_def by (intro frames_intros)

lemma frames_submit_inner [frames_intros]: "frames (submit_inner api tx n br)"
  unfolding submit_inner_def Let_def by (intro frames_intros)

lemma frames_bail [frames_intros]: "frames (bail api who)"
  unfolding bail_def by (intro frames_intros)

lemma frames_read_phase [frames_intros]: "frames (read_phase api)"
  unfolding read_phase_def Let_def by (intro frames_intros)

lemma frames_blocks_remaining [frames_intros]: "frames (get_signed_phase_blocks_remaining p)"
  by (cases p) (simp_all add: get_signed_phase_blocks_remaining_def frames_intros)

lemma frames_validate [frames_intros]: "frames (validate_signed_phase_or_bail api who rnd m p)"
  by (cases p) (auto simp: validate_signed_phase_or_bail_def intro!: frames_intros)

lemma frames_send_pages [frames_intros]: "frames (send_pages api ps n txs)"
  by (induction ps arbitrary: n txs) (auto simp: submit_page_def intro!: frames_intros)

lemma frames_scan_events [frames_intros]: "frames (scan_events evs ys)"
  by (induction evs arbitrary: ys)
    (auto split: sum.split chain_event.split option.split intro!: frames_intros)

lemma frames_next_ready [frames_intros]: "frames (next_ready api n)"
  by (simp add: frames_def next_ready_def split: prod.split)

lemma frames_collect_txs [frames_intros]: "frames (collect_txs n api txs failed ys)"
  by (induction n arbitrary: txs failed ys) (auto simp: Let_def intro!: frames_intros)

lemma frames_submit_pages_batch [frames_intros]: "frames (submit_pages_batch api who ps rnd m)"
  unfolding submit_pages_batch_def Let_def by (intro frames_intros)

lemma frames_submit_chunks [frames_intros]: "frames (submit_chunks api who rnd m n cs ys)"
  by (induction cs arbitrary: ys) (auto simp: Let_def intro!: frames_intros)

lemma frames_submit_pages [frames_intros]: "frames (submit_pages api who ps c rnd m)"
  unfolding submit_pages_def inner_submit_pages_concurrent_def inner_submit_pages_chunked_def
  by (intro frames_intros)

lemma frames_register_attempt [frames_intros]: "frames (register_attempt api who sc k)"
  unfolding register_attempt_def register_score_def by (intro frames_intros)

lemma frames_register_loop [frames_intros]: "frames (register_loop n api who sc k)"
  by (induction n)
    (auto split: sum.split error.split subxt_error.split intro!: frames_intros)

lemma frames_submit [frames_intros]: "frames (submit api who paged c rnd m)"
  unfolding submit_def by (intro frames_intros)

end
