(* ===== verification/Submission_Ledger.thy ===== *)
theory Submission_Ledger
  imports Submission_Safety
begin

text \<open>
  What \<open>submit\<close> reports is what the chain has stored.  A monitor keeps the
  ledger of one submission: the score registrations sent, whether the score is
  registered, the pages whose storage the chain confirmed, and whether success
  was reported.  The strategies that attempt every page of a batch share one
  contract, from which the body of \<open>submit\<close> is verified once.
\<close>

subsection \<open>The ledger of one submission\<close>

record ledger =
  registrations :: nat
  registered :: bool
  stored :: "u32 set"
  reported :: bool

definition new_ledger :: ledger where
  "new_ledger = \<lparr>registrations = 0, registered = False, stored = {}, reported = False\<rparr>"

text \<open>
  At most ten registrations, all with the solution's score and none after one
  was confirmed; page \<open>p\<close> is sent only once the score is registered, and it
  carries the \<open>p\<close>-th page of the solution; success is reported once, when
  every page is confirmed, and no transaction follows it.
\<close>

definition ledger_step ::
  "'sol paged_raw_solution \<Rightarrow> ledger \<Rightarrow> 'sol event \<Rightarrow> ledger option" where
  "ledger_step paged g ev =
     (case ev of
        SentTx x \<Rightarrow>
          if reported g then None
          else (case ext_call x of
             Register sc \<Rightarrow>
               if sc = score paged \<and> \<not> registered g \<and> registrations g < 10
               then Some (g\<lparr>registrations := Suc (registrations g)\<rparr>) else None
           | SubmitPage p sol \<Rightarrow>
               if registered g \<and> unat p < length (solution_pages paged) \<and>
                  sol = Some (solution_pages paged ! unat p)
               then Some g else None
           | Bail \<Rightarrow> Some g
           | _ \<Rightarrow> None)
      | ScoreRegistered \<Rightarrow>
          if 0 < registrations g \<and> \<not> registered g then Some (g\<lparr>registered := True\<rparr>) else None
      | PageStored p \<Rightarrow>
          if registered g then Some (g\<lparr>stored := insert p (stored g)\<rparr>) else None
      | Metric SubmissionSuccess \<Rightarrow>
          if registered g \<and> \<not> reported g \<and>
             (\<forall>i < length (solution_pages paged). word_of_nat i \<in> stored g)
          then Some (g\<lparr>reported := True\<rparr>) else None
      | _ \<Rightarrow> Some g)"

lemma ledger_step_simps [simp]:
  "ledger_step paged g (ReadPhase p) = Some g"
  "ledger_step paged g (Slept n) = Some g"
  "ledger_step paged g (Metric SubmissionStarted) = Some g"
  "registered g \<Longrightarrow> ledger_step paged g (PageStored q) = Some (g\<lparr>stored := insert q (stored g)\<rparr>)"
  by (simp_all add: ledger_step_def)

named_theorems ledger_intros \<open>rules for the ledger monitor\<close>

text \<open>States between registration and the report of success.\<close>

definition open_ledger :: "ledger \<Rightarrow> bool" where
  "open_ledger g \<longleftrightarrow> registered g \<and> \<not> reported g"

text \<open>A batch of numbered pages of the solution.\<close>

definition pages_of :: "'sol paged_raw_solution \<Rightarrow> (u32 \<times> 'sol) list \<Rightarrow> bool" where
  "pages_of paged ps \<longleftrightarrow>
     (\<forall>(p, sol) \<in> set ps. unat p < length (solution_pages paged) \<and>
        sol = solution_pages paged ! unat p)"

lemma ledger_read_phase [ledger_intros]:
  "(\<And>p. Q p g) \<Longrightarrow> safe (ledger_step paged) (read_phase api) Q (\<lambda>_. True) g"
  by (rule safe_read_phase [where h = "\<lambda>_. g"]) simp_all

lemma ledger_validate [ledger_intros]:
  assumes "\<not> reported g" and "\<And>k. p = Signed k \<Longrightarrow> Q () g"
  shows "safe (ledger_step paged) (validate_signed_phase_or_bail api who rnd m p) Q (\<lambda>_. True) g"
  using assms
  by (cases p) (auto simp: validate_signed_phase_or_bail_def ledger_step_def
      intro!: safe_intros safe_bail [where g' = g])

lemma ledger_send_pages [ledger_intros]:
  assumes "open_ledger g"
    and "pages_of paged ps"
    and "\<And>zs. map fst zs = map fst txs @ map fst ps \<Longrightarrow> Q zs g"
  shows "safe (ledger_step paged) (send_pages api ps nonce txs) Q (\<lambda>_. True) g"
  using assms(2,3)
proof (induction ps arbitrary: nonce txs)
  case Nil
  then show ?case by (simp add: safe_ret)
next
  case (Cons q qs)
  then show ?case
    unfolding send_pages.simps submit_page_def
    by (intro safe_intros ledger_read_phase safe_submit_inner [where g' = g] Cons.IH)
      (use assms(1) in \<open>auto simp: pages_of_def open_ledger_def ledger_step_def\<close>)
qed

text \<open>
  One batch: the pages it does not report as failed are confirmed, and it
  reports only pages of the batch, each once.
\<close>

lemma ledger_submit_pages_batch [ledger_intros]:
  assumes "hash_order_ok api" and "open_ledger g"
    and "pages_of paged ps"
    and Q: "\<And>res X. distinct (failed_pages res) \<Longrightarrow> set (failed_pages res) \<subseteq> fst ` set ps \<Longrightarrow>
      fst ` set ps - set (failed_pages res) \<subseteq> X \<Longrightarrow> stored g \<subseteq> X \<Longrightarrow> Q res (g\<lparr>stored := X\<rparr>)"
  shows "safe (ledger_step paged) (submit_pages_batch api who ps rnd m) Q (\<lambda>_. True) g"
proof -
  let ?I = "\<lambda>ys g'. \<exists>X. g' = g\<lparr>stored := X\<rparr> \<and> set ys \<union> stored g \<subseteq> X"
  have step: "\<exists>h'. ledger_step paged h (PageStored p) = Some h' \<and> ?I (hs_insert p ys) h'"
    if "?I ys h" for h p ys
  proof -
    from that obtain X where "h = g\<lparr>stored := X\<rparr>" "set ys \<union> stored g \<subseteq> X" by blast
    with assms(2) show ?thesis
      by (auto simp: open_ledger_def intro!: exI [of _ "insert p X"])
  qed
  have start: "?I [] g" by (auto intro: exI [of _ "stored g"])
  have txs: "fst ` set zs \<subseteq> fst ` set ps" if "map fst zs = map fst [] @ map fst ps" for zs
    using that by (metis append_Nil list.simps(8) list.set_map order_refl)
  show ?thesis
    unfolding submit_pages_batch_def Let_def
    by (intro safe_intros ledger_intros assms(2,3)
        safe_collect_txs [where I = ?I and F = "fst ` set ps", OF step start _ _ _ txs],
        use assms(2) in \<open>auto simp: open_ledger_def hash_order_set hash_order_distinct assms(1)
          intro!: safe_ret Q\<close>) force+
qed

subsection \<open>Complete strategies\<close>

text \<open>
  The contract of a strategy that attempts every page of the batch it is
  given: an empty result confirms them all, and otherwise the pages left out
  of the result are confirmed.  \<open>fits\<close> bounds the size of the batches for
  which the strategy promises it.
\<close>

locale complete_strategy =
  fixes strategy :: "('w, 'sol) chain_api \<Rightarrow> account_id \<Rightarrow> (u32 \<times> 'sol) list \<Rightarrow> u32 \<Rightarrow> u32 \<Rightarrow>
      ('w, 'sol event, 'm, u32 list) prog"
    and fits :: "nat \<Rightarrow> bool"
  assumes fits_mono: "fits n \<Longrightarrow> k \<le> n \<Longrightarrow> fits k"
    and complete: "hash_order_ok api \<Longrightarrow> fits (length ps) \<Longrightarrow> open_ledger g \<Longrightarrow>
      pages_of paged ps \<Longrightarrow>
      (\<And>failed X. distinct failed \<Longrightarrow> set failed \<subseteq> fst ` set ps \<Longrightarrow>
         fst ` set ps - set failed \<subseteq> X \<Longrightarrow> stored g \<subseteq> X \<Longrightarrow> Q failed (g\<lparr>stored := X\<rparr>)) \<Longrightarrow>
      safe (ledger_step paged) (strategy api who ps rnd m) Q (\<lambda>_. True) g"

lemma concurrent_complete:
  assumes "hash_order_ok api" and "open_ledger g"
    and "pages_of paged ps"
    and "\<And>failed X. distinct failed \<Longrightarrow> set failed \<subseteq> fst ` set ps \<Longrightarrow>
         fst ` set ps - set failed \<subseteq> X \<Longrightarrow> stored g \<subseteq> X \<Longrightarrow> Q failed (g\<lparr>stored := X\<rparr>)"
  shows "safe (ledger_step paged) (inner_submit_pages_concurrent api who ps rnd m) Q (\<lambda>_. True) g"
  unfolding inner_submit_pages_concurrent_def all_successful_def
  by (intro safe_intros ledger_submit_pages_batch assms(1-3)) (auto intro!: assms(4))

lemma chunked_complete:
  assumes "hash_order_ok api" and "0 < c" and "length ps \<le> c" and "open_ledger g"
    and "pages_of paged ps"
    and "\<And>failed X. distinct failed \<Longrightarrow> set failed \<subseteq> fst ` set ps \<Longrightarrow>
         fst ` set ps - set failed \<subseteq> X \<Longrightarrow> stored g \<subseteq> X \<Longrightarrow> Q failed (g\<lparr>stored := X\<rparr>)"
  shows "safe (ledger_step paged) (inner_submit_pages_chunked api who ps c rnd m) Q (\<lambda>_. True) g"
proof (cases "ps = []")
  case True
  with assms(2) assms(6) [of "[]" "stored g"] show ?thesis
    by (simp add: inner_submit_pages_chunked_def safe_ret)
next
  case False
  with assms(2,3) show ?thesis
    unfolding inner_submit_pages_chunked_def all_successful_def
    by (simp add: chunks_single all_successful_def Let_def)
      (intro safe_intros ledger_intros assms(1,4,5);
        use assms(4) in \<open>auto simp: open_ledger_def Let_def intro!: safe_ret assms(6)\<close>)
qed

interpretation concurrent: complete_strategy inner_submit_pages_concurrent "\<lambda>_. True"
  by unfold_locales (simp_all add: concurrent_complete)

interpretation chunked: complete_strategy
  "\<lambda>api who ps. inner_submit_pages_chunked api who ps c" "\<lambda>n. 0 < c \<and> n \<le> c" for c
  by unfold_locales (auto intro: chunked_complete)

subsection \<open>Submitting a solution\<close>

lemma ledger_register_attempt:
  assumes "\<not> registered g" and "\<not> reported g" and "registrations g < 10"
    and "\<And>r. Q r (g\<lparr>registrations := Suc (registrations g)\<rparr>)" and "\<And>e. Q (Inl e) g"
  shows "safe (ledger_step paged) (register_attempt api who (score paged) k) Q (\<lambda>_. True) g"
  unfolding register_attempt_def register_score_def
  by (intro safe_intros safe_submit_inner [where g' = "g\<lparr>registrations := Suc (registrations g)\<rparr>"])
    (use assms in \<open>auto simp: ledger_step_def\<close>)

text \<open>A loop with \<open>n\<close> retries left sends at most \<open>n + 1\<close> registrations.\<close>

lemma ledger_register_loop [ledger_intros]:
  assumes "\<not> registered g" and "\<not> reported g" and "registrations g + n < 10"
    and "\<And>y j. 0 < j \<Longrightarrow> Q y (g\<lparr>registrations := j\<rparr>)"
  shows "safe (ledger_step paged) (register_loop n api who (score paged) k) Q (\<lambda>_. True) g"
  using assms
proof (induction n arbitrary: g)
  case 0
  then show ?case
    unfolding register_loop.simps
    by (intro safe_bind ledger_register_attempt safe_result) auto
next
  case (Suc n)
  then show ?case
    unfolding register_loop.simps
    by (intro safe_bind ledger_register_attempt)
      (auto split: sum.split error.split subxt_error.split simp: safe_emit_iff intro!: safe_intros)
qed

lemma take_pages_distinct:
  assumes "distinct ps" and "\<forall>p \<in> set ps. unat p < length sols"
  shows "take_pages d sols ps = Some (map (\<lambda>p. (p, sols ! unat p)) ps)"
  using assms
proof (induction ps arbitrary: sols)
  case (Cons p ps)
  have "sols[unat p := d] ! unat q = sols ! unat q" if "q \<in> set ps" for q
    using that Cons.prems by (metis distinct.simps(2) nth_list_update_neq unsigned_word_eqI)
  with Cons show ?case by simp
qed simp

lemma enumerated_pages:
  assumes "length (solution_pages paged) \<le> 2 ^ 32"
  shows "pages_of paged (enumerate_u32 (solution_pages paged))"
    and "fst ` set (enumerate_u32 (solution_pages paged)) =
      word_of_nat ` {..< length (solution_pages paged)}"
proof -
  show "pages_of paged (enumerate_u32 (solution_pages paged))"
    using assms
    by (auto simp: pages_of_def enumerate_u32_def in_set_enumerate_eq unat_u32)
  have "fst ` set (enumerate_u32 (solution_pages paged)) =
      set (map word_of_nat [0 ..< length (solution_pages paged)])"
    by (metis map_fst_enumerate_u32 list.set_map)
  then show "fst ` set (enumerate_u32 (solution_pages paged)) =
      word_of_nat ` {..< length (solution_pages paged)}"
    by (simp add: atLeast0LessThan)
qed

lemma retried_pages:
  assumes "distinct failed" and "set failed \<subseteq> word_of_nat ` {..< length (solution_pages paged)}"
    and n: "length (solution_pages paged) \<le> 2 ^ 32"
    and "take_pages d (solution_pages paged) failed = Some ps"
  shows "length ps \<le> length (solution_pages paged)" and "pages_of paged ps"
    and "fst ` set ps = set failed"
proof -
  have in_range: "\<forall>p \<in> set failed. unat p < length (solution_pages paged)"
    using assms(2) n by (auto simp: unat_u32)
  with assms(1,4) have ps: "ps = map (\<lambda>p. (p, solution_pages paged ! unat p)) failed"
    by (simp add: take_pages_distinct)
  show "pages_of paged ps" and "fst ` set ps = set failed"
    using in_range by (auto simp: ps pages_of_def image_image)
  have "card (set failed) \<le> length (solution_pages paged)"
    by (rule order_trans [OF card_mono [OF _ assms(2)]])
      (simp_all add: order_trans [OF card_image_le])
  with assms(1) show "length ps \<le> length (solution_pages paged)"
    by (simp add: ps distinct_card)
qed

lemma ledger_emits [ledger_intros]:
  "Q () g \<Longrightarrow> safe (ledger_step paged) (emit (Metric SubmissionStarted)) Q E g"
  "0 < registrations g \<Longrightarrow> \<not> registered g \<Longrightarrow> Q () (g\<lparr>registered := True\<rparr>) \<Longrightarrow>
     safe (ledger_step paged) (emit ScoreRegistered) Q E g"
  "open_ledger g \<Longrightarrow> \<forall>i < length (solution_pages paged). word_of_nat i \<in> stored g \<Longrightarrow>
     Q () (g\<lparr>reported := True\<rparr>) \<Longrightarrow>
     safe (ledger_step paged) (emit (Metric SubmissionSuccess)) Q E g"
  by (auto simp: safe_emit_iff ledger_step_def open_ledger_def)

context complete_strategy
begin

lemma ledger_submit:
  assumes "hash_order_ok api" and "fits (length (solution_pages paged))"
    and "length (solution_pages paged) \<le> 2 ^ 32"
    and strategy: "\<And>ps. submit_pages api who ps c rnd m = strategy api who ps rnd m"
  shows "safe (ledger_step paged) (submit api who paged c rnd m :: ('w, 'sol event, 'm, unit) prog)
    (\<lambda>_. reported) (\<lambda>_. True) new_ledger"
proof -
  have all: "length (enumerate_u32 (solution_pages paged)) = length (solution_pages paged)"
    by (simp add: enumerate_u32_def)
  have covered: "word_of_nat i \<in> Y"
    if "fst ` set ps \<subseteq> Y" "fst ` set ps = set failed" "i < length (solution_pages paged)"
      "word_of_nat ` {..< length (solution_pages paged)} - set failed \<subseteq> X" "X \<subseteq> Y"
    for i X Y failed and ps :: "(u32 \<times> 'sol) list"
    using that by blast
  note enumerated = enumerated_pages [OF assms(3)] and retried = retried_pages [OF _ _ assms(3)]
  show ?thesis
    unfolding submit_def strategy
    by (intro safe_bind ledger_intros safe_blocks_remaining safe_silent_steps safe_await safe_if safe_throw safe_case_option safe_panic
       safe_ret complete [OF assms(1)])
      (auto simp: new_ledger_def open_ledger_def all enumerated assms(2)
        dest: retried intro: fits_mono [OF assms(2)] covered retried(3))
qed

end

lemma ledger_submit_complete:
  assumes "hash_order_ok api" and "length (solution_pages paged) \<le> 2 ^ 32"
    and "c = 0 \<or> length (solution_pages paged) \<le> c"
  shows "safe (ledger_step paged) (submit api who paged c rnd m) (\<lambda>_. reported) (\<lambda>_. True) new_ledger"
proof (cases "c = 0")
  case True
  then show ?thesis
    by (intro concurrent.ledger_submit assms) (simp_all add: submit_pages_def)
next
  case False
  with assms(3) show ?thesis
    by (intro chunked.ledger_submit [where c = c] assms) (simp_all add: submit_pages_def)
qed

end
