(* ===== verification/Test_Node.thy ===== *)
theory Test_Node
  imports Submission
begin

text \<open>
  A small node to run the miner against, used by the concrete instances of
  the theorems.  Its world is the list of calls it has accepted; it stays in
  one phase, confirms every registration, and confirms every page except those
  of the transactions whose position is in \<open>lost\<close>.
\<close>

type_synonym test_world = "nat runtime_call list"

definition test_block :: at_block where
  "test_block = \<lparr>ab_hash = 7, ab_number = 40, ab_spec_version = 1\<rparr>"

definition test_account :: account_id where
  "test_account = AccountId [1, 2, 3]"

definition test_voters :: "u32 \<Rightarrow> voter_page" where
  "test_voters p = [(test_account, ucast p, [test_account])]"

definition test_voter_hash :: "voter_page \<Rightarrow> hash" where
  "test_voter_hash pg = (case pg of (a, stake, ts) # _ \<Rightarrow> ucast stake | [] \<Rightarrow> 0)"

definition test_events :: "nat list \<Rightarrow> test_world \<Rightarrow> nat \<Rightarrow> (subxt_error + chain_event) list" where
  "test_events lost w i =
     (if i < length w \<and> i \<notin> set lost then
        (case w ! i of
           Register _ \<Rightarrow> [Inr EvOther, Inr EvRegistered]
         | SubmitPage p _ \<Rightarrow> [Inr (EvStored (Some p))]
         | _ \<Rightarrow> [])
      else [])"

definition test_node :: "nat list \<Rightarrow> phase \<Rightarrow> submission_metadata option \<Rightarrow>
    (test_world, nat) chain_api" where
  "test_node lost ph sub =
     \<lparr>api_at_current_block = \<lambda>w. (Ok test_block, w),
      api_at_block = \<lambda>h w. (Ok test_block, w),
      api_try_phase = \<lambda>b w. (Ok (Some (Decodes ph)), w),
      api_phase = \<lambda>b w. (Ok (Decodes ph), w),
      api_round = \<lambda>b w. (Ok (Decodes 1), w),
      api_submission = \<lambda>b r who w. (Ok (map_option Decodes sub), w),
      api_sorted_scores = \<lambda>b r w. (Ok (Decodes []), w),
      api_minimum_score = \<lambda>b w. (Ok None, w),
      api_desired_targets = \<lambda>b r w. (Ok (Some (Decodes 4)), w),
      api_voter_snapshot = \<lambda>b r p w. (Ok (Some (RawValue (test_voters p))), w),
      api_voter_snapshot_hash = \<lambda>b r p w. (Ok (Some (RawValue (test_voter_hash (test_voters p)))), w),
      api_target_snapshot = \<lambda>b r p w. (Ok (Some (RawValue [test_account])), w),
      api_target_snapshot_hash = \<lambda>b r p w. (Ok (Some (RawValue 5)), w),
      api_account = \<lambda>b who w. (Ok (Some (Decodes \<lparr>free = 100\<rparr>)), w),
      api_nonce = \<lambda>who w. (Ok (word_of_nat (length w)), w),
      api_restrict_origins = \<lambda>b. False,
      api_create_signed = \<lambda>x w. (Ok (), w),
      api_submit_and_watch = \<lambda>x w. (Ok (length w), w @ [ext_call x]),
      api_wait_finalized = \<lambda>tx w. (Ok tx, w),
      api_wait_success = \<lambda>tx w. (Ok (test_events lost w tx), w),
      api_next_ready = \<lambda>n w. (n - 1, w),
      api_hash_order = rev,
      api_debug_phase = \<lambda>p. ''phase'',
      api_encode_error = \<lambda>c. None,
      api_default_solution = 0\<rparr>"

lemma test_node_hash_order [simp]: "hash_order_ok (test_node lost ph sub)"
  by (simp add: hash_order_ok_def test_node_def)

definition test_start :: "(test_world, nat event) sys" where
  "test_start = \<lparr>world = [], trace = []\<rparr>"

definition test_solution :: "nat paged_raw_solution" where
  "test_solution =
     \<lparr>score = \<lparr>minimal_stake = 5, sum_stake = 20, sum_stake_squared = 100\<rparr>,
      round = 1, solution_pages = [10, 11]\<rparr>"

lemmas [run_defs] = test_block_def test_node_def test_account_def test_start_def test_solution_def
  test_events_def test_voters_def test_voter_hash_def

end
