(* ===== verification/Submission_Properties.thy ===== *)
theory Submission_Properties
  imports Submission_Ledger Test_Node
begin

text \<open>
  The properties of the submission component, with concrete runs against the
  test node.
\<close>

subsection \<open>The order of a batch\<close>

text \<open>
  The transactions of a batch: the pages in order, each with its solution, with
  consecutive nonces.  The monitor state is what is left to send and the nonce
  of the next transaction.
\<close>

fun batch_order ::
  "(u32 \<times> 'sol) list \<times> u64 \<Rightarrow> 'sol event \<Rightarrow> ((u32 \<times> 'sol) list \<times> u64) option" where
  "batch_order ((p, sol) # rest, n) (SentTx x) =
     (if ext_call x = SubmitPage p (Some sol) \<and> ext_nonce x = n then Some (rest, n + 1) else None)"
| "batch_order ([], n) (SentTx x) = None"
| "batch_order st (ReadPhase p) = Some st"
| "batch_order st _ = None"

text \<open>A node that leaves the signed phase once it holds \<open>n\<close> transactions.\<close>

definition leaving_node :: "nat \<Rightarrow> (test_world, nat) chain_api" where
  "leaving_node n = (test_node [] (Signed 10) None)
     \<lparr>api_try_phase := \<lambda>b w. (Ok (Some (Decodes (if length w < n then Signed 10 else Off))), w)\<rparr>"

lemma order_send_pages:
  assumes "\<And>zs. Q zs ([], n + word_of_nat (length ps))"
  shows "safe batch_order (send_pages api ps n txs) Q (\<lambda>_. True) (ps, n)"
  using assms
proof (induction ps arbitrary: n txs)
  case Nil
  then show ?case by (simp add: safe_ret)
next
  case (Cons q qs)
  obtain p sol where q: "q = (p, sol)" by fastforce
  show ?case
    unfolding send_pages.simps submit_page_def
    by (intro safe_intros safe_read_phase [where h = "\<lambda>_. (q # qs, n)"]
        safe_submit_inner [where g' = "(qs, n + 1)"] Cons.IH)
      (use Cons.prems in \<open>auto simp: q algebra_simps\<close>)
qed

subsection \<open>Success means stored\<close>

text \<open>C1. With the concurrent strategy, or a chunk size that holds the whole
  solution, every run of \<open>submit\<close> against any node follows the ledger: at most
  ten registrations, all with the solution's score; page \<open>p\<close> is sent only
  after the registration is confirmed and carries the \<open>p\<close>-th page; success is
  reported at most once and only when the chain confirmed every page; and when
  \<open>submit\<close> returns \<open>Ok\<close>, success was reported.\<close>

theorem submit_reports_stored:
  assumes "hash_order_ok api" and "length (solution_pages paged) \<le> 2 ^ 32"
    and "c = 0 \<or> length (solution_pages paged) \<le> c"
    and "submit api who paged c rnd m s = (r, t)"
  shows "\<exists>evs g. trace t = trace s @ evs \<and>
    run_monitor (ledger_step paged) new_ledger evs = Some g \<and> (is_ok r \<longrightarrow> reported g)"
  using safe_run [OF ledger_submit_complete [OF assms(1-3)] assms(4)]
  by (cases r) auto

theorem submit_reports_stored_witness:
  "\<exists>evs g. trace (snd (submit (test_node [1] (Signed 10) None) test_account test_solution 0 1 3 test_start))
      = [] @ evs \<and> run_monitor (ledger_step test_solution) new_ledger evs = Some g \<and> reported g"
proof -
  obtain r t where run: "submit (test_node [1] (Signed 10) None) test_account test_solution 0 1 3 test_start = (r, t)"
    by fastforce
  have "is_ok (fst (submit (test_node [1] (Signed 10) None) test_account test_solution 0 1 3 test_start))"
    by (simp add: run_defs io_defs)
  with submit_reports_stored [OF _ _ _ run] run show ?thesis
    by (simp add: test_solution_def test_start_def)
qed

subsection \<open>Transactions only in the signed phase\<close>

text \<open>C4. In every run of \<open>submit\<close> against any node, with either strategy, a
  transaction is sent only when the last phase read was signed: registrations
  with more than the minimum of blocks left and a mortality of the blocks left
  plus one, pages with that mortality, and a bail only when too few blocks are
  left.\<close>

theorem submit_phase_safe:
  "\<exists>evs. trace (snd (submit api who paged c rnd m s)) = trace s @ evs \<and>
     run_monitor (phase_guard m) None evs \<noteq> None"
proof -
  obtain r t where "submit api who paged c rnd m s = (r, t)" by fastforce
  from safe_run [OF guard_submit this] this show ?thesis by auto
qed

text \<open>C34. The submission loop of a batch sends the pages in order with
  consecutive nonces, starting with the one it was given, and nothing else; when
  it returns, every page has been sent.\<close>

theorem send_pages_in_order:
  assumes "send_pages api ps n txs s = (r, t)"
  shows "\<exists>evs st. trace t = trace s @ evs \<and> run_monitor batch_order (ps, n) evs = Some st \<and>
    (is_ok r \<longrightarrow> st = ([], n + word_of_nat (length ps)))"
  using safe_run [OF order_send_pages [where Q = "\<lambda>_ st. st = ([], n + word_of_nat (length ps))"] assms]
  by (auto simp: is_ok_iff)

theorem send_pages_in_order_witness:
  "\<exists>evs. trace (snd (send_pages (test_node [] (Signed 10) None) [(0, 5), (1, 6)] 3 [] test_start)) = evs \<and>
     run_monitor batch_order ([(0, 5), (1, 6)], 3) evs = Some ([], 5)"
proof -
  let ?run = "send_pages (test_node [] (Signed 10) None) [(0, 5), (1, 6)] 3 [] test_start"
  have "is_ok (fst ?run)" by (simp add: run_defs io_defs)
  with send_pages_in_order [of "test_node [] (Signed 10) None" "[(0, 5), (1, 6)]" 3 "[]" test_start "fst ?run" "snd ?run"]
  show ?thesis by (simp add: test_start_def)
qed

subsection \<open>Phase validation\<close>

lemma not_ok_bind_throw: "\<not> is_ok (fst (io_bind m (\<lambda>x. throw e) s))"
  by (auto simp: io_bind_def throw_def split: prod.split outcome.split)

lemma not_ok_bind: "(\<And>x t. \<not> is_ok (fst (f x t))) \<Longrightarrow> \<not> is_ok (fst (io_bind m f s))"
  by (auto simp: io_bind_def split: prod.split outcome.split)

text \<open>Phase validation succeeds exactly when the phase is signed with more
  than the minimum of blocks left, and then it does nothing; in every other case
  it returns an error, whatever the node answers.\<close>

theorem validate_ok_iff:
  "is_ok (fst (validate_signed_phase_or_bail api who rnd m p s)) = (\<exists>k. p = Signed k \<and> m < k) \<and>
   (validate_signed_phase_or_bail api who rnd m p s = (Ok (), s)) = (\<exists>k. p = Signed k \<and> m < k)"
proof (cases "\<exists>k. p = Signed k \<and> m < k")
  case True
  then show ?thesis by (auto simp: validate_signed_phase_or_bail_def ret_def)
next
  case False
  have "\<not> is_ok (fst (validate_signed_phase_or_bail api who rnd m p s))"
    using False unfolding validate_signed_phase_or_bail_def
    by (cases p) (auto simp: throw_def intro!: not_ok_bind)
  with False show ?thesis by auto
qed

subsection \<open>Two defects\<close>

text \<open>With chunks of one page, a first chunk that fails and then succeeds on the
  retry makes \<open>submit\<close> report success although the second page was never sent.\<close>

theorem chunked_success_without_pages:
  "let (r, t) = submit (test_node [1] (Signed 10) None) test_account test_solution 1 1 3 test_start
   in r = Ok () \<and> Metric SubmissionSuccess \<in> set (trace t) \<and> PageStored 1 \<notin> set (trace t) \<and>
      world t = [Register (score test_solution), SubmitPage 0 (Some 10), SubmitPage 0 (Some 10)]"
  by (simp add: run_defs io_defs chunks.simps)

text \<open>A phase that ends between the validation of a batch and the sending of its
  second page panics the submission.\<close>

theorem submit_panics_on_phase_change:
  "fst (submit (leaving_node 2) test_account test_solution 0 1 3 test_start) =
     Panic ''get_signed_phase_blocks_remaining called but not in SignedPhase''"
  by (simp add: leaving_node_def run_defs io_defs)

end
