(* ===== verification/Decimal.thy ===== *)
theory Decimal
  imports Miner_Prelude
begin

text \<open>
  Decimal text: printing of unsigned integers, Rust's \<open>u32::from_str\<close>,
  \<open>str::trim\<close> and \<open>strip_prefix\<close> on ASCII strings, and the formatting of
  balances (\<open>planck_to_token\<close> of \<open>src/src/utils.rs\<close>).
\<close>

subsection \<open>Digits\<close>

definition digit_char :: "nat \<Rightarrow> char" where
  "digit_char k = char_of (48 + k)"

definition to_digit :: "char \<Rightarrow> nat option" where
  "to_digit c = (let n = of_char c in if 48 \<le> n \<and> n < (58 :: nat) then Some (n - 48) else None)"

fun show_nat :: "nat \<Rightarrow> string" where
  "show_nat n = (if n < 10 then [digit_char n] else show_nat (n div 10) @ [digit_char (n mod 10)])"

declare show_nat.simps [simp del]

text \<open>The number that a string of digits denotes.\<close>

definition dec_step :: "nat \<Rightarrow> char \<Rightarrow> nat" where
  "dec_step a c = a * 10 + (case to_digit c of Some d \<Rightarrow> d | None \<Rightarrow> 0)"

definition read_dec :: "string \<Rightarrow> nat" where
  "read_dec cs = foldl dec_step 0 cs"

definition all_digits :: "string \<Rightarrow> bool" where
  "all_digits cs = list_all (\<lambda>c. to_digit c \<noteq> None) cs"

subsection \<open>Parsing \<open>u32\<close>\<close>

definition checked_mul :: "'l::len word \<Rightarrow> 'l word \<Rightarrow> 'l word option" where
  "checked_mul a b = (if unat a * unat b < 2 ^ LENGTH('l) then Some (a * b) else None)"

definition checked_add :: "'l::len word \<Rightarrow> 'l word \<Rightarrow> 'l word option" where
  "checked_add a b = (if unat a + unat b < 2 ^ LENGTH('l) then Some (a + b) else None)"

datatype int_error_kind = Empty | InvalidDigit | PosOverflow

primrec parse_u32_digits :: "u32 \<Rightarrow> string \<Rightarrow> int_error_kind + u32" where
  "parse_u32_digits acc [] = Inr acc"
| "parse_u32_digits acc (c # cs) =
     (case to_digit c of
        None \<Rightarrow> Inl InvalidDigit
      | Some d \<Rightarrow>
          (case checked_mul acc 10 of
             None \<Rightarrow> Inl PosOverflow
           | Some m \<Rightarrow>
               (case checked_add m (word_of_nat d) of
                  None \<Rightarrow> Inl PosOverflow
                | Some r \<Rightarrow> parse_u32_digits r cs)))"

definition parse_u32 :: "string \<Rightarrow> int_error_kind + u32" where
  "parse_u32 s =
     (case s of
        [] \<Rightarrow> Inl Empty
      | c # cs \<Rightarrow>
          if cs = [] \<and> (c = CHR ''+'' \<or> c = CHR ''-'') then Inl InvalidDigit
          else if c = CHR ''+'' then parse_u32_digits 0 cs
          else parse_u32_digits 0 s)"

text \<open>\<open>format!("{e:?}")\<close> of a \<open>ParseIntError\<close>.\<close>

definition debug_parse_int_error :: "int_error_kind \<Rightarrow> string" where
  "debug_parse_int_error k =
     ''ParseIntError { kind: '' @
     (case k of Empty \<Rightarrow> ''Empty'' | InvalidDigit \<Rightarrow> ''InvalidDigit'' | PosOverflow \<Rightarrow> ''PosOverflow'')
     @ '' }''"

subsection \<open>Trimming and prefixes\<close>

definition is_space :: "char \<Rightarrow> bool" where
  "is_space c = (let n = (of_char c :: nat) in n = 32 \<or> 9 \<le> n \<and> n \<le> 13)"

definition trim_end :: "(char \<Rightarrow> bool) \<Rightarrow> string \<Rightarrow> string" where
  "trim_end p s = rev (dropWhile p (rev s))"

definition trim :: "string \<Rightarrow> string" where
  "trim s = trim_end is_space (dropWhile is_space s)"

definition strip_prefix :: "string \<Rightarrow> string \<Rightarrow> string option" where
  "strip_prefix p s = (if take (length p) s = p then Some (drop (length p) s) else None)"

subsection \<open>Balances\<close>

text \<open>\<open>format!("{:0>width$}", ...)\<close>.\<close>

definition pad_left :: "nat \<Rightarrow> string \<Rightarrow> string" where
  "pad_left width s = replicate (width - length s) (CHR ''0'') @ s"

text \<open>
  The power of ten wraps at 128 bits, as in a release build; a divisor of zero
  (from \<open>decimals \<ge> 128\<close>) is a panic.
\<close>

definition planck_amount :: "u128 \<Rightarrow> u8 \<Rightarrow> string option" where
  "planck_amount planck decimals =
     (let divisor = 10 ^ unat decimals in
      if divisor = 0 then None
      else
        let whole = planck div divisor; remainder = planck mod divisor in
        Some
          (if remainder = 0 then show_nat (unat whole)
           else
             let remainder_str = pad_left (unat decimals) (show_nat (unat remainder));
                 remainder_trimmed = trim_end (\<lambda>c. c = CHR ''0'') remainder_str in
             if remainder_trimmed = [] then show_nat (unat whole)
             else show_nat (unat whole) @ ''.'' @ remainder_trimmed))"

definition planck_to_token :: "u128 \<Rightarrow> u8 \<Rightarrow> string \<Rightarrow> string option" where
  "planck_to_token planck decimals symbol =
     map_option (\<lambda>amount_str. amount_str @ '' '' @ symbol) (planck_amount planck decimals)"

definition planck_to_token_u64 :: "u64 \<Rightarrow> u8 \<Rightarrow> string \<Rightarrow> string option" where
  "planck_to_token_u64 planck decimals symbol = planck_to_token (ucast planck) decimals symbol"

text \<open>
  Reading an amount back: the digits before the point, and those after it
  filled up with zeros to \<open>d\<close> places.
\<close>

definition read_amount :: "nat \<Rightarrow> string \<Rightarrow> nat" where
  "read_amount d s =
     (let whole = takeWhile (\<lambda>c. c \<noteq> CHR ''.'') s;
          frac = drop (Suc (length whole)) s in
      read_dec whole * 10 ^ d + read_dec (frac @ replicate (d - length frac) (CHR ''0'')))"

subsection \<open>Printing and reading\<close>

lemma to_digit_digit_char [simp]: "k < 10 \<Longrightarrow> to_digit (digit_char k) = Some k"
  by (simp add: to_digit_def digit_char_def Let_def)

lemma dec_step_digit_char [simp]: "k < 10 \<Longrightarrow> dec_step a (digit_char k) = a * 10 + k"
  by (simp add: dec_step_def)

lemma digit_chars:
  "digit_char 0 = CHR ''0''" "digit_char 1 = CHR ''1''" "digit_char 2 = CHR ''2''"
  "digit_char 3 = CHR ''3''" "digit_char 4 = CHR ''4''" "digit_char 5 = CHR ''5''"
  "digit_char 6 = CHR ''6''" "digit_char 7 = CHR ''7''" "digit_char 8 = CHR ''8''"
  "digit_char 9 = CHR ''9''"
  by code_simp+

lemma digit_char_neq [simp]:
  "k < 10 \<Longrightarrow> digit_char k \<noteq> CHR ''.''" "k < 10 \<Longrightarrow> digit_char k \<noteq> CHR ''+''"
  "k < 10 \<Longrightarrow> digit_char k \<noteq> CHR ''-''"
  by (auto dest!: arg_cong [where f = to_digit]) (simp_all add: to_digit_def Let_def)

lemma show_nat_not_Nil [simp]: "show_nat n \<noteq> []"
  by (simp add: show_nat.simps [of n])

lemma all_digits_show_nat [simp]: "all_digits (show_nat n)"
  by (induction n rule: show_nat.induct) (simp add: show_nat.simps all_digits_def)

lemma read_show_nat [simp]: "read_dec (show_nat n) = n"
proof (induction n rule: show_nat.induct)
  case (1 n)
  then show ?case by (cases "n < 10") (simp_all add: show_nat.simps [of n] read_dec_def)
qed

lemma length_show_nat: "n < 10 ^ d \<Longrightarrow> 0 < d \<Longrightarrow> length (show_nat n) \<le> d"
proof (induction n arbitrary: d rule: show_nat.induct)
  case (1 n)
  show ?case
  proof (cases "n < 10")
    case False
    with "1.prems" obtain d' where d: "d = Suc d'" "0 < d'"
      by (cases d; cases "d - 1") auto
    with "1.prems" have "n div 10 < 10 ^ d'"
      by (simp add: less_mult_imp_div_less mult.commute)
    with "1.IH" [OF False _ d(2)] False d show ?thesis
      by (simp add: show_nat.simps [of n])
  qed (use "1.prems" in \<open>simp add: show_nat.simps [of n]\<close>)
qed

lemma read_dec_zeros [simp]: "read_dec (replicate k (CHR ''0'') @ cs) = read_dec cs"
  unfolding read_dec_def by (induction k) (simp_all add: dec_step_def to_digit_def)

lemma read_dec_only_zeros [simp]: "read_dec (replicate k (CHR ''0'')) = 0"
  using read_dec_zeros [of k "[]"] by (simp add: read_dec_def)

lemma foldl_dec_step: "foldl dec_step a cs = a * 10 ^ length cs + read_dec cs"
proof (induction cs rule: rev_induct)
  case (snoc c cs)
  then show ?case by (simp add: read_dec_def dec_step_def algebra_simps)
qed (simp add: read_dec_def)

lemma trim_end_snoc: "trim_end p (s @ [c]) = (if p c then trim_end p s else s @ [c])"
  by (simp add: trim_end_def)

lemma trim_end_length: "length (trim_end p s) \<le> length s"
  by (simp add: trim_end_def length_dropWhile_le [of p "rev s", simplified])

lemma trim_end_zeros_pad:
  "trim_end (\<lambda>c. c = z) s @ replicate (length s - length (trim_end (\<lambda>c. c = z) s)) z = s"
proof (induction s rule: rev_induct)
  case (snoc c s)
  let ?t = "trim_end (\<lambda>c. c = z) s"
  have "?t @ replicate (Suc (length s) - length ?t) z = (?t @ replicate (length s - length ?t) z) @ [z]"
    by (simp add: Suc_diff_le trim_end_length replicate_append_same)
  with snoc show ?case by (simp add: trim_end_snoc)
qed (simp add: trim_end_def)

subsection \<open>Parsing\<close>

lemma parse_u32_digits_ok:
  "parse_u32_digits acc cs = Inr n \<longleftrightarrow> all_digits cs \<and> foldl dec_step (unat acc) cs = unat n"
proof (induction cs arbitrary: acc)
  case Nil
  then show ?case by (auto simp: all_digits_def intro: unsigned_word_eqI)
next
  case (Cons c cs)
  have mono: "a \<le> foldl dec_step a cs" for a
    by (simp add: foldl_dec_step trans_le_add1)
  show ?case
  proof (cases "to_digit c")
    case (Some d)
    then have d: "d < 10" by (auto simp: to_digit_def Let_def split: if_splits)
    have n: "unat n < 2 ^ 32" using unsigned_less [of n] by simp
    have step: "dec_step (unat acc) c = unat acc * 10 + d" by (simp add: dec_step_def Some)
    show ?thesis
    proof (cases "unat acc * 10 + d < 2 ^ 32")
      case True
      with d have "unat (acc * 10) = unat acc * 10" "unat (acc * 10 + word_of_nat d) = unat acc * 10 + d"
        "unat (word_of_nat d :: u32) = d"
        by (simp_all add: unat_word_ariths unsigned_of_nat take_bit_nat_eq_self)
      with True Some d show ?thesis
        by (simp add: checked_mul_def checked_add_def Cons.IH all_digits_def dec_step_def)
    next
      case False
      then have "\<not> foldl dec_step (unat acc * 10 + d) cs = unat n"
        using mono [of "unat acc * 10 + d"] n by linarith
      moreover have "unat acc * 10 < 2 ^ 32 \<Longrightarrow> unat (acc * 10) = unat acc * 10"
        and "unat (word_of_nat d :: u32) = d"
        using d by (simp_all add: unat_word_ariths unsigned_of_nat take_bit_nat_eq_self)
      ultimately show ?thesis
        using False step by (auto simp: checked_mul_def checked_add_def Some)
    qed
  qed (simp add: all_digits_def)
qed

lemma plus_not_digit: "all_digits (CHR ''+'' # cs) = False" "all_digits (CHR ''-'' # cs) = False"
  by (simp_all add: all_digits_def to_digit_def Let_def)

text \<open>\<open>u32::from_str\<close> accepts exactly the non-empty digit strings, with an
  optional plus sign, whose value fits 32 bits, and returns that value.\<close>

lemma parse_u32_iff:
  "(parse_u32 s = Inr n) =
   (\<exists>cs. cs \<noteq> [] \<and> all_digits cs \<and> (s = cs \<or> s = CHR ''+'' # cs) \<and> read_dec cs = unat n)"
proof (cases s)
  case (Cons c cs)
  show ?thesis
    unfolding parse_u32_def Cons
    by (auto simp: parse_u32_digits_ok plus_not_digit read_dec_def simp del: parse_u32_digits.simps)
qed (simp add: parse_u32_def)

subsection \<open>Balances\<close>

lemma unat_power_ten: "d \<le> 38 \<Longrightarrow> unat ((10 :: u128) ^ d) = 10 ^ d"
proof -
  assume "d \<le> 38"
  then have "(10 :: nat) ^ d \<le> 10 ^ 38" by (intro power_increasing) simp_all
  then have "(10 :: nat) ^ d < 2 ^ 128" by simp
  then show ?thesis
    using unat_word_of_nat [where 'l = 128, of "10 ^ d"] by simp
qed

lemma trim_end_pad_left:
  assumes "r < 10 ^ d"
  defines "f \<equiv> trim_end (\<lambda>c. c = CHR ''0'') (pad_left d (show_nat r))"
  shows "read_dec (f @ replicate (d - length f) (CHR ''0'')) = r"
proof (cases "d = 0")
  case True
  with assms(1) have "r = 0" by simp
  with True have "pad_left d (show_nat r) = ''0''"
    by (simp add: pad_left_def show_nat.simps [of 0] digit_chars)
  with True \<open>r = 0\<close> show ?thesis by (simp add: f_def trim_end_def read_dec_def)
next
  case False
  with assms(1) have "length (pad_left d (show_nat r)) = d"
    by (simp add: pad_left_def length_show_nat)
  then have "f @ replicate (d - length f) (CHR ''0'') = pad_left d (show_nat r)"
    using trim_end_zeros_pad [of "CHR ''0''" "pad_left d (show_nat r)"] unfolding f_def by simp
  then show ?thesis
    by (simp add: pad_left_def)
qed

lemma no_point_show_nat [simp]: "c \<in> set (show_nat n) \<Longrightarrow> c \<noteq> CHR ''.''"
  using all_digits_show_nat [of n] by (auto simp: all_digits_def list_all_iff to_digit_def)

lemma read_amount_whole: "read_amount d (show_nat n) = n * 10 ^ d"
proof -
  have whole: "takeWhile (\<lambda>c. c \<noteq> CHR ''.'') (show_nat n) = show_nat n"
    by (rule takeWhile_eq_all_conv [THEN iffD2]) simp
  show ?thesis unfolding read_amount_def Let_def whole by simp
qed

lemma read_amount_fraction:
  "read_amount d (show_nat n @ ''.'' @ f) =
     n * 10 ^ d + read_dec (f @ replicate (d - length f) (CHR ''0''))"
proof -
  have "takeWhile (\<lambda>c. c \<noteq> CHR ''.'') (show_nat n @ ''.'' @ f) = show_nat n"
    by (subst takeWhile_append2) simp_all
  then show ?thesis by (simp add: read_amount_def Let_def)
qed

text \<open>C30. Up to 38 decimals a printed balance reads back to the exact number of
  plancks: the text before the symbol loses no digit.\<close>

theorem planck_to_token_exact:
  assumes "unat decimals \<le> 38"
  shows "\<exists>amount. planck_to_token planck decimals symbol = Some (amount @ '' '' @ symbol) \<and>
    read_amount (unat decimals) amount = unat planck"
proof -
  let ?d = "unat decimals"
  let ?D = "(10 :: u128) ^ ?d"
  note D = unat_power_ten [OF assms]
  then have nz: "?D \<noteq> 0" by (metis power_not_zero unat_0 zero_neq_numeral)
  have split: "unat planck = unat (planck div ?D) * 10 ^ ?d + unat (planck mod ?D)"
    by (simp only: unat_div_distrib unat_mod_distrib D div_mult_mod_eq)
  have "unat (planck mod ?D) < 10 ^ ?d" by (simp add: unat_mod_distrib D)
  note frac = trim_end_pad_left [OF this]
  have "\<exists>amount. planck_amount planck decimals = Some amount \<and>
      read_amount ?d amount = unat planck"
  proof (cases "planck mod ?D = 0")
    case True
    then show ?thesis
      using split nz by (simp add: planck_amount_def Let_def read_amount_whole)
  next
    case False
    show ?thesis
      using False split nz frac read_amount_whole
      by (auto simp: planck_amount_def Let_def read_amount_fraction [simplified])
  qed
  then show ?thesis by (auto simp: planck_to_token_def)
qed

theorem planck_to_token_exact_witness:
  "unat (10 :: u8) \<le> 38 \<and> planck_to_token 12345000000000 10 ''DOT'' = Some ''1234.5 DOT''"
proof -
  from planck_to_token_exact [of 10 12345000000000 "''DOT''"]
  have "\<exists>amount. planck_to_token 12345000000000 10 ''DOT'' = Some (amount @ '' '' @ ''DOT'') \<and>
    read_amount 10 amount = 12345000000000" by simp
  then show ?thesis
    by (simp add: planck_to_token_def planck_amount_def show_nat.simps digit_chars
        digit_chars(2) [unfolded One_nat_def] Let_def
        pad_left_def trim_end_def)
qed

end
