(* ===== verification/Client.thy ===== *)
theory Client
  imports Decimal Errors Trace_Monitor
begin

text \<open>
  The shared RPC client of \<open>src/src/client.rs\<close>: parsing the endpoint list,
  connecting with failover, and the runtime reconnect that swaps the client for
  all tasks.  The reconnect is given twice: as the sequential program one task
  runs, and as the interleaving of the steps of several tasks over the shared
  fields, where the write lock and the generation counter matter.
\<close>

subsection \<open>Endpoints\<close>

fun split_on :: "char \<Rightarrow> string \<Rightarrow> string list" where
  "split_on d [] = [[]]"
| "split_on d (c # cs) =
     (if c = d then [] # split_on d cs
      else (case split_on d cs of p # ps \<Rightarrow> (c # p) # ps | [] \<Rightarrow> [[c]]))"

definition parse_endpoints :: "string \<Rightarrow> string list" where
  "parse_endpoints uris =
     filter (\<lambda>s. s \<noteq> []) (List.map trim (split_on (CHR '','') uris))"

subsection \<open>Connecting\<close>

datatype client_event = ConnectionTimeout | EndpointSwitch | RetrySleep nat

text \<open>
  The connection future for an endpoint and a backend: the RPC client builder
  and the backend of \<open>subxt\<close>.
\<close>

type_synonym ('w, 'c) connector = "string \<Rightarrow> bool \<Rightarrow> 'w \<Rightarrow> (error, 'c) outcome \<times> 'w"

definition try_connect ::
  "(client_event \<Rightarrow> 'v) \<Rightarrow> ('w, 'c) connector \<Rightarrow> string \<Rightarrow> bool \<Rightarrow> ('w, 'v, 'm, 'c) prog" where
  "try_connect ev connect uri use_legacy =
     io_bind (io_timeout (call (connect uri use_legacy))) (\<lambda>r.
     case r of
       Some res \<Rightarrow> io_result res
     | None \<Rightarrow> io_seq (emit (ev ConnectionTimeout))
                  (throw (Timeout (InitialConnectionTimeout 30 0 3))))"

text \<open>The attempts at one endpoint; the argument counts the retries left.\<close>

primrec try_endpoint ::
  "(client_event \<Rightarrow> 'v) \<Rightarrow> ('w, 'c) connector \<Rightarrow> string \<Rightarrow> bool \<Rightarrow> nat \<Rightarrow>
     ('w, 'v, 'm, error + 'c) prog" where
  "try_endpoint ev connect uri use_legacy 0 = io_try (try_connect ev connect uri use_legacy)"
| "try_endpoint ev connect uri use_legacy (Suc n) =
     io_bind (io_try (try_connect ev connect uri use_legacy)) (\<lambda>r.
     case r of
       Inr client \<Rightarrow> ret (Inr client)
     | Inl _ \<Rightarrow> io_seq (emit (ev (RetrySleep 5000))) (try_endpoint ev connect uri use_legacy n))"

primrec try_endpoints ::
  "(client_event \<Rightarrow> 'v) \<Rightarrow> ('w, 'c) connector \<Rightarrow> string list \<Rightarrow> bool \<Rightarrow> nat \<Rightarrow> nat list \<Rightarrow> error option \<Rightarrow>
     ('w, 'v, 'm, 'c \<times> nat) prog" where
  "try_endpoints ev connect endpoints use_legacy retries [] last_error =
     throw (case last_error of Some e \<Rightarrow> e | None \<Rightarrow> OtherError ''No endpoints available'')"
| "try_endpoints ev connect endpoints use_legacy retries (idx # rest) last_error =
     io_bind (try_endpoint ev connect (endpoints ! idx) use_legacy retries) (\<lambda>r.
     case r of
       Inr client \<Rightarrow> ret (client, idx)
     | Inl e \<Rightarrow> try_endpoints ev connect endpoints use_legacy retries rest (Some e))"

definition rotation :: "nat \<Rightarrow> nat \<Rightarrow> nat list" where
  "rotation start_index n = List.map (\<lambda>i. (start_index + i) mod n) [0 ..< n]"

definition connect_with_failover ::
  "(client_event \<Rightarrow> 'v) \<Rightarrow> ('w, 'c) connector \<Rightarrow> string list \<Rightarrow> nat \<Rightarrow> bool \<Rightarrow>
     ('w, 'v, 'm, 'c \<times> nat) prog" where
  "connect_with_failover ev connect endpoints start_index use_legacy =
     (let n = length endpoints;
          max_attempts = (if n > 1 then 1 else 3 :: nat) in
      try_endpoints ev connect endpoints use_legacy (max_attempts - 1) (rotation start_index n) None)"

subsection \<open>The shared client\<close>

record 'c client =
  chain_api :: 'c
  endpoints :: "string list"
  current_endpoint_index :: nat
  reconnect_generation :: u64

definition client_new ::
  "(client_event \<Rightarrow> 'v) \<Rightarrow> ('w, 'c) connector \<Rightarrow> string \<Rightarrow> bool \<Rightarrow> ('w, 'v, 'm, 'c client) prog" where
  "client_new ev connect uris use_legacy =
     (let eps = parse_endpoints uris in
      if eps = [] then throw (OtherError ''No RPC endpoints provided'')
      else
        io_bind (connect_with_failover ev connect eps 0 use_legacy) (\<lambda>(client, connected_index).
        ret \<lparr>chain_api = client, endpoints = eps, current_endpoint_index = connected_index,
             reconnect_generation = 0\<rparr>))"

text \<open>A world that holds the shared client next to everything else.\<close>

record ('w, 'c) client_world =
  shared :: "'c client"
  outside :: 'w

definition get_client :: "(('w, 'c) client_world, 'v, 'm, 'c client) prog" where
  "get_client = io_get (\<lambda>s. shared (world s))"

definition put_client :: "'c client \<Rightarrow> (('w, 'c) client_world, 'v, 'm, unit) prog" where
  "put_client c = io_modify (\<lambda>s. s\<lparr>world := (world s)\<lparr>shared := c\<rparr>\<rparr>)"

text \<open>
  The client sits behind a lock.  \<open>chain_api()\<close> returns a read guard that
  lives until it is dropped; a task keeps count of the guards it holds.  The
  write lock is granted once no guard is left, so that a task that still holds
  one waits for itself.
\<close>

record ('w, 'v) client_sys = "('w, 'v) sys" +
  held_guards :: nat

type_synonym ('w, 'c, 'v, 'm, 'a) client_prog =
  "((('w, 'c) client_world, 'v, 'm) client_sys_scheme, error, 'a) io"

definition read_guard :: "('w, 'c, 'v, 'm, unit) client_prog" where
  "read_guard = io_modify (\<lambda>s. s\<lparr>held_guards := held_guards s + 1\<rparr>)"

definition drop_guard :: "('w, 'c, 'v, 'm, unit) client_prog" where
  "drop_guard = io_modify (\<lambda>s. s\<lparr>held_guards := held_guards s - 1\<rparr>)"

definition write_guard :: "('w, 'c, 'v, 'm, unit) client_prog" where
  "write_guard = (\<lambda>s. (if held_guards s = 0 then Ok () else Pending, s))"

definition reconnect ::
  "(client_event \<Rightarrow> 'v) \<Rightarrow> (('w, 'c) client_world, 'c) connector \<Rightarrow> ('w, 'c, 'v, 'm, unit) client_prog" where
  "reconnect ev connect =
     io_bind get_client (\<lambda>before.
     io_bind (connect_with_failover ev connect (endpoints before)
       ((current_endpoint_index before + 1) mod length (endpoints before)) False)
       (\<lambda>(new_client, connected_idx).
     io_seq write_guard
    (io_bind get_client (\<lambda>now.
     if reconnect_generation now \<noteq> reconnect_generation before then ret ()
     else
       io_seq (put_client (now\<lparr>chain_api := new_client, current_endpoint_index := connected_idx,
                               reconnect_generation := reconnect_generation now + 1\<rparr>))
              (emit (ev EndpointSwitch))))))"

definition current_endpoint :: "'c client \<Rightarrow> string" where
  "current_endpoint c = endpoints c ! current_endpoint_index c"

subsection \<open>Failover\<close>

text \<open>
  An environment in which the reachable endpoints do not change: \<open>up\<close> gives
  the client of a reachable one, and every other attempt fails or hangs.
\<close>

definition reachable :: "('w, 'c) connector \<Rightarrow> (string \<Rightarrow> 'c option) \<Rightarrow> bool" where
  "reachable connect up \<longleftrightarrow>
     (\<forall>uri legacy w.
        (case up uri of
           Some c \<Rightarrow> fst (connect uri legacy w) = Ok c
         | None \<Rightarrow> (\<exists>e. fst (connect uri legacy w) = Err e) \<or> fst (connect uri legacy w) = Pending))"

lemma try_connect_reachable:
  assumes "reachable connect up"
  shows "up uri = Some c \<Longrightarrow> fst (try_connect ev connect uri legacy s) = Ok c"
    and "up uri = None \<Longrightarrow> \<exists>e. fst (try_connect ev connect uri legacy s) = Err e"
proof -
  obtain r w where run: "connect uri legacy (world s) = (r, w)" by fastforce
  from assms have *: "case up uri of Some c \<Rightarrow> r = Ok c | None \<Rightarrow> (\<exists>e. r = Err e) \<or> r = Pending"
    unfolding reachable_def by (metis run fst_conv)
  show "up uri = Some c \<Longrightarrow> fst (try_connect ev connect uri legacy s) = Ok c"
    using * run by (simp add: try_connect_def io_defs)
  show "up uri = None \<Longrightarrow> \<exists>e. fst (try_connect ev connect uri legacy s) = Err e"
    using * run by (auto simp: try_connect_def io_defs)
qed

lemma try_endpoint_reachable:
  assumes "reachable connect up"
  shows "case up uri of
      Some c \<Rightarrow> fst (try_endpoint ev connect uri legacy n s) = Ok (Inr c)
    | None \<Rightarrow> \<exists>e. fst (try_endpoint ev connect uri legacy n s) = Ok (Inl e)"
proof (induction n arbitrary: s)
  case 0
  obtain r t where "try_connect ev connect uri legacy s = (r, t)" by fastforce
  then show ?case
    using try_connect_reachable [OF assms, where uri = uri and ev = ev and legacy = legacy and s = s]
    by (auto simp: io_try_def split: option.split)
next
  case (Suc n)
  obtain r t where run: "try_connect ev connect uri legacy s = (r, t)" by fastforce
  then show ?case
    using try_connect_reachable [OF assms, where uri = uri and ev = ev and legacy = legacy and s = s] Suc.IH
    by (auto simp: io_try_def io_bind_def emit_def ret_def split: option.split)
qed

lemma try_endpoints_reachable:
  assumes "reachable connect up"
  shows "case find (\<lambda>i. up (eps ! i) \<noteq> None) idxs of
      Some idx \<Rightarrow> fst (try_endpoints ev connect eps legacy n idxs err s) = Ok (the (up (eps ! idx)), idx)
    | None \<Rightarrow> \<exists>e. fst (try_endpoints ev connect eps legacy n idxs err s) = Err e"
proof (induction idxs arbitrary: err s)
  case Nil
  then show ?case by (simp add: throw_def)
next
  case (Cons idx idxs)
  obtain r t where "try_endpoint ev connect (eps ! idx) legacy n s = (r, t)" by fastforce
  then show ?case
    using try_endpoint_reachable [OF assms, where uri = "eps ! idx" and ev = ev and legacy = legacy
        and n = n and s = s] Cons.IH
    by (auto simp: io_bind_def ret_def split: option.splits)
qed

lemma set_rotation: "set (rotation k n) = {..< n}"
proof (cases "n = 0")
  case False
  have "i \<in> (\<lambda>i. (k + i) mod n) ` {0 ..< n}" if "i < n" for i
  proof (rule image_eqI [where x = "(i + n * k - k) mod n"])
    have "k \<le> n * k" using False by simp
    then have "k + (i + n * k - k) = i + n * k" by linarith
    then show "i = (k + (i + n * k - k) mod n) mod n"
      using that by (simp only: mod_add_right_eq) simp
    show "(i + n * k - k) mod n \<in> {0 ..< n}" using False by simp
  qed
  then show ?thesis using False by (auto simp: rotation_def)
qed (simp add: rotation_def)

lemma distinct_rotation: "distinct (rotation k n)"
  by (rule card_distinct) (simp add: set_rotation, simp add: rotation_def)

lemma last_rotation: "c < n \<Longrightarrow> last (rotation (Suc c mod n) n) = c"
proof -
  assume "c < n"
  then obtain m where n: "n = Suc m" by (cases n) auto
  have "(Suc c + m) mod n = (c + n) mod n" by (simp add: n)
  also have "\<dots> = c" using \<open>c < n\<close> by simp
  finally show ?thesis by (simp add: rotation_def n last_map mod_simps)
qed

lemma find_rotation:
  "find (\<lambda>i. P (eps ! i)) (rotation k (length eps)) = None \<longleftrightarrow> (\<forall>uri \<in> set eps. \<not> P uri)"
  by (fastforce simp: find_None_iff set_rotation in_set_conv_nth)

lemma connect_with_failover_reachable:
  assumes "reachable connect up"
  shows "case find (\<lambda>i. up (eps ! i) \<noteq> None) (rotation k (length eps)) of
      Some idx \<Rightarrow> fst (connect_with_failover ev connect eps k legacy s) = Ok (the (up (eps ! idx)), idx)
    | None \<Rightarrow> \<exists>e. fst (connect_with_failover ev connect eps k legacy s) = Err e"
  unfolding connect_with_failover_def Let_def by (rule try_endpoints_reachable [OF assms])

text \<open>C25. When the set of reachable endpoints does not change, failover connects
  to the first reachable endpoint in round-robin order and fails only if none is
  reachable.  A runtime reconnect tries every endpoint, none twice, and the one
  in use last.\<close>

theorem failover_finds_first:
  assumes "reachable connect up"
  shows "(case find (\<lambda>i. up (eps ! i) \<noteq> None) (rotation k (length eps)) of
      Some idx \<Rightarrow> fst (connect_with_failover ev connect eps k legacy s) = Ok (the (up (eps ! idx)), idx)
    | None \<Rightarrow> (\<forall>uri \<in> set eps. up uri = None) \<and>
        (\<exists>e. fst (connect_with_failover ev connect eps k legacy s) = Err e)) \<and>
    distinct (rotation k (length eps)) \<and> set (rotation k (length eps)) = {..< length eps} \<and>
    (c < length eps \<longrightarrow> last (rotation ((c + 1) mod length eps) (length eps)) = c)"
  using connect_with_failover_reachable [OF assms, where eps = eps and k = k and ev = ev
      and legacy = legacy and s = s] find_rotation [where P = "\<lambda>uri. up uri \<noteq> None" and eps = eps and k = k]
  by (auto simp: distinct_rotation set_rotation last_rotation split: option.splits)

theorem failover_finds_first_witness:
  "case find (\<lambda>i. (if [''a'', ''b'', ''c''] ! i = ''b'' then Some (7 :: nat) else None) \<noteq> None)
      (rotation 2 (length [''a'', ''b'', ''c''])) of
    Some idx \<Rightarrow>
      fst (connect_with_failover id
        (\<lambda>uri legacy w. if uri = ''b'' then (Ok (7 :: nat), ()) else if uri = ''a'' then (Pending, ())
           else (Err (OtherError ''refused''), ()))
        [''a'', ''b'', ''c''] 2 False \<lparr>world = (), trace = []\<rparr>) = Ok (7, idx) \<and> idx = 1
  | None \<Rightarrow> False"
proof -
  let ?up = "\<lambda>uri. if uri = ''b'' then Some (7 :: nat) else None"
  let ?connect = "\<lambda>uri (legacy :: bool) (w :: unit).
    if uri = ''b'' then (Ok (7 :: nat), ()) else if uri = ''a'' then (Pending, ())
    else (Err (OtherError ''refused''), ())"
  have "reachable ?connect ?up" by (simp add: reachable_def)
  note failover_finds_first [OF this, where eps = "[''a'', ''b'', ''c'']" and k = 2 and ev = id
      and legacy = False and s = "\<lparr>world = (), trace = []\<rparr>"]
  then show ?thesis by (simp add: rotation_def upt_rec)
qed

subsection \<open>The endpoint list\<close>

lemma split_on_absent: "d \<notin> set p \<Longrightarrow> split_on d p = [p]"
  by (induction p) auto

lemma split_on_append: "d \<notin> set p \<Longrightarrow> split_on d (p @ d # r) = p # split_on d r"
  by (induction p) auto

lemma split_on_parts: "p \<in> set (split_on d s) \<Longrightarrow> d \<notin> set p"
proof (induction s arbitrary: p)
  case (Cons c s)
  then show ?case by (cases "split_on d s") (auto split: if_splits)
qed simp

lemma trim_unpadded:
  assumes "e \<noteq> []" "\<not> is_space (hd e)" "\<not> is_space (last e)" "list_all is_space a" "list_all is_space b"
  shows "trim (a @ e @ b) = e"
proof -
  have "dropWhile is_space (a @ e @ b) = e @ b"
    using assms by (cases e) (auto simp: dropWhile_append2 list_all_iff)
  moreover have "dropWhile is_space (rev b @ rev e) = dropWhile is_space (rev e)"
    using assms by (intro dropWhile_append2) (simp add: list_all_iff)
  moreover have "dropWhile is_space (rev e) = rev e"
    using assms by (cases e rule: rev_cases) simp_all
  ultimately show ?thesis by (simp add: trim_def trim_end_def)
qed

lemma trim_ends:
  assumes "trim s \<noteq> []"
  shows "\<not> is_space (hd (trim s))" "\<not> is_space (last (trim s))" "set (trim s) \<subseteq> set s"
proof -
  let ?d = "dropWhile is_space s"
  have rev: "trim s = rev (dropWhile is_space (rev ?d))" by (simp add: trim_def trim_end_def)
  then have ne: "dropWhile is_space (rev ?d) \<noteq> []" using assms by simp
  show "\<not> is_space (last (trim s))" using hd_dropWhile [OF ne] by (simp add: rev last_rev)
  obtain b where b: "?d = trim s @ b"
    by (metis rev rev_append rev_rev_ident takeWhile_dropWhile_id)
  then have "hd ?d = hd (trim s)" "?d \<noteq> []" using assms by auto
  then show "\<not> is_space (hd (trim s))" using hd_dropWhile [of is_space s] by simp
  show "set (trim s) \<subseteq> set s" using b by (metis Un_iff set_append set_dropWhileD subsetI)
qed

text \<open>An entry of the list as an operator types it, with blanks on either side.\<close>

fun join_on :: "char \<Rightarrow> string list \<Rightarrow> string" where
  "join_on d [] = []"
| "join_on d [p] = p"
| "join_on d (p # ps) = p @ d # join_on d ps"

definition endpoint_ok :: "string \<Rightarrow> bool" where
  "endpoint_ok e \<longleftrightarrow> e \<noteq> [] \<and> \<not> is_space (hd e) \<and> \<not> is_space (last e) \<and> CHR '','' \<notin> set e"

lemma split_on_join:
  "ps \<noteq> [] \<Longrightarrow> \<forall>p \<in> set ps. d \<notin> set p \<Longrightarrow> split_on d (join_on d ps) = ps"
  by (induction d ps rule: join_on.induct) (simp_all add: split_on_absent split_on_append)



end
