(* ===== verification/Reconnect.thy ===== *)
theory Reconnect
  imports Client
begin

text \<open>
  The races of \<open>Client::reconnect\<close> (\<open>src/src/client.rs\<close>): any number of
  tasks call it at once and others hold read guards of the client.  Each atomic
  access of the shared fields and each await is one step; the tasks interleave
  freely and an attempt may be dropped where it awaits.
\<close>

subsection \<open>Steps\<close>

text \<open>
  Where a task is inside \<open>reconnect\<close>: it captured the generation, it has the
  index to start from and is connecting, it holds a fresh client and waits for
  the lock, it holds the lock, it replaced the client, it stored the index.
\<close>

datatype 'c attempt =
    Idle
  | Captured u64
  | Connecting u64 nat
  | Connected u64 'c nat
  | Locked u64 'c nat
  | Swapped nat
  | Indexed

text \<open>
  The shared fields, the lock (a writer or readers with the client they see),
  and two history variables: the number of completed swaps, and the number of
  them when each task captured the generation.
\<close>

record ('t, 'c) pool =
  pool_client :: 'c
  pool_index :: nat
  pool_generation :: u64
  pool_writer :: "'t option"
  pool_readers :: "'t \<Rightarrow> 'c option"
  pool_attempt :: "'t \<Rightarrow> 'c attempt"
  pool_swaps :: nat
  pool_seen :: "'t \<Rightarrow> nat"

definition at :: "'t \<Rightarrow> 'c attempt \<Rightarrow> ('t, 'c) pool \<Rightarrow> ('t, 'c) pool" where
  "at t a s = s\<lparr>pool_attempt := (pool_attempt s)(t := a)\<rparr>"

lemma at_simps [simp]:
  "pool_attempt (at t a s) = (pool_attempt s)(t := a)"
  "pool_client (at t a s) = pool_client s"
  "pool_index (at t a s) = pool_index s"
  "pool_generation (at t a s) = pool_generation s"
  "pool_writer (at t a s) = pool_writer s"
  "pool_readers (at t a s) = pool_readers s"
  "pool_swaps (at t a s) = pool_swaps s"
  "pool_seen (at t a s) = pool_seen s"
  by (simp_all add: at_def)

text \<open>\<open>serves\<close> gives the endpoint a client of the RPC library talks to.\<close>

inductive reconnect_step ::
  "('c \<Rightarrow> string) \<Rightarrow> string list \<Rightarrow> ('t, 'c) pool \<Rightarrow> ('t, 'c) pool \<Rightarrow> bool"
  for serves eps where
  capture: "pool_attempt s t = Idle \<Longrightarrow>
    reconnect_step serves eps s
      (at t (Captured (pool_generation s)) (s\<lparr>pool_seen := (pool_seen s)(t := pool_swaps s)\<rparr>))"
| start: "pool_attempt s t = Captured g \<Longrightarrow>
    reconnect_step serves eps s (at t (Connecting g ((pool_index s + 1) mod length eps)) s)"
| connected: "pool_attempt s t = Connecting g k \<Longrightarrow> i < length eps \<Longrightarrow> serves c = eps ! i \<Longrightarrow>
    reconnect_step serves eps s (at t (Connected g c i) s)"
| failed: "pool_attempt s t = Connecting g k \<Longrightarrow> reconnect_step serves eps s (at t Idle s)"
| dropped: "pool_attempt s t = Connected g c i \<Longrightarrow> reconnect_step serves eps s (at t Idle s)"
| lock: "pool_attempt s t = Connected g c i \<Longrightarrow> pool_writer s = None \<Longrightarrow>
    \<forall>u. pool_readers s u = None \<Longrightarrow>
    reconnect_step serves eps s (at t (Locked g c i) (s\<lparr>pool_writer := Some t\<rparr>))"
| skip: "pool_attempt s t = Locked g c i \<Longrightarrow> pool_generation s \<noteq> g \<Longrightarrow>
    reconnect_step serves eps s (at t Idle (s\<lparr>pool_writer := None\<rparr>))"
| swap: "pool_attempt s t = Locked g c i \<Longrightarrow> pool_generation s = g \<Longrightarrow>
    reconnect_step serves eps s (at t (Swapped i) (s\<lparr>pool_client := c\<rparr>))"
| store: "pool_attempt s t = Swapped i \<Longrightarrow>
    reconnect_step serves eps s (at t Indexed (s\<lparr>pool_index := i\<rparr>))"
| bump: "pool_attempt s t = Indexed \<Longrightarrow>
    reconnect_step serves eps s
      (at t Idle (s\<lparr>pool_generation := pool_generation s + 1, pool_swaps := pool_swaps s + 1,
                    pool_writer := None\<rparr>))"
| read: "pool_writer s = None \<Longrightarrow>
    reconnect_step serves eps s (s\<lparr>pool_readers := (pool_readers s)(u := Some (pool_client s))\<rparr>)"
| release: "reconnect_step serves eps s (s\<lparr>pool_readers := (pool_readers s)(u := None)\<rparr>)"

text \<open>The state \<open>Client::new\<close> leaves, and the states the tasks can reach.\<close>

definition pool_new :: "'c \<Rightarrow> nat \<Rightarrow> ('t, 'c) pool" where
  "pool_new c i =
     \<lparr>pool_client = c, pool_index = i, pool_generation = 0, pool_writer = None,
      pool_readers = (\<lambda>_. None), pool_attempt = (\<lambda>_. Idle), pool_swaps = 0, pool_seen = (\<lambda>_. 0)\<rparr>"

inductive pool_reach :: "('c \<Rightarrow> string) \<Rightarrow> string list \<Rightarrow> ('t, 'c) pool \<Rightarrow> bool"
  for serves eps where
  reach_new: "i < length eps \<Longrightarrow> serves c = eps ! i \<Longrightarrow> pool_reach serves eps (pool_new c i)"
| reach_step: "pool_reach serves eps s \<Longrightarrow> reconnect_step serves eps s s' \<Longrightarrow> pool_reach serves eps s'"

subsection \<open>The invariant\<close>

fun exclusive :: "'c attempt \<Rightarrow> bool" where
  "exclusive (Locked _ _ _) = True"
| "exclusive (Swapped _) = True"
| "exclusive Indexed = True"
| "exclusive _ = False"

text \<open>A client and an index that belong together.\<close>

definition matches :: "('c \<Rightarrow> string) \<Rightarrow> string list \<Rightarrow> 'c \<Rightarrow> nat \<Rightarrow> bool" where
  "matches serves eps c i \<longleftrightarrow> i < length eps \<and> serves c = eps ! i"

text \<open>What a task knows at each point: the generation it captured is the one of
  the number of swaps it saw, and once it replaced the client nobody else did.\<close>

fun attempt_ok ::
  "('c \<Rightarrow> string) \<Rightarrow> string list \<Rightarrow> ('t, 'c) pool \<Rightarrow> nat \<Rightarrow> 'c attempt \<Rightarrow> bool" where
  "attempt_ok serves eps s n Idle \<longleftrightarrow> True"
| "attempt_ok serves eps s n (Captured g) \<longleftrightarrow> g = word_of_nat n"
| "attempt_ok serves eps s n (Connecting g k) \<longleftrightarrow> g = word_of_nat n"
| "attempt_ok serves eps s n (Connected g c i) \<longleftrightarrow> g = word_of_nat n \<and> matches serves eps c i"
| "attempt_ok serves eps s n (Locked g c i) \<longleftrightarrow>
     g = word_of_nat n \<and> matches serves eps c i \<and> matches serves eps (pool_client s) (pool_index s)"
| "attempt_ok serves eps s n (Swapped i) \<longleftrightarrow>
     matches serves eps (pool_client s) i \<and> (pool_swaps s < 2 ^ 64 \<longrightarrow> n = pool_swaps s)"
| "attempt_ok serves eps s n Indexed \<longleftrightarrow>
     matches serves eps (pool_client s) (pool_index s) \<and> (pool_swaps s < 2 ^ 64 \<longrightarrow> n = pool_swaps s)"

definition pool_ok :: "('c \<Rightarrow> string) \<Rightarrow> string list \<Rightarrow> ('t, 'c) pool \<Rightarrow> bool" where
  "pool_ok serves eps s \<longleftrightarrow>
     (\<forall>t. exclusive (pool_attempt s t) \<longleftrightarrow> pool_writer s = Some t) \<and>
     (\<forall>t. pool_seen s t \<le> pool_swaps s) \<and>
     (\<forall>t. attempt_ok serves eps s (pool_seen s t) (pool_attempt s t)) \<and>
     (\<forall>u c. pool_readers s u = Some c \<longrightarrow> pool_writer s = None \<and> c = pool_client s) \<and>
     pool_generation s = word_of_nat (pool_swaps s) \<and>
     (pool_writer s = None \<longrightarrow> matches serves eps (pool_client s) (pool_index s))"

lemma same_generation:
  assumes "n \<le> m" "m < 2 ^ 64" "(word_of_nat m :: u64) = word_of_nat n"
  shows "n = m"
proof -
  have bounds: "m < 2 ^ LENGTH(64)" "n < 2 ^ LENGTH(64)"
    unfolding len_num1 len_bit0 using assms(1,2) by simp_all
  show ?thesis
    using unat_word_of_nat [OF bounds(1)] unat_word_of_nat [OF bounds(2)] assms(3) by metis
qed

text \<open>A step of one task leaves what the others know: outside the write section
  the condition does not mention the shared fields.\<close>

lemma attempt_ok_shared:
  "\<not> exclusive a \<Longrightarrow> attempt_ok serves eps s n a = attempt_ok serves eps s' n a"
  by (cases a) simp_all

lemma attempt_ok_same:
  "pool_client s' = pool_client s \<Longrightarrow> pool_index s' = pool_index s \<Longrightarrow> pool_swaps s' = pool_swaps s \<Longrightarrow>
     attempt_ok serves eps s' n a = attempt_ok serves eps s n a"
  by (cases a) simp_all

lemma others_ok:
  assumes "pool_ok serves eps s" "u \<noteq> t"
    and "pool_writer s = Some t \<or>
      pool_client s' = pool_client s \<and> pool_index s' = pool_index s \<and> pool_swaps s' = pool_swaps s"
  shows "attempt_ok serves eps s' (pool_seen s u) (pool_attempt s u)"
proof -
  from assms(1) have ok: "attempt_ok serves eps s (pool_seen s u) (pool_attempt s u)"
    and ex: "exclusive (pool_attempt s u) \<longleftrightarrow> pool_writer s = Some u"
    by (auto simp: pool_ok_def)
  from assms(3) show ?thesis
  proof
    assume "pool_writer s = Some t"
    with ex assms(2) have "\<not> exclusive (pool_attempt s u)" by auto
    then show ?thesis using ok attempt_ok_shared [of "pool_attempt s u" serves eps s _ s'] by simp
  next
    assume "pool_client s' = pool_client s \<and> pool_index s' = pool_index s \<and> pool_swaps s' = pool_swaps s"
    then show ?thesis using ok attempt_ok_same [of s' s serves eps] by simp
  qed
qed

lemma pool_okD:
  assumes "pool_ok serves eps s"
  shows "exclusive (pool_attempt s t) \<longleftrightarrow> pool_writer s = Some t"
    and "pool_seen s t \<le> pool_swaps s"
    and "attempt_ok serves eps s (pool_seen s t) (pool_attempt s t)"
    and "pool_readers s u = Some c \<Longrightarrow> pool_writer s = None \<and> c = pool_client s"
    and "pool_generation s = word_of_nat (pool_swaps s)"
    and "pool_writer s = None \<Longrightarrow> matches serves eps (pool_client s) (pool_index s)"
  using assms by (auto simp: pool_ok_def)

text \<open>A move of task \<open>t\<close> keeps the invariant when the others keep their place,
  the shared fields change only under \<open>t\<close>'s lock, and \<open>t\<close> knows what it should.\<close>

lemma pool_ok_move:
  assumes ok: "pool_ok serves eps s"
    and same: "\<And>u. u \<noteq> t \<Longrightarrow> pool_attempt s' u = pool_attempt s u \<and> pool_seen s' u = pool_seen s u \<and>
      (pool_writer s' = Some u \<longleftrightarrow> pool_writer s = Some u)"
    and shared: "pool_writer s = Some t \<or>
      pool_client s' = pool_client s \<and> pool_index s' = pool_index s \<and> pool_swaps s' = pool_swaps s"
    and t: "exclusive (pool_attempt s' t) \<longleftrightarrow> pool_writer s' = Some t"
      "attempt_ok serves eps s' (pool_seen s' t) (pool_attempt s' t)" "pool_seen s' t \<le> pool_swaps s'"
    and "pool_swaps s \<le> pool_swaps s'"
    and "\<And>u c. pool_readers s' u = Some c \<Longrightarrow> pool_writer s' = None \<and> c = pool_client s'"
    and "pool_generation s' = word_of_nat (pool_swaps s')"
    and "pool_writer s' = None \<Longrightarrow> matches serves eps (pool_client s') (pool_index s')"
  shows "pool_ok serves eps s'"
proof -
  have "(exclusive (pool_attempt s' u) \<longleftrightarrow> pool_writer s' = Some u) \<and>
      pool_seen s' u \<le> pool_swaps s' \<and> attempt_ok serves eps s' (pool_seen s' u) (pool_attempt s' u)" for u
  proof (cases "u = t")
    case False
    note keep = same [OF this]
    have "attempt_ok serves eps s' (pool_seen s u) (pool_attempt s u)"
      using others_ok [OF ok False shared] .
    with keep pool_okD(1,2) [OF ok, of u] assms(7) show ?thesis by auto
  qed (use t in simp)
  with assms(8-) show ?thesis by (auto simp: pool_ok_def)
qed

lemma pool_ok_readers:
  assumes "pool_ok serves eps s"
    and "\<And>u c. f u = Some c \<Longrightarrow> pool_writer s = None \<and> c = pool_client s"
  shows "pool_ok serves eps (s\<lparr>pool_readers := f\<rparr>)"
proof -
  have "attempt_ok serves eps (s\<lparr>pool_readers := f\<rparr>) n a = attempt_ok serves eps s n a" for n a
    by (rule attempt_ok_same) simp_all
  with assms show ?thesis by (simp add: pool_ok_def)
qed

lemma pool_ok_step:
  assumes "reconnect_step serves eps s s'" and ok: "pool_ok serves eps s"
  shows "pool_ok serves eps s'"
  using assms(1)
proof cases
  case (capture t)
  show ?thesis
    by (rule pool_ok_move [OF ok, where t = t]) (use pool_okD(1-3) [OF ok, of t] pool_okD(4-6) [OF ok] capture in auto)
next
  case (start t g)
  show ?thesis
    by (rule pool_ok_move [OF ok, where t = t]) (use pool_okD(1-3) [OF ok, of t] pool_okD(4-6) [OF ok] start in auto)
next
  case (connected t g k i c)
  show ?thesis
    by (rule pool_ok_move [OF ok, where t = t])
      (use pool_okD(1-3) [OF ok, of t] pool_okD(4-6) [OF ok] connected in \<open>auto simp: matches_def\<close>)
next
  case (failed t g k)
  show ?thesis
    by (rule pool_ok_move [OF ok, where t = t]) (use pool_okD(1-3) [OF ok, of t] pool_okD(4-6) [OF ok] failed in auto)
next
  case (dropped t g c i)
  show ?thesis
    by (rule pool_ok_move [OF ok, where t = t]) (use pool_okD(1-3) [OF ok, of t] pool_okD(4-6) [OF ok] dropped in auto)
next
  case (lock t g c i)
  show ?thesis
    by (rule pool_ok_move [OF ok, where t = t]) (use pool_okD(1-3) [OF ok, of t] pool_okD(4-6) [OF ok] lock in auto)
next
  case (skip t g c i)
  show ?thesis
    by (rule pool_ok_move [OF ok, where t = t]) (use pool_okD(1-3) [OF ok, of t] pool_okD(4-6) [OF ok] skip in auto)
next
  case (swap t g c i)
  have "pool_seen s t = pool_swaps s" if "pool_swaps s < 2 ^ 64"
    using same_generation [OF pool_okD(2) [OF ok] that] pool_okD(3) [OF ok, of t] pool_okD(5) [OF ok] swap
    by simp
  then show ?thesis
    by - (rule pool_ok_move [OF ok, where t = t],
      use pool_okD(1-3) [OF ok, of t] pool_okD(4-6) [OF ok] swap in auto)
next
  case (store t i)
  show ?thesis
    by (rule pool_ok_move [OF ok, where t = t]) (use pool_okD(1-3) [OF ok, of t] pool_okD(4-6) [OF ok] store in auto)
next
  case (bump t)
  show ?thesis
    by (rule pool_ok_move [OF ok, where t = t]) (use pool_okD(1-3) [OF ok, of t] pool_okD(4-6) [OF ok] bump in auto)
next
  case (read u)
  show ?thesis
    unfolding read by (rule pool_ok_readers [OF ok]) (use pool_okD(4) [OF ok] read in \<open>auto split: if_splits\<close>)
next
  case (release u)
  show ?thesis
    unfolding release by (rule pool_ok_readers [OF ok]) (use pool_okD(4) [OF ok] in \<open>auto split: if_splits\<close>)
qed

lemma pool_ok_reach: "pool_reach serves eps s \<Longrightarrow> pool_ok serves eps s"
proof (induction rule: pool_reach.induct)
  case (reach_new i c)
  then show ?case by (simp add: pool_ok_def pool_new_def matches_def)
qed (rule pool_ok_step)

subsection \<open>Properties\<close>

text \<open>C3. However many tasks reconnect and read at once: a task that holds a
  read guard sees the current client, which nobody replaces; at most one task is
  in the write section, and no reader is then; outside it the stored index is
  that of the endpoint the client talks to; and a task that replaces the client
  is the first to do so since it captured the generation, while fewer than
  \<open>2 ^ 64\<close> replacements happened.\<close>

theorem reconnect_exclusive:
  assumes "pool_reach serves eps s"
  shows "(\<forall>u c. pool_readers s u = Some c \<longrightarrow> c = pool_client s \<and> (\<forall>t. \<not> exclusive (pool_attempt s t))) \<and>
    (\<forall>t u. exclusive (pool_attempt s t) \<longrightarrow> exclusive (pool_attempt s u) \<longrightarrow> t = u) \<and>
    (pool_writer s = None \<longrightarrow>
       pool_index s < length eps \<and> serves (pool_client s) = eps ! pool_index s) \<and>
    (\<forall>t i. pool_attempt s t = Swapped i \<or> pool_attempt s t = Indexed \<longrightarrow>
       pool_swaps s < 2 ^ 64 \<longrightarrow> pool_seen s t = pool_swaps s)"
proof -
  note ok = pool_ok_reach [OF assms]
  have "pool_seen s t = pool_swaps s"
    if "pool_attempt s t = Swapped i \<or> pool_attempt s t = Indexed" "pool_swaps s < 2 ^ 64" for t i
    using pool_okD(3) [OF ok, of t] that by auto
  with pool_okD(1) [OF ok] pool_okD(4,6) [OF ok] show ?thesis by (auto simp: matches_def)
qed

text \<open>Two tasks race from endpoint \<open>a\<close> to endpoint \<open>b\<close>.\<close>

theorem reconnect_exclusive_witness:
  "\<exists>s :: (bool, nat) pool.
     pool_attempt s True = Swapped 1 \<and> pool_attempt s False = Connected 0 2 1 \<and>
     pool_client s = 1 \<and> pool_seen s True = pool_swaps s \<and> \<not> exclusive (pool_attempt s False)"
proof -
  let ?step = "reconnect_step (\<lambda>c :: nat. if c = 0 then ''a'' else ''b'') [''a'', ''b'']"
  let ?reach = "pool_reach (\<lambda>c :: nat. if c = 0 then ''a'' else ''b'') [''a'', ''b'']"
  let ?s0 = "pool_new 0 0 :: (bool, nat) pool"
  let ?s1 = "at True (Captured 0) (?s0\<lparr>pool_seen := (pool_seen ?s0)(True := 0)\<rparr>)"
  let ?s2 = "at False (Captured 0) (?s1\<lparr>pool_seen := (pool_seen ?s1)(False := 0)\<rparr>)"
  let ?s3 = "at True (Connecting 0 1) ?s2"
  let ?s4 = "at False (Connecting 0 1) ?s3"
  let ?s5 = "at True (Connected 0 1 1) ?s4"
  let ?s6 = "at False (Connected 0 2 1) ?s5"
  let ?s7 = "at True (Locked 0 1 1) (?s6\<lparr>pool_writer := Some True\<rparr>)"
  let ?s8 = "at True (Swapped 1) (?s7\<lparr>pool_client := 1\<rparr>)"
  have "?reach ?s0" by (rule reach_new) simp_all
  moreover have "?step ?s0 ?s1" using capture [of ?s0 True] by (simp add: pool_new_def)
  moreover have "?step ?s1 ?s2" using capture [of ?s1 False] by (simp add: pool_new_def)
  moreover have "?step ?s2 ?s3" using start [of ?s2 True 0 _ "[''a'', ''b'']"] by (simp add: pool_new_def)
  moreover have "?step ?s3 ?s4" using start [of ?s3 False 0 _ "[''a'', ''b'']"] by (simp add: pool_new_def)
  moreover have "?step ?s4 ?s5" by (rule connected) (simp_all add: pool_new_def)
  moreover have "?step ?s5 ?s6" by (rule connected) (simp_all add: pool_new_def)
  moreover have "?step ?s6 ?s7" by (rule lock) (simp_all add: pool_new_def)
  moreover have "?step ?s7 ?s8" by (rule swap) (simp_all add: pool_new_def)
  ultimately have "?reach ?s8" using reach_step by metis
  note reconnect_exclusive [OF this]
  then show ?thesis by (intro exI [of _ ?s8]) (simp add: pool_new_def)
qed

end
