(* ===== verification/Keyed_Lists.thy ===== *)
theory Keyed_Lists
  imports Miner_Prelude
begin

text \<open>
  Lists of key and value pairs as the election data uses them, an interface for
  updating one entry with what follows from it for a sequence of updates, and
  the composition of fallible steps without effects.
\<close>

subsection \<open>Fallible steps\<close>

text \<open>The operator \<open>?\<close> on \<open>Result\<close>, and \<open>collect\<close> into a \<open>Result\<close>.\<close>

definition and_then :: "'e + 'a \<Rightarrow> ('a \<Rightarrow> 'e + 'b) \<Rightarrow> 'e + 'b" where
  "and_then r f = (case r of Inl e \<Rightarrow> Inl e | Inr x \<Rightarrow> f x)"

lemma and_then_simps [simp]: "and_then (Inl e) f = Inl e" "and_then (Inr x) f = f x"
  by (simp_all add: and_then_def)

primrec try_map :: "('a \<Rightarrow> 'e + 'b) \<Rightarrow> 'a list \<Rightarrow> 'e + 'b list" where
  "try_map f [] = Inr []"
| "try_map f (x # xs) = and_then (f x) (\<lambda>y. and_then (try_map f xs) (\<lambda>ys. Inr (y # ys)))"

primrec try_fold :: "('x \<Rightarrow> 'a \<Rightarrow> 'e + 'a) \<Rightarrow> 'x list \<Rightarrow> 'a \<Rightarrow> 'e + 'a" where
  "try_fold f [] a = Inr a"
| "try_fold f (x # xs) a = and_then (f x a) (try_fold f xs)"

lemma try_map_Inr: "(\<And>x. x \<in> set xs \<Longrightarrow> f x = Inr (g x)) \<Longrightarrow> try_map f xs = Inr (List.map g xs)"
  by (induction xs) simp_all

lemma try_map_cong: "(\<And>x. x \<in> set xs \<Longrightarrow> f x = g x) \<Longrightarrow> try_map f xs = try_map g xs"
  by (induction xs) simp_all

lemma try_map_length: "try_map f xs = Inr ys \<Longrightarrow> length ys = length xs"
  by (induction xs arbitrary: ys) (auto simp: and_then_def split: sum.splits)

lemma try_map_append:
  "try_map f (xs @ ys) = and_then (try_map f xs) (\<lambda>us. and_then (try_map f ys) (\<lambda>vs. Inr (us @ vs)))"
  by (induction xs) (auto simp: and_then_def split: sum.splits)

text \<open>Successful runs of a program, in its steps.\<close>

named_theorems ok_runs \<open>when a program returns a value\<close>

lemmas [ok_runs] = io_bind_eq_Ok

lemma ret_Ok [ok_runs]: "ret x s = (Ok y, t) \<longleftrightarrow> y = x \<and> t = s"
  by (auto simp: ret_def)

lemma throw_Ok [ok_runs]: "throw e s = (Ok y, t) \<longleftrightarrow> False"
  by (simp add: throw_def)

lemma io_result_Ok [ok_runs]: "io_result r s = (Ok y, t) \<longleftrightarrow> r = Inr y \<and> t = s"
  by (cases r) (auto simp: throw_def ret_def)

lemma call_Ok [ok_runs]: "call f s = (Ok y, t) \<longleftrightarrow> (\<exists>w. f (world s) = (Ok y, w) \<and> t = s\<lparr>world := w\<rparr>)"
  by (auto simp: call_def split: prod.splits)

lemma io_map_err_Ok [ok_runs]: "io_map_err h m s = (Ok y, t) \<longleftrightarrow> m s = (Ok y, t)"
  by (auto simp: io_map_err_def split: prod.splits outcome.splits)

lemma emit_Ok [ok_runs]: "emit v s = (Ok y, t) \<longleftrightarrow> t = s\<lparr>trace := trace s @ [v]\<rparr>"
  by (auto simp: emit_def)

subsection \<open>Updating an entry\<close>

text \<open>Overwrite the first entry of a key, or push a new one.\<close>

fun put_entry :: "'k \<Rightarrow> 'v \<Rightarrow> ('k \<times> 'v) list \<Rightarrow> ('k \<times> 'v) list" where
  "put_entry k v [] = [(k, v)]"
| "put_entry k v ((k', v') # xs) = (if k' = k then (k, v) # xs else (k', v') # put_entry k v xs)"

abbreviation keys :: "('k \<times> 'v) list \<Rightarrow> 'k list" where
  "keys xs \<equiv> List.map fst xs"

lemma put_entry_lookup [simp]: "map_of (put_entry k v xs) = (map_of xs)(k \<mapsto> v)"
  by (induction k v xs rule: put_entry.induct) (auto simp: fun_eq_iff)

lemma put_entry_keys: "keys (put_entry k v xs) = (if k \<in> set (keys xs) then keys xs else keys xs @ [k])"
  by (induction k v xs rule: put_entry.induct) auto

lemma put_entry_distinct [simp]: "distinct (keys (put_entry k v xs)) = distinct (keys xs)"
  by (auto simp: put_entry_keys)

lemma map_add_rev_Cons: "m ++ map_of (rev ((k, v) # kvs)) = m(k \<mapsto> v) ++ map_of (rev kvs)"
  by (simp add: map_add_def fun_eq_iff split: option.split)

text \<open>The laws of an update, whatever order the entries are kept in.\<close>

locale keyed_put =
  fixes put :: "'k \<Rightarrow> 'v \<Rightarrow> ('k \<times> 'v) list \<Rightarrow> ('k \<times> 'v) list"
    and ok :: "('k \<times> 'v) list \<Rightarrow> bool"
  assumes lookup_put: "map_of (put k v xs) = (map_of xs)(k \<mapsto> v)"
    and ok_put: "ok xs \<Longrightarrow> ok (put k v xs)"
    and ok_distinct: "ok xs \<Longrightarrow> distinct (keys xs)"
begin

lemma ok_fold: "ok xs \<Longrightarrow> ok (fold (\<lambda>(k, v). put k v) kvs xs)"
  by (induction kvs arbitrary: xs) (auto simp: ok_put)

text \<open>The last update of a key decides; a key that is not updated keeps its value.\<close>

lemma lookup_fold: "map_of (fold (\<lambda>(k, v). put k v) kvs xs) = map_of xs ++ map_of (rev kvs)"
proof (induction kvs arbitrary: xs)
  case (Cons kv kvs)
  then show ?case
    by (cases kv) (simp only: fold_Cons comp_apply prod.case lookup_put map_add_rev_Cons)
qed simp

lemma distinct_fold: "ok xs \<Longrightarrow> distinct (keys (fold (\<lambda>(k, v). put k v) kvs xs))"
  by (intro ok_distinct ok_fold)

end

interpretation entry: keyed_put put_entry "\<lambda>xs. distinct (keys xs)"
  by unfold_locales simp_all

interpretation btree: keyed_put bt_insert bt_ok
proof
  show "distinct (keys xs)" if "bt_ok xs" for xs :: "('a \<times> 'b) list"
    using that by (simp add: bt_ok_def strict_sorted_iff)
qed simp_all

subsection \<open>Filtering and replacing\<close>

lemma map_of_retain: "map_of (filter (\<lambda>kv. fst kv \<notin> A) xs) = map_of xs |` (- A)"
  by (induction xs) (auto simp: fun_eq_iff restrict_map_def)

lemma distinct_filter_keys: "distinct (keys xs) \<Longrightarrow> distinct (keys (filter P xs))"
  by (induction xs) auto

lemma map_of_list_update:
  assumes "distinct (keys xs)" "i < length xs" "fst (xs ! i) = k"
  shows "map_of (xs[i := (k, v)]) = (map_of xs)(k \<mapsto> v)" "keys (xs[i := (k, v)]) = keys xs"
proof -
  show same: "keys (xs[i := (k, v)]) = keys xs"
    using assms(2,3) by (metis fst_conv list_update_id map_update nth_map)
  show "map_of (xs[i := (k, v)]) = (map_of xs)(k \<mapsto> v)"
    using assms
  proof (induction xs arbitrary: i)
    case (Cons x xs)
    show ?case
    proof (cases i)
      case (Suc j)
      with Cons.prems have "k \<noteq> fst x" by (metis distinct.simps(2) length_Cons list.simps(9) Suc_less_eq
          length_map nth_Cons_Suc nth_map nth_mem)
      with Suc Cons show ?thesis by (cases x) (auto simp: fun_eq_iff)
    qed (use Cons.prems in \<open>cases x; auto simp: fun_eq_iff\<close>)
  qed simp
qed

lemma map_of_append_new: "k \<notin> set (keys xs) \<Longrightarrow> map_of (xs @ [(k, v)]) = (map_of xs)(k \<mapsto> v)"
  by (induction xs) (auto simp: fun_eq_iff)

end
