(* ===== verification/Overrides.thy ===== *)
theory Overrides
  imports Keyed_Lists Chain_Api
begin

text \<open>
  Election overrides (\<open>apply_overrides\<close> of \<open>src/src/dynamic/election_data.rs\<close>,
  their types in \<open>src/src/commands/types.rs\<close>): candidates and voters removed,
  added or rewritten before a prediction.  Parsing an address is a parameter.
  The specification is on maps from accounts to stakes and votes.
\<close>

subsection \<open>Definitions\<close>

datatype candidate_include = Address string | WithSelfStake string u64

primrec candidate_parts :: "candidate_include \<Rightarrow> string \<times> u64" where
  "candidate_parts (Address address) = (address, 0)"
| "candidate_parts (WithSelfStake address self_stake) = (address, self_stake)"

record election_overrides =
  candidates_include :: "candidate_include list"
  candidates_exclude :: "string list"
  voters_include :: "(string \<times> u64 \<times> string list) list"
  voters_exclude :: "string list"

type_synonym validator_data = "account_id \<times> u128"
type_synonym nominator_data = "account_id \<times> u64 \<times> account_id list"

text \<open>\<open>parse::<AccountId>\<close>: the account, or the message of the parser.\<close>

type_synonym account_parser = "string \<Rightarrow> string + account_id"

definition parse_as :: "account_parser \<Rightarrow> string \<Rightarrow> string \<Rightarrow> error + account_id" where
  "parse_as parse what s =
     (case parse s of
        Inr a \<Rightarrow> Inr a
      | Inl e \<Rightarrow> Inl (OtherError (''Invalid '' @ what @ '' '' @ s @ '': '' @ e)))"

definition include_candidate ::
  "account_parser \<Rightarrow> candidate_include \<Rightarrow> validator_data list \<times> nominator_data list \<Rightarrow>
     error + validator_data list \<times> nominator_data list" where
  "include_candidate parse candidate_inc st =
     (case (candidate_parts candidate_inc, st) of
        ((address, self_stake), (candidates, voters)) \<Rightarrow>
          and_then (parse_as parse ''candidate include'' address) (\<lambda>account.
          let candidates' = put_entry account (ucast self_stake) candidates in
          if self_stake = 0 then Inr (candidates', voters)
          else Inr (candidates', put_entry account (self_stake, [account]) voters)))"

text \<open>The index map of the voters; of several entries of an account the last one counts.\<close>

definition voter_map :: "nominator_data list \<Rightarrow> account_id \<Rightarrow> nat option" where
  "voter_map voters = map_of (rev (zip (keys voters) [0 ..< length voters]))"

definition include_voter ::
  "account_parser \<Rightarrow> (account_id \<Rightarrow> nat option) \<Rightarrow> string \<times> u64 \<times> string list \<Rightarrow> nominator_data list \<Rightarrow>
     error + nominator_data list" where
  "include_voter parse index_of inc voters =
     (case inc of (v_str, stake, t_strs) \<Rightarrow>
        and_then (parse_as parse ''voter include'' v_str) (\<lambda>account.
        and_then (try_map (parse_as parse ''voter target'') t_strs) (\<lambda>targets.
        case index_of account of
          Some index \<Rightarrow> Inr (voters[index := (account, stake, targets)])
        | None \<Rightarrow> Inr (voters @ [(account, stake, targets)]))))"

definition apply_overrides ::
  "account_parser \<Rightarrow> validator_data list \<Rightarrow> nominator_data list \<Rightarrow> election_overrides \<Rightarrow>
     error + validator_data list \<times> nominator_data list" where
  "apply_overrides parse candidates voters overrides =
     and_then (try_map (parse_as parse ''candidate exclude'') (candidates_exclude overrides)) (\<lambda>excluded.
     let candidates1 = filter (\<lambda>c. fst c \<notin> set excluded) candidates in
     and_then (try_fold (include_candidate parse) (candidates_include overrides) (candidates1, voters))
       (\<lambda>(candidates2, voters2).
     and_then (try_map (parse_as parse ''voter exclude'') (voters_exclude overrides)) (\<lambda>voters_excluded.
     let voters3 = filter (\<lambda>v. fst v \<notin> set voters_excluded) voters2 in
     and_then (try_fold (include_voter parse (voter_map voters3)) (voters_include overrides) voters3) (\<lambda>voters4.
     Inr (candidates2, voters4)))))"

subsection \<open>Invalid addresses\<close>

text \<open>All addresses of the overrides, in the order in which they are parsed.\<close>

definition addresses :: "election_overrides \<Rightarrow> (string \<times> string) list" where
  "addresses ov =
     List.map (Pair ''candidate exclude'') (candidates_exclude ov) @
     List.map (\<lambda>c. (''candidate include'', fst (candidate_parts c))) (candidates_include ov) @
     List.map (Pair ''voter exclude'') (voters_exclude ov) @
     concat (List.map (\<lambda>(v, stake, ts). (''voter include'', v) # List.map (Pair ''voter target'') ts)
       (voters_include ov))"

text \<open>The error of the first address that does not parse.\<close>

fun first_invalid :: "account_parser \<Rightarrow> (string \<times> string) list \<Rightarrow> error option" where
  "first_invalid parse [] = None"
| "first_invalid parse ((what, s) # as) =
     (case parse_as parse what s of Inl e \<Rightarrow> Some e | Inr _ \<Rightarrow> first_invalid parse as)"

lemma first_invalid_append:
  "first_invalid parse (as @ bs) =
     (case first_invalid parse as of Some e \<Rightarrow> Some e | None \<Rightarrow> first_invalid parse bs)"
  by (induction parse as rule: first_invalid.induct) (auto split: sum.split)

text \<open>A step that fails with the first invalid address of \<open>as\<close>, and only then.\<close>

definition fails_like :: "error + 'a \<Rightarrow> error option \<Rightarrow> bool" where
  "fails_like r e = (case e of Some x \<Rightarrow> r = Inl x | None \<Rightarrow> \<exists>y. r = Inr y)"

lemma fails_like_and_then:
  assumes "fails_like r (first_invalid parse as)" "\<And>x. r = Inr x \<Longrightarrow> fails_like (f x) (first_invalid parse bs)"
  shows "fails_like (and_then r f) (first_invalid parse (as @ bs))"
  using assms by (cases r) (auto simp: fails_like_def first_invalid_append split: option.splits)

lemma fails_like_Inr: "fails_like (Inr x) (first_invalid parse [])"
  by (simp add: fails_like_def)

lemma fails_like_parse: "fails_like (parse_as parse what s) (first_invalid parse [(what, s)])"
  by (auto simp: fails_like_def split: sum.split)

lemma fails_like_try_map:
  "fails_like (try_map (parse_as parse what) ss) (first_invalid parse (List.map (Pair what) ss))"
proof (induction ss)
  case (Cons s ss)
  have "fails_like (and_then (try_map (parse_as parse what) ss) (\<lambda>ys. Inr (y # ys)))
      (first_invalid parse (List.map (Pair what) ss))" for y
    using fails_like_and_then [OF Cons.IH fails_like_Inr] by simp
  from fails_like_and_then [OF fails_like_parse this] show ?case by simp
qed (simp add: fails_like_def)

lemma fails_like_try_fold:
  assumes "\<And>x a. fails_like (f x a) (first_invalid parse (g x))"
  shows "fails_like (try_fold f xs a) (first_invalid parse (concat (List.map g xs)))"
proof (induction xs arbitrary: a)
  case (Cons x xs)
  from fails_like_and_then [OF assms Cons.IH] show ?case by simp
qed (simp add: fails_like_def)

lemma fails_like_include_candidate:
  "fails_like (include_candidate parse c st)
     (first_invalid parse [(''candidate include'', fst (candidate_parts c))])"
  using fails_like_parse [of parse "''candidate include''" "fst (candidate_parts c)"]
  by (cases "parse_as parse ''candidate include'' (fst (candidate_parts c))")
    (auto simp: include_candidate_def fails_like_def Let_def split: prod.splits)

lemma fails_like_include_voter:
  "fails_like (include_voter parse index_of inc voters)
     (first_invalid parse (case inc of (v, stake, ts) \<Rightarrow>
        (''voter include'', v) # List.map (Pair ''voter target'') ts))"
proof -
  obtain v stake ts where inc: "inc = (v, stake, ts)" by (metis prod_cases3)
  have done': "fails_like (case index_of a of Some index \<Rightarrow> Inr (voters[index := (a, stake, targets)])
      | None \<Rightarrow> Inr (voters @ [(a, stake, targets)])) (first_invalid parse [])" for a targets
    by (auto simp: fails_like_def split: option.split)
  from fails_like_and_then [OF fails_like_parse fails_like_and_then [OF fails_like_try_map done']]
  show ?thesis unfolding include_voter_def inc by simp
qed

text \<open>C39. Overrides are rejected exactly when one of their addresses does not parse,
  with the message of the first such address in the order in which the fields are
  applied; otherwise they are applied.\<close>

theorem apply_overrides_rejects:
  "case first_invalid parse (addresses ov) of
     Some e \<Rightarrow> apply_overrides parse candidates voters ov = Inl e
   | None \<Rightarrow> \<exists>data. apply_overrides parse candidates voters ov = Inr data"
proof -
  have pair: "concat (List.map (\<lambda>c. [h c]) cs) = List.map h cs" for h :: "'x \<Rightarrow> 'y" and cs
    by (induction cs) simp_all
  note last = fails_like_and_then [OF fails_like_try_fold [OF fails_like_include_voter] fails_like_Inr,
      unfolded append_Nil2]
  have "fails_like (apply_overrides parse candidates voters ov) (first_invalid parse (addresses ov))"
    unfolding apply_overrides_def addresses_def Let_def
    by (intro fails_like_and_then fails_like_try_map)
      (auto intro!: fails_like_and_then last fails_like_try_map
        fails_like_try_fold [OF fails_like_include_candidate, unfolded pair])
  then show ?thesis by (simp add: fails_like_def)
qed

subsection \<open>The effect on maps\<close>

text \<open>What the overrides promise, on the stake of every candidate and the vote of
  every account: exclusions first, then inclusions; of several inclusions of an
  account the last one counts, and included voters win over self-votes.\<close>

definition candidates_spec ::
  "(string \<Rightarrow> account_id) \<Rightarrow> election_overrides \<Rightarrow> (account_id \<rightharpoonup> u128) \<Rightarrow> (account_id \<rightharpoonup> u128)" where
  "candidates_spec acct ov m =
     m |` (- acct ` set (candidates_exclude ov)) ++
     map_of (rev (List.map (\<lambda>c. (acct (fst (candidate_parts c)), ucast (snd (candidate_parts c))))
       (candidates_include ov)))"

definition self_votes :: "(string \<Rightarrow> account_id) \<Rightarrow> candidate_include list \<Rightarrow> nominator_data list" where
  "self_votes acct cs =
     List.map (\<lambda>c. let a = acct (fst (candidate_parts c)) in (a, snd (candidate_parts c), [a]))
       (filter (\<lambda>c. snd (candidate_parts c) \<noteq> 0) cs)"

definition voters_spec ::
  "(string \<Rightarrow> account_id) \<Rightarrow> election_overrides \<Rightarrow> (account_id \<rightharpoonup> u64 \<times> account_id list) \<Rightarrow>
     (account_id \<rightharpoonup> u64 \<times> account_id list)" where
  "voters_spec acct ov m =
     (m ++ map_of (rev (self_votes acct (candidates_include ov)))) |` (- acct ` set (voters_exclude ov)) ++
     map_of (rev (List.map (\<lambda>(v, stake, ts). (acct v, stake, List.map acct ts)) (voters_include ov)))"

text \<open>Every address of the overrides parses, to the account that \<open>acct\<close> gives.\<close>

definition parses :: "account_parser \<Rightarrow> (string \<Rightarrow> account_id) \<Rightarrow> election_overrides \<Rightarrow> bool" where
  "parses parse acct ov \<longleftrightarrow> (\<forall>(what, s) \<in> set (addresses ov). parse s = Inr (acct s))"

lemma parses_fields:
  assumes "parses parse acct ov"
  shows "s \<in> set (candidates_exclude ov) \<Longrightarrow> parse s = Inr (acct s)"
    and "s \<in> set (voters_exclude ov) \<Longrightarrow> parse s = Inr (acct s)"
    and "c \<in> set (candidates_include ov) \<Longrightarrow> parse (fst (candidate_parts c)) = Inr (acct (fst (candidate_parts c)))"
    and "(v, stake, ts) \<in> set (voters_include ov) \<Longrightarrow> s \<in> set (v # ts) \<Longrightarrow> parse s = Inr (acct s)"
proof -
  have *: "(what, s) \<in> set (addresses ov) \<Longrightarrow> parse s = Inr (acct s)" for what s
    using assms by (auto simp: parses_def)
  show "s \<in> set (candidates_exclude ov) \<Longrightarrow> parse s = Inr (acct s)"
    by (rule * [of "''candidate exclude''"]) (simp add: addresses_def)
  show "s \<in> set (voters_exclude ov) \<Longrightarrow> parse s = Inr (acct s)"
    by (rule * [of "''voter exclude''"]) (simp add: addresses_def)
  show "c \<in> set (candidates_include ov) \<Longrightarrow> parse (fst (candidate_parts c)) = Inr (acct (fst (candidate_parts c)))"
    by (rule * [of "''candidate include''"]) (simp add: addresses_def)
  show "(v, stake, ts) \<in> set (voters_include ov) \<Longrightarrow> s \<in> set (v # ts) \<Longrightarrow> parse s = Inr (acct s)"
    by (rule * [of "if s = v then ''voter include'' else ''voter target''"])
      (force simp: addresses_def split: if_splits)
qed

lemma parse_all_as:
  "(\<And>s. s \<in> set ss \<Longrightarrow> parse s = Inr (acct s)) \<Longrightarrow> try_map (parse_as parse what) ss = Inr (List.map acct ss)"
  by (rule try_map_Inr) (simp add: parse_as_def)

lemma include_candidates_fold:
  assumes "\<And>c. c \<in> set cs \<Longrightarrow> parse (fst (candidate_parts c)) = Inr (acct (fst (candidate_parts c)))"
  shows "try_fold (include_candidate parse) cs (candidates, voters) =
    Inr (fold (\<lambda>(k, v). put_entry k v)
           (List.map (\<lambda>c. (acct (fst (candidate_parts c)), ucast (snd (candidate_parts c)))) cs) candidates,
         fold (\<lambda>(k, v). put_entry k v) (self_votes acct cs) voters)"
  using assms
proof (induction cs arbitrary: candidates voters)
  case (Cons c cs)
  then show ?case
    by (simp add: include_candidate_def self_votes_def Let_def parse_as_def case_prod_beta)
qed (simp add: self_votes_def)

lemma voter_map_cases:
  assumes "distinct (keys voters)"
  shows "case voter_map voters a of
      Some i \<Rightarrow> i < length voters \<and> fst (voters ! i) = a
    | None \<Rightarrow> a \<notin> set (keys voters)"
proof (cases "voter_map voters a")
  case None
  have "fst ` set (zip (keys voters) [0 ..< length voters]) = set (keys voters)"
    by (metis length_map length_upt map_fst_zip minus_nat.diff_0 set_map)
  then have "a \<notin> set (keys voters)" using None by (simp add: voter_map_def map_of_eq_None_iff)
  with None show ?thesis by simp
next
  case (Some i)
  then have "(a, i) \<in> set (zip (keys voters) [0 ..< length voters])"
    unfolding voter_map_def by (auto dest: map_of_SomeD)
  with Some show ?thesis by (auto simp: set_zip)
qed

lemma include_voters_fold:
  assumes "distinct (keys voters)" "distinct (List.map (\<lambda>inc. acct (fst inc)) incs)"
    and "\<And>v stake ts s. (v, stake, ts) \<in> set incs \<Longrightarrow> s \<in> set (v # ts) \<Longrightarrow> parse s = Inr (acct s)"
    and "keys now = keys voters @ new" "distinct (keys now)"
    and "\<forall>inc \<in> set incs. acct (fst inc) \<notin> set new"
  shows "\<exists>voters'. try_fold (include_voter parse (voter_map voters)) incs now = Inr voters' \<and>
    distinct (keys voters') \<and>
    map_of voters' = map_of now ++ map_of (rev (List.map (\<lambda>(v, stake, ts). (acct v, stake, List.map acct ts)) incs))"
  using assms(2-)
proof (induction incs arbitrary: now new)
  case (Cons inc incs)
  obtain v stake ts where inc: "inc = (v, stake, ts)" by (metis prod_cases3)
  let ?e = "(stake, List.map acct ts)"
  define upd where "upd = (case voter_map voters (acct v) of
      Some i \<Rightarrow> now[i := (acct v, ?e)] | None \<Rightarrow> now @ [(acct v, ?e)])"
  have parsed: "parse v = Inr (acct v)" "try_map (parse_as parse ''voter target'') ts = Inr (List.map acct ts)"
    using Cons.prems(2) [of v stake ts] by (auto simp: inc intro!: parse_all_as)
  then have step: "include_voter parse (voter_map voters) inc now = Inr upd"
    by (auto simp: include_voter_def inc upd_def parse_as_def split: option.split)
  have upd: "map_of upd = (map_of now)(acct v \<mapsto> ?e) \<and> distinct (keys upd) \<and>
      (\<exists>new'. keys upd = keys voters @ new' \<and> set new' \<subseteq> insert (acct v) (set new))"
  proof (cases "voter_map voters (acct v)")
    case None
    with voter_map_cases [OF assms(1), of "acct v"] Cons.prems(3,5) inc have "acct v \<notin> set (keys now)" by auto
    with None Cons.prems(3,4) show ?thesis by (simp add: upd_def map_of_append_new del: map_of_append)
  next
    case (Some i)
    with voter_map_cases [OF assms(1), of "acct v"] have i: "i < length voters" "fst (voters ! i) = acct v" by auto
    moreover have "i < length now" using i(1) arg_cong [OF Cons.prems(3), of length] by simp
    moreover have "fst (now ! i) = acct v"
      using i arg_cong [OF Cons.prems(3), of "\<lambda>ks. ks ! i"] \<open>i < length now\<close> by (simp add: nth_append)
    ultimately show ?thesis
      using Some Cons.prems(3,4) map_of_list_update [of now i "acct v" ?e] by (auto simp: upd_def)
  qed
  then obtain new' where new': "keys upd = keys voters @ new'" "set new' \<subseteq> insert (acct v) (set new)" by blast
  have "acct (fst inc') \<noteq> acct v" if "inc' \<in> set incs" for inc'
    using Cons.prems(1) that by (auto simp: inc image_def)
  with new'(2) Cons.prems(5) have fresh: "\<forall>inc' \<in> set incs. acct (fst inc') \<notin> set new'" by auto
  have "\<exists>voters'. try_fold (include_voter parse (voter_map voters)) incs upd = Inr voters' \<and>
      distinct (keys voters') \<and> map_of voters' = map_of upd ++
        map_of (rev (List.map (\<lambda>(v, stake, ts). (acct v, stake, List.map acct ts)) incs))"
  proof (rule Cons.IH [OF _ _ new'(1)])
    show "distinct (List.map (\<lambda>inc. acct (fst inc)) incs)" using Cons.prems(1) by simp
    show "parse s = Inr (acct s)" if "(v, stake, ts) \<in> set incs" "s \<in> set (v # ts)" for v stake ts s
      using Cons.prems(2) [of v stake ts s] that by simp
  qed (use upd fresh in auto)
  then obtain voters' where "try_fold (include_voter parse (voter_map voters)) incs upd = Inr voters'"
    "distinct (keys voters')" and last: "map_of voters' = map_of upd ++
        map_of (rev (List.map (\<lambda>(v, stake, ts). (acct v, stake, List.map acct ts)) incs))" by blast
  moreover have "map_of voters' = map_of now ++
      map_of (rev (List.map (\<lambda>(v, stake, ts). (acct v, stake, List.map acct ts)) (inc # incs)))"
    using last upd by (simp only: inc list.map prod.case map_add_rev_Cons)
  ultimately show ?case using step by (intro exI [of _ voters']) (simp only: try_fold.simps and_then_simps simp_thms)
qed simp

text \<open>C8. On data with one entry per account, and overrides whose addresses parse
  and that include no voter twice, the result again has one entry per account,
  and the stake of every candidate and the vote of every account are those of the
  specification.\<close>

theorem apply_overrides_refines:
  assumes "parses parse acct ov" "distinct (keys candidates)" "distinct (keys voters)"
    and "distinct (List.map (\<lambda>inc. acct (fst inc)) (voters_include ov))"
  shows "\<exists>candidates' voters'. apply_overrides parse candidates voters ov = Inr (candidates', voters') \<and>
    distinct (keys candidates') \<and> distinct (keys voters') \<and>
    map_of candidates' = candidates_spec acct ov (map_of candidates) \<and>
    map_of voters' = voters_spec acct ov (map_of voters)"
proof -
  note parsed = parses_fields [OF assms(1)]
  let ?c1 = "filter (\<lambda>c. fst c \<notin> set (List.map acct (candidates_exclude ov))) candidates"
  let ?c2 = "fold (\<lambda>(k, v). put_entry k v)
      (List.map (\<lambda>c. (acct (fst (candidate_parts c)), ucast (snd (candidate_parts c)))) (candidates_include ov)) ?c1"
  let ?v2 = "fold (\<lambda>(k, v). put_entry k v) (self_votes acct (candidates_include ov)) voters"
  let ?v3 = "filter (\<lambda>v. fst v \<notin> set (List.map acct (voters_exclude ov))) ?v2"
  have v2: "distinct (keys ?v2)" using assms(3) by (rule entry.distinct_fold)
  then have v3: "distinct (keys ?v3)" by (rule distinct_filter_keys)
  have "\<exists>v4. try_fold (include_voter parse (voter_map ?v3)) (voters_include ov) ?v3 = Inr v4 \<and>
    distinct (keys v4) \<and> map_of v4 = map_of ?v3 ++
      map_of (rev (List.map (\<lambda>(v, stake, ts). (acct v, stake, List.map acct ts)) (voters_include ov)))"
    by (rule include_voters_fold [OF v3 assms(4), where new = "[]"]) (use parsed(4) v3 in simp_all)
  then obtain v4 where v4: "try_fold (include_voter parse (voter_map ?v3)) (voters_include ov) ?v3 = Inr v4"
    "distinct (keys v4)" "map_of v4 = map_of ?v3 ++
      map_of (rev (List.map (\<lambda>(v, stake, ts). (acct v, stake, List.map acct ts)) (voters_include ov)))" by blast
  have "apply_overrides parse candidates voters ov = Inr (?c2, v4)"
    using v4(1) by (simp add: apply_overrides_def parse_all_as parsed include_candidates_fold)
  moreover have "distinct (keys ?c2)" by (intro entry.distinct_fold distinct_filter_keys assms(2))
  moreover have "map_of ?c2 = candidates_spec acct ov (map_of candidates)"
    by (simp only: entry.lookup_fold map_of_retain candidates_spec_def set_map)
  moreover have "map_of v4 = voters_spec acct ov (map_of voters)"
    by (simp only: v4(3) map_of_retain entry.lookup_fold voters_spec_def set_map)
  ultimately show ?thesis using v4(2) by blast
qed

text \<open>Instances: addresses that parse by their length.\<close>

definition test_parse :: account_parser where
  "test_parse s = (if s = [] then Inl ''empty'' else Inr (AccountId [word_of_nat (length s)]))"

definition test_overrides :: election_overrides where
  "test_overrides =
     \<lparr>candidates_include = [WithSelfStake ''bb'' 7, Address ''ccc''], candidates_exclude = [''a''],
      voters_include = [(''dddd'', 9, [''bb'', ''ccc''])], voters_exclude = [''ccc'']\<rparr>"

theorem apply_overrides_refines_witness:
  "\<exists>candidates' voters'.
     apply_overrides test_parse [(AccountId [1], 5), (AccountId [2], 6)] [(AccountId [2], 6, [AccountId [1]])]
       test_overrides = Inr (candidates', voters') \<and>
     map_of candidates' (AccountId [1]) = None \<and> map_of candidates' (AccountId [2]) = Some 7 \<and>
     map_of candidates' (AccountId [3]) = Some 0 \<and>
     map_of voters' (AccountId [2]) = Some (7, [AccountId [2]]) \<and>
     map_of voters' (AccountId [4]) = Some (9, [AccountId [2], AccountId [3]])"
proof -
  let ?acct = "\<lambda>s. AccountId [word_of_nat (length s)]"
  have "parses test_parse ?acct test_overrides"
    by (simp add: parses_def addresses_def test_overrides_def test_parse_def)
  from apply_overrides_refines [OF this, of "[(AccountId [1], 5), (AccountId [2], 6)]"
      "[(AccountId [2], 6, [AccountId [1]])]"]
  show ?thesis
    by (auto simp: test_overrides_def candidates_spec_def voters_spec_def self_votes_def Let_def)
qed

text \<open>
  A defect: the index map of the voters is not updated while voters are included,
  so that including an account twice that has no vote yet leaves it two votes.
\<close>

theorem included_twice_votes_twice:
  "apply_overrides test_parse [] [] \<lparr>candidates_include = [], candidates_exclude = [],
      voters_include = [(''a'', 5, [''bb'']), (''a'', 7, [''bb''])], voters_exclude = []\<rparr> =
    Inr ([], [(AccountId [1], 5, [AccountId [2]]), (AccountId [1], 7, [AccountId [2]])])"
  by (simp add: apply_overrides_def include_voter_def parse_as_def test_parse_def voter_map_def)

end
