(* ===== verification/Election_Snapshots.thy ===== *)
theory Election_Snapshots
  imports Overrides "HOL-Library.Sublist"
begin

text \<open>
  From election data to the snapshot the election miner works on
  (\<open>convert_election_data_to_snapshots\<close> of
  \<open>src/src/dynamic/election_data.rs\<close>): bounding the targets and votes, dropping
  the weakest voters beyond the capacity, and cutting the voters into pages.  The
  bounds of the chain's miner configuration and the unstable sort of the standard
  library are parameters.
\<close>

subsection \<open>Definitions\<close>

datatype election_data_source = SnapshotSource | StakingSource

text \<open>The bounds of \<open>MinerConfig\<close> that the conversion reads.\<close>

record miner_bounds =
  mb_pages :: u32
  mb_voters_per_page :: u32
  mb_targets_per_page :: u32
  mb_max_votes :: u32

text \<open>\<open>BoundedVec::truncate_from\<close>.\<close>

definition truncate_from :: "u32 \<Rightarrow> 'a list \<Rightarrow> 'a list" where
  "truncate_from bound xs = take (unat bound) xs"

text \<open>
  \<open>sort_unstable_by_key\<close> with a reversed key: a permutation in descending order
  of the key.  The order of equal keys is left open.
\<close>

type_synonym index_sort = "(nat \<Rightarrow> u64) \<Rightarrow> nat list \<Rightarrow> nat list"

definition sorts_descending :: "index_sort \<Rightarrow> bool" where
  "sorts_descending srt \<longleftrightarrow>
     (\<forall>key is. mset (srt key is) = mset is \<and> sorted_wrt (\<lambda>i j. key j \<le> key i) (srt key is))"

definition stake_of :: "nominator_data \<Rightarrow> u64" where
  "stake_of v = fst (snd v)"

definition snapshot_capacity :: "miner_bounds \<Rightarrow> nat" where
  "snapshot_capacity cfg = min (unat (mb_pages cfg) * unat (mb_voters_per_page cfg)) (2 ^ 64 - 1)"

definition drop_weakest :: "index_sort \<Rightarrow> nat \<Rightarrow> nominator_data list \<Rightarrow> nominator_data list" where
  "drop_weakest srt capacity voters =
     (if 0 < capacity \<and> capacity < length voters then
        let by_stake = srt (\<lambda>i. stake_of (voters ! i)) [0 ..< length voters];
            dropped = set (drop capacity by_stake) in
        List.map snd (filter (\<lambda>(index, voter). index \<notin> dropped) (enumerate 0 voters))
      else voters)"

definition bound_votes :: "miner_bounds \<Rightarrow> nominator_data \<Rightarrow> nominator_data" where
  "bound_votes cfg v = (case v of (stash, stake, votes) \<Rightarrow> (stash, stake, truncate_from (mb_max_votes cfg) votes))"

text \<open>Append a voter to the last page, or start a page; \<open>try_push\<close> fails on a full
  page.\<close>

definition push_voter :: "u32 \<Rightarrow> nominator_data \<Rightarrow> nominator_data list list \<Rightarrow> nominator_data list list" where
  "push_voter per_voter_page voter voter_pages =
     (if voter_pages = [] \<or> length (last voter_pages) \<ge> unat per_voter_page then
        voter_pages @ [truncate_from per_voter_page [voter]]
      else if length (last voter_pages) < unat per_voter_page then
        butlast voter_pages @ [last voter_pages @ [voter]]
      else voter_pages @ [truncate_from per_voter_page [voter]])"

definition convert_election_data_to_snapshots ::
  "index_sort \<Rightarrow> miner_bounds \<Rightarrow> validator_data list \<Rightarrow> nominator_data list \<Rightarrow> election_data_source \<Rightarrow>
     account_id list \<times> nominator_data list list" where
  "convert_election_data_to_snapshots srt cfg candidates voters data_source =
     (let target_snapshot = truncate_from (mb_targets_per_page cfg) (List.map fst candidates);
          kept = drop_weakest srt (snapshot_capacity cfg) voters;
          voter_pages = fold (\<lambda>v. push_voter (mb_voters_per_page cfg) (bound_votes cfg v)) kept [] in
      (target_snapshot, if data_source = StakingSource then rev voter_pages else voter_pages))"

subsection \<open>Pages\<close>

lemma chunks_snoc:
  assumes "0 < n"
  shows "chunks n (xs @ [x]) =
    (if chunks n xs = [] \<or> n \<le> length (last (chunks n xs)) then chunks n xs @ [[x]]
     else butlast (chunks n xs) @ [last (chunks n xs) @ [x]])"
  using assms
proof (induction n xs rule: chunks.induct)
  case (1 n xs)
  show ?case
  proof (cases "length xs < n")
    case True
    then have "chunks n (xs @ [x]) = [xs @ [x]]" by (intro chunks_single) simp_all
    moreover have "chunks n xs = (if xs = [] then [] else [xs])" using True by (simp add: chunks_single)
    ultimately show ?thesis using True by simp
  next
    case False
    with 1 have ne: "xs \<noteq> []" by auto
    have "chunks n (xs @ [x]) = take n xs # chunks n (drop n xs @ [x])"
      using False 1(2) by (simp add: chunks.simps [of n "xs @ [x]"])
    moreover have "chunks n xs = take n xs # chunks n (drop n xs)"
      using ne 1(2) by (simp add: chunks.simps [of n xs])
    moreover have "length (take n xs) = n" using False by simp
    ultimately show ?thesis using 1 ne by (cases "chunks n (drop n xs) = []") simp_all
  qed
qed

lemma length_chunks: "length xs \<le> k * n \<Longrightarrow> length (chunks n xs) \<le> k"
proof (induction k arbitrary: xs)
  case (Suc k)
  then have "length (drop n xs) \<le> k * n" by simp
  from Suc.IH [OF this] show ?case by (simp add: chunks.simps [of n xs])
qed simp

lemma push_voters_chunks:
  assumes "per_page \<noteq> 0"
  shows "fold (\<lambda>v. push_voter per_page (f v)) vs [] = chunks (unat per_page) (List.map f vs)"
proof (induction vs rule: rev_induct)
  case (snoc v vs)
  have "0 < unat per_page" using assms by (simp add: unat_gt_0)
  moreover have "truncate_from per_page [f v] = [f v]"
    using \<open>0 < unat per_page\<close> by (cases "unat per_page") (simp_all add: truncate_from_def)
  ultimately show ?case using snoc by (simp add: push_voter_def chunks_snoc)
qed simp

subsection \<open>Dropping voters\<close>

lemma filter_zip_swap:
  "List.map snd (filter (\<lambda>(i, x). i \<in> A) (zip is xs)) = List.map fst (filter (\<lambda>p. snd p \<in> A) (zip xs is))"
proof (induction "is" arbitrary: xs)
  case (Cons i "is")
  then show ?case by (cases xs) simp_all
qed simp

lemma filter_enumerate: "List.map snd (filter (\<lambda>(i, x). i \<in> A) (enumerate 0 xs)) = nths xs A"
  by (simp add: nths_def enumerate_eq_zip filter_zip_swap)

lemma drop_weakest_nths:
  assumes "sorts_descending srt"
  obtains I where "I \<subseteq> {..< length voters}" and "drop_weakest srt capacity voters = nths voters I"
    and "card I = (if capacity = 0 then length voters else min capacity (length voters))"
    and "\<forall>i \<in> I. \<forall>j < length voters. j \<notin> I \<longrightarrow> stake_of (voters ! j) \<le> stake_of (voters ! i)"
proof (cases "0 < capacity \<and> capacity < length voters")
  case True
  let ?key = "\<lambda>i. stake_of (voters ! i)"
  let ?by = "srt ?key [0 ..< length voters]"
  have ranked: "mset ?by = mset [0 ..< length voters]" "sorted_wrt (\<lambda>i j. ?key j \<le> ?key i) ?by"
    using assms by (simp_all add: sorts_descending_def)
  then have set: "set ?by = {..< length voters}" and dist: "distinct ?by"
    using mset_eq_setD [OF ranked(1)] mset_eq_imp_distinct_iff [OF ranked(1)] by (simp_all add: atLeast0LessThan)
  have len: "length ?by = length voters" using mset_eq_length [OF ranked(1)] by simp
  have split: "set (take capacity ?by) \<union> set (drop capacity ?by) = {..< length voters}"
    "set (take capacity ?by) \<inter> set (drop capacity ?by) = {}"
    using set dist set_append [of "take capacity ?by" "drop capacity ?by"]
      distinct_append [of "take capacity ?by" "drop capacity ?by"] by simp_all
  show thesis
  proof (rule that [of "set (take capacity ?by)"])
    show "set (take capacity ?by) \<subseteq> {..< length voters}" using split by auto
    show "drop_weakest srt capacity voters = nths voters (set (take capacity ?by))"
    proof -
      have "filter (\<lambda>(i, v). i \<notin> set (drop capacity ?by)) (enumerate 0 voters) =
          filter (\<lambda>(i, v). i \<in> set (take capacity ?by)) (enumerate 0 voters)"
        using split by (intro filter_cong) (auto simp: enumerate_eq_zip dest!: set_zip_leftD)
      then show ?thesis using True by (simp add: drop_weakest_def Let_def filter_enumerate)
    qed
    show "card (set (take capacity ?by)) =
        (if capacity = 0 then length voters else min capacity (length voters))"
      using True len distinct_card [OF distinct_take [OF dist]] by simp
    show "\<forall>i \<in> set (take capacity ?by). \<forall>j < length voters. j \<notin> set (take capacity ?by) \<longrightarrow> ?key j \<le> ?key i"
    proof (intro ballI allI impI)
      fix i j
      assume that: "i \<in> set (take capacity ?by)" "j < length voters" "j \<notin> set (take capacity ?by)"
      have "j \<in> set (drop capacity ?by)" using split that by blast
      moreover have "sorted_wrt (\<lambda>i j. ?key j \<le> ?key i) (take capacity ?by @ drop capacity ?by)"
        using ranked(2) by (simp only: append_take_drop_id)
      ultimately show "?key j \<le> ?key i" using that(1) unfolding sorted_wrt_append by blast
    qed
  qed
next
  case False
  then have "drop_weakest srt capacity voters = nths voters {..< length voters}"
    by (auto simp: drop_weakest_def)
  then show thesis
    by (rule that [of "{..< length voters}", rotated]) (use False in auto)
qed

lemma length_drop_weakest:
  assumes "sorts_descending srt" "0 < capacity"
  shows "length (drop_weakest srt capacity voters) \<le> capacity"
proof -
  obtain I where I: "I \<subseteq> {..< length voters}" "drop_weakest srt capacity voters = nths voters I"
    "card I = min capacity (length voters)"
    using assms by (metis drop_weakest_nths less_numeral_extra(3))
  have "{i. i < length voters \<and> i \<in> I} = I" using I(1) by auto
  with I show ?thesis by (simp add: length_nths)
qed

subsection \<open>The conversion\<close>

text \<open>The pages in the order in which they were filled.\<close>

definition filled :: "election_data_source \<Rightarrow> 'a list list \<Rightarrow> 'a list list" where
  "filled data_source voter_pages = (if data_source = StakingSource then rev voter_pages else voter_pages)"

lemma snapshot_capacity_bounds:
  assumes "mb_pages cfg \<noteq> 0" "mb_voters_per_page cfg \<noteq> 0"
  shows "0 < snapshot_capacity cfg" "snapshot_capacity cfg \<le> unat (mb_pages cfg) * unat (mb_voters_per_page cfg)"
  using assms by (simp_all add: snapshot_capacity_def unat_gt_0)

text \<open>C9. For any stable or unstable sort, the pages are the chunks of the voters
  kept, in their order (reversed for staking data), none empty or longer than a
  page, and never more than the chain's pages.  The voters kept are as many as
  fit, with none dropped that has more stake than one kept; their votes and the
  targets are cut at their bounds.\<close>

theorem conversion_keeps_strongest:
  assumes "sorts_descending srt" "mb_pages cfg \<noteq> 0" "mb_voters_per_page cfg \<noteq> 0"
    and "convert_election_data_to_snapshots srt cfg candidates voters data_source = (targets, voter_pages)"
  shows "targets = take (unat (mb_targets_per_page cfg)) (List.map fst candidates) \<and>
    length voter_pages \<le> unat (mb_pages cfg) \<and>
    (\<forall>pg \<in> set voter_pages. pg \<noteq> [] \<and> length pg \<le> unat (mb_voters_per_page cfg)) \<and>
    (\<exists>I \<subseteq> {..< length voters}. card I = min (snapshot_capacity cfg) (length voters) \<and>
       filled data_source voter_pages =
         chunks (unat (mb_voters_per_page cfg)) (List.map (bound_votes cfg) (nths voters I)) \<and>
       (\<forall>i \<in> I. \<forall>j < length voters. j \<notin> I \<longrightarrow> stake_of (voters ! j) \<le> stake_of (voters ! i)))"
proof -
  note capacity = snapshot_capacity_bounds [OF assms(2,3)]
  let ?per = "unat (mb_voters_per_page cfg)"
  obtain I where I: "I \<subseteq> {..< length voters}"
    and kept: "drop_weakest srt (snapshot_capacity cfg) voters = nths voters I"
    and card: "card I = (if snapshot_capacity cfg = 0 then length voters else min (snapshot_capacity cfg) (length voters))"
    and strong: "\<forall>i \<in> I. \<forall>j < length voters. j \<notin> I \<longrightarrow> stake_of (voters ! j) \<le> stake_of (voters ! i)"
    by (rule drop_weakest_nths [OF assms(1), where capacity = "snapshot_capacity cfg" and voters = voters])
  let ?chunks = "chunks ?per (List.map (bound_votes cfg) (nths voters I))"
  have conv: "targets = take (unat (mb_targets_per_page cfg)) (List.map fst candidates)"
    "voter_pages = (if data_source = StakingSource then rev ?chunks else ?chunks)"
    using assms(4) kept
    by (simp_all add: convert_election_data_to_snapshots_def Let_def push_voters_chunks [OF assms(3)] truncate_from_def)
  have "length (nths voters I) \<le> unat (mb_pages cfg) * ?per"
    using length_drop_weakest [OF assms(1) capacity(1), of voters] capacity(2) kept by simp
  then have "length ?chunks \<le> unat (mb_pages cfg)" by (intro length_chunks) simp
  moreover have "set voter_pages = set ?chunks" "length voter_pages = length ?chunks" by (simp_all add: conv)
  moreover have "filled data_source voter_pages = ?chunks" by (simp add: conv filled_def)
  moreover have "\<forall>pg \<in> set ?chunks. pg \<noteq> [] \<and> length pg \<le> ?per"
    using chunks_lengths by fastforce
  ultimately show ?thesis using conv(1) I card strong capacity(1) by auto
qed

definition test_bounds :: miner_bounds where
  "test_bounds = \<lparr>mb_pages = 2, mb_voters_per_page = 2, mb_targets_per_page = 5, mb_max_votes = 3\<rparr>"

definition test_voter :: "nat \<Rightarrow> nominator_data" where
  "test_voter n = (AccountId [word_of_nat n], word_of_nat n, [AccountId [1]])"

definition test_sort :: index_sort where
  "test_sort key is = rev (sort_key key is)"

lemma test_sort_descending: "sorts_descending test_sort"
  unfolding sorts_descending_def test_sort_def
proof (intro allI conjI)
  fix key :: "nat \<Rightarrow> u64" and "is" :: "nat list"
  have "sorted_wrt (\<lambda>i j. key i \<le> key j) (sort_key key is)"
    using sorted_sort_key [of key "is"] by (simp add: sorted_map)
  then show "sorted_wrt (\<lambda>i j. key j \<le> key i) (rev (sort_key key is))" by (simp add: sorted_wrt_rev)
qed simp

theorem conversion_keeps_strongest_witness:
  "convert_election_data_to_snapshots test_sort test_bounds [(AccountId [1], 0)]
      (List.map test_voter [9, 3, 8, 7, 6]) StakingSource =
     ([AccountId [1]], [[test_voter 7, test_voter 6], [test_voter 9, test_voter 8]]) \<and>
   length [[test_voter 7, test_voter 6], [test_voter 9, test_voter 8]] \<le> unat (mb_pages test_bounds)"
proof -
  have run: "convert_election_data_to_snapshots test_sort test_bounds [(AccountId [1], 0)]
      (List.map test_voter [9, 3, 8, 7, 6]) StakingSource =
     ([AccountId [1]], [[test_voter 7, test_voter 6], [test_voter 9, test_voter 8]])"
    by (simp add: convert_election_data_to_snapshots_def test_bounds_def test_voter_def test_sort_def
        drop_weakest_def snapshot_capacity_def stake_of_def truncate_from_def push_voter_def bound_votes_def
        upt_rec enumerate_eq_zip)
  from conversion_keeps_strongest [OF test_sort_descending _ _ this] run show ?thesis
    by (simp add: test_bounds_def)
qed

end
