(* ===== verification/Error_Display.thy ===== *)
theory Error_Display
  imports Errors Decimal
begin

text \<open>
  The printed form of errors, from the attributes of \<open>src/src/error.rs\<close>.  The
  debug formats of strings and of election scores are parameters.
\<close>

record debug_formats =
  debug_string :: "string \<Rightarrow> string"
  debug_score :: "election_score \<Rightarrow> string"

primrec subxt_display :: "subxt_error \<Rightarrow> string" where
  "subxt_display (ExtrinsicError e) = e"
| "subxt_display (TransactionFinalizedSuccessError e) = e"
| "subxt_display (TransactionProgressError e) = e"
| "subxt_display (TransactionStatusError e) = e"
| "subxt_display (TransactionEventsError e) = e"
| "subxt_display (OtherRpcClientError e) = e"
| "subxt_display (BackendError e) = e"
| "subxt_display (StorageError e) = e"
| "subxt_display (StorageValueError e) = e"
| "subxt_display (OnlineClientAtBlockError e) = e"
| "subxt_display (BlocksError e) = e"
| "subxt_display (OnlineClientError e) = e"
| "subxt_display (EventsError e) = e"
| "subxt_display (AccountNonceError e) = e"
| "subxt_display (RuntimeApiError e) = e"
| "subxt_display (ConstantError e) = e"
| "subxt_display (StorageKeyError e) = e"
| "subxt_display (OtherSubxtError e) = e"

definition show_word :: "'l::len word \<Rightarrow> string" where
  "show_word w = show_nat (unat w)"

primrec timeout_display :: "timeout_error \<Rightarrow> string" where
  "timeout_display (MiningTimeout secs) = ''Solution mining timed out after '' @ show_word secs @ '' seconds''"
| "timeout_display (CheckExistingSubmissionTimeout secs) =
     ''Checking existing submission timed out after '' @ show_word secs @ '' seconds''"
| "timeout_display (BailTimeout secs) = ''Bail operation timed out after '' @ show_word secs @ '' seconds''"
| "timeout_display (SubmitTimeout secs) = ''Solution submission timed out after '' @ show_word secs @ '' seconds''"
| "timeout_display (PhaseCheckTimeout secs) = ''Phase check timed out after '' @ show_word secs @ '' seconds''"
| "timeout_display (ScoreCheckTimeout secs) = ''Score check timed out after '' @ show_word secs @ '' seconds''"
| "timeout_display (MissingPagesTimeout secs) =
     ''Missing pages submission timed out after '' @ show_word secs @ '' seconds''"
| "timeout_display (InitialConnectionTimeout secs attempt max_attempts) =
     ''Initial connection timed out after '' @ show_word secs @ '' seconds (attempt '' @ show_word attempt @
     ''/'' @ show_word max_attempts @ '')''"

primrec channel_failure_display :: "channel_failure_error \<Rightarrow> string" where
  "channel_failure_display MinerChannel = ''Miner command channel closed unexpectedly''"
| "channel_failure_display EraPruningChannel = ''Era pruning command channel closed unexpectedly''"
| "channel_failure_display ClearOldRoundsChannel = ''Clear old rounds command channel closed unexpectedly''"

primrec task_failure_display :: "task_failure_error \<Rightarrow> string" where
  "task_failure_display ListenerTask = ''Listener task terminated unexpectedly''"
| "task_failure_display MinerTask = ''Miner task terminated unexpectedly''"
| "task_failure_display EraPruningTask = ''Era pruning task terminated unexpectedly''"
| "task_failure_display ClearOldRoundsTask = ''Clear old rounds task terminated unexpectedly''"

text \<open>The directive message ends with an acute accent, two bytes in UTF-8; the
  quotes are backticks.\<close>

definition quoted :: "string \<Rightarrow> string" where
  "quoted s = [CHR 0x60] @ s @ [CHR 0x60]"

primrec error_display :: "debug_formats \<Rightarrow> error \<Rightarrow> string" where
  "error_display dbg (LogParse e) = ''Failed to parse log directive: '' @ [CHR 0x60] @ e @ [CHR 0xC2, CHR 0xB4]"
| "error_display dbg (Io e) = ''I/O error: '' @ quoted e"
| "error_display dbg (Rpc e) = ''RPC error: '' @ quoted e"
| "error_display dbg (Subxt e) = ''subxt error: '' @ quoted (subxt_display e)"
| "error_display dbg (Crypto e) = ''Crypto error: '' @ quoted e"
| "error_display dbg (Codec e) = ''Codec error: '' @ quoted e"
| "error_display dbg AccountDoesNotExists = ''The account does not exist''"
| "error_display dbg (InvalidChain c) =
     ''Invalid chain: '' @ quoted c @ '', staking-miner supports only polkadot, kusama, westend, node and asset-hub-next''"
| "error_display dbg (OtherError e) = ''Other error: '' @ quoted e"
| "error_display dbg (InvalidMetadata e) = ''Invalid metadata: '' @ e"
| "error_display dbg (DynamicTransaction e) = ''Dynamic transaction error: '' @ e"
| "error_display dbg (Feasibility e) = ''Feasibility error: '' @ e"
| "error_display dbg (Join e) = e"
| "error_display dbg EmptySnapshot = ''Empty snapshot''"
| "error_display dbg (MissingTxEvent e) = ''Missing event for transaction: '' @ e"
| "error_display dbg (FailedToSubmitPages n) = ''Failed to submit '' @ show_nat n @ '' pages''"
| "error_display dbg (InsufficientSignedPhaseBlocks blocks_remaining min_blocks) =
     ''Signed phase has insufficient blocks remaining: '' @ show_word blocks_remaining @ '' (need at least '' @
     show_word min_blocks @ '')''"
| "error_display dbg (PhaseChangedDuringSubmission new_phase rnd) =
     ''Phase changed from Signed to '' @ debug_string dbg new_phase @ '' during submission for round '' @ show_word rnd"
| "error_display dbg (SolutionValidation desired_targets solution_winner_count) =
     ''Solution validation failed: desired_targets ('' @ show_word desired_targets @ '') != solution winner count ('' @
     show_word solution_winner_count @ '')''"
| "error_display dbg (WrongPageCount pgs max_pages) =
     ''Wrong page count: solution has '' @ show_word pgs @ '' pages but maximum is '' @ show_word max_pages"
| "error_display dbg (WrongRound solution_round current_round) =
     ''Wrong round: solution is for round '' @ show_word solution_round @ '' but current round is '' @
     show_word current_round"
| "error_display dbg (ScoreBelowMinimum sc minimum) =
     ''Mined solution score '' @ debug_score dbg sc @ '' does not exceed on-chain minimum score '' @
     debug_score dbg minimum @ ''; not submitting to avoid a slashed deposit''"
| "error_display dbg (Timeout e) = ''Operation timed out: '' @ timeout_display e"
| "error_display dbg (SubscriptionRecreationLimitExceeded max_attempts) =
     ''Exceeded maximum subscription recreation attempts ('' @ show_word max_attempts @ '')''"
| "error_display dbg (ChannelFailure e) = ''Channel failure: '' @ channel_failure_display e"
| "error_display dbg (TaskFailure e) = ''Task failure: '' @ task_failure_display e"
| "error_display dbg (SerdeJson e) = ''JSON serialization error: '' @ quoted e"

end
