(* ===== verification/Voter_List.thy ===== *)
theory Voter_List
  imports Keyed_Lists Chain_Api Error_Display
begin

text \<open>
  The voter list of the staking pallet (\<open>fetch_voter_list\<close> of
  \<open>src/src/dynamic/staking.rs\<close>): bags and nodes read from storage, and the walk
  through the linked lists of the bags from the highest bag down, up to a limit.
  The storage iterators are parameters.
\<close>

subsection \<open>Bags and nodes\<close>

record list_node =
  ln_id :: account_id
  ln_prev :: "account_id option"
  ln_next :: "account_id option"
  ln_bag_upper :: u64
  ln_score :: u64

record list_bag =
  lb_head :: "account_id option"
  lb_tail :: "account_id option"

record voter_node =
  vn_id :: account_id
  vn_score :: u64
  vn_next :: "account_id option"
  vn_bag_upper :: u64

text \<open>An account from the last 32 bytes of a key.\<close>

definition tail_account :: "u8 list \<Rightarrow> account_id" where
  "tail_account bytes = AccountId (drop (length bytes - 32) bytes)"

text \<open>\<open>u64::from_le_bytes\<close> on the last eight bytes.\<close>

definition le_u64 :: "u8 list \<Rightarrow> u64" where
  "le_u64 bs = foldr (\<lambda>b acc. ucast b + 256 * acc) bs 0"

definition bag_key :: "u8 list \<Rightarrow> u64" where
  "bag_key key_bytes = (if 8 \<le> length key_bytes then le_u64 (drop (length key_bytes - 8) key_bytes) else 0)"

text \<open>Collecting the bags fails on an iteration error and on a bag that does not
  decode; collecting the nodes passes over short keys and undecodable nodes.\<close>

fun collect_bag ::
  "subxt_error + u8 list \<times> list_bag raw_value \<Rightarrow> (u64 \<times> list_bag) list \<Rightarrow> error + (u64 \<times> list_bag) list" where
  "collect_bag (Inl e) bags = Inl (OtherError (''bags iteration error: '' @ subxt_display e))"
| "collect_bag (Inr (key_bytes, RawMalformed msg)) bags = Inl (Codec msg)"
| "collect_bag (Inr (key_bytes, RawValue bag)) bags = Inr (put_entry (bag_key key_bytes) bag bags)"

definition voter_node_of :: "list_node \<Rightarrow> voter_node" where
  "voter_node_of n = \<lparr>vn_id = ln_id n, vn_score = ln_score n, vn_next = ln_next n, vn_bag_upper = ln_bag_upper n\<rparr>"

fun collect_node ::
  "subxt_error + u8 list \<times> list_node raw_value \<Rightarrow> (account_id \<times> voter_node) list \<Rightarrow>
     error + (account_id \<times> voter_node) list" where
  "collect_node (Inl e) nodes = Inl (OtherError (''node iteration error: '' @ subxt_display e))"
| "collect_node (Inr (key_bytes, node)) nodes =
     (if length key_bytes < 32 then Inr nodes
      else case node of
        RawMalformed _ \<Rightarrow> Inr nodes
      | RawValue list_node \<Rightarrow> Inr (put_entry (ln_id list_node) (voter_node_of list_node) nodes))"

subsection \<open>The walk\<close>

text \<open>
  One bag: the loop leaves it at the limit, at a node that was seen before, at a
  node that is not stored, and at the end of the list.  Every round adds a voter,
  so that the limit bounds the number of rounds.
\<close>

function walk_bag ::
  "(account_id \<times> voter_node) list \<Rightarrow> nat \<Rightarrow> account_id option \<Rightarrow> (account_id \<times> u64) list \<Rightarrow> account_id list \<Rightarrow>
     (account_id \<times> u64) list \<times> account_id list" where
  "walk_bag nodes limit current voters processed =
     (case current of
        None \<Rightarrow> (voters, processed)
      | Some node_id \<Rightarrow>
          if limit \<le> length voters then (voters, processed)
          else if node_id \<in> set processed then (voters, processed)
          else
            (case map_of nodes node_id of
               None \<Rightarrow> (voters, processed @ [node_id])
             | Some node \<Rightarrow>
                 walk_bag nodes limit (vn_next node) (voters @ [(vn_id node, vn_score node)])
                   (processed @ [node_id])))"
  by pat_completeness auto
termination
  by (relation "measure (\<lambda>(nodes, limit, current, voters, processed). limit - length voters)") auto

declare walk_bag.simps [simp del]

primrec walk_bags ::
  "(u64 \<times> list_bag) list \<Rightarrow> (account_id \<times> voter_node) list \<Rightarrow> nat \<Rightarrow> u64 list \<Rightarrow> (account_id \<times> u64) list \<Rightarrow>
     account_id list \<Rightarrow> (account_id \<times> u64) list" where
  "walk_bags bags nodes limit [] voters processed = voters"
| "walk_bags bags nodes limit (bag_upper # rest) voters processed =
     (if limit \<le> length voters then voters
      else case map_of bags bag_upper of
        None \<Rightarrow> walk_bags bags nodes limit rest voters processed
      | Some bag \<Rightarrow>
          if lb_head bag = None then walk_bags bags nodes limit rest voters processed
          else case walk_bag nodes limit (lb_head bag) voters processed of
            (voters', processed') \<Rightarrow> walk_bags bags nodes limit rest voters' processed')"

definition extended_limit :: "nat \<Rightarrow> nat" where
  "extended_limit voter_limit = min (voter_limit + 100) (2 ^ 64 - 1)"

definition voter_list :: "(u64 \<times> list_bag) list \<Rightarrow> (account_id \<times> voter_node) list \<Rightarrow> nat \<Rightarrow> (account_id \<times> u64) list" where
  "voter_list bags nodes voter_limit =
     walk_bags bags nodes (extended_limit voter_limit) (rev (sort (keys bags))) [] []"

subsection \<open>Reading the list\<close>

record 'w list_storage =
  ls_list_bags :: "('w, (subxt_error + u8 list \<times> list_bag raw_value) list) ext"
  ls_list_nodes :: "('w, (subxt_error + u8 list \<times> list_node raw_value) list) ext"

definition fetch_voter_list :: "'w list_storage \<Rightarrow> nat \<Rightarrow> ('w, 'v, 'm, (account_id \<times> u64) list) prog" where
  "fetch_voter_list ls voter_limit =
     io_bind (await (ls_list_bags ls)) (\<lambda>bag_entries.
     io_bind (io_result (try_fold collect_bag bag_entries [])) (\<lambda>bags.
     io_bind (await (ls_list_nodes ls)) (\<lambda>node_entries.
     io_bind (io_result (try_fold collect_node node_entries [])) (\<lambda>nodes.
     ret (voter_list bags nodes voter_limit)))))"

subsection \<open>Any storage\<close>

text \<open>The stored nodes, each under its own account.\<close>

definition nodes_ok :: "(account_id \<times> voter_node) list \<Rightarrow> bool" where
  "nodes_ok nodes \<longleftrightarrow> (\<forall>a n. map_of nodes a = Some n \<longrightarrow> vn_id n = a)"

text \<open>The voters found so far are stored nodes, were all processed, and are no more
  than the limit.\<close>

definition walk_ok :: "(account_id \<times> voter_node) list \<Rightarrow> nat \<Rightarrow> (account_id \<times> u64) list \<Rightarrow> account_id list \<Rightarrow> bool" where
  "walk_ok nodes limit voters processed \<longleftrightarrow>
     distinct (keys voters) \<and> set (keys voters) \<subseteq> set processed \<and> length voters \<le> limit \<and>
     (\<forall>(a, sc) \<in> set voters. \<exists>n. map_of nodes a = Some n \<and> vn_score n = sc)"

lemma walk_bag_ok:
  assumes "nodes_ok nodes" "walk_ok nodes limit voters processed"
    "walk_bag nodes limit current voters processed = (voters', processed')"
  shows "walk_ok nodes limit voters' processed'"
  using assms
proof (induction nodes limit current voters processed rule: walk_bag.induct)
  case (1 nodes limit current voters processed)
  show ?case
  proof (cases "\<exists>a n. current = Some a \<and> length voters < limit \<and> a \<notin> set processed \<and> map_of nodes a = Some n")
    case True
    then obtain a n where step: "current = Some a" "length voters < limit" "a \<notin> set processed" "map_of nodes a = Some n"
      by blast
    have "vn_id n = a" using 1(2) step(4) by (simp add: nodes_ok_def)
    then have "walk_ok nodes limit (voters @ [(vn_id n, vn_score n)]) (processed @ [a])"
      using step 1(3) by (auto simp: walk_ok_def)
    with 1(1) [OF step(1)] 1(2,4) step show ?thesis by (simp add: walk_bag.simps [of _ _ "Some a"])
  next
    case False
    with 1(3,4) show ?thesis
      by (auto simp: walk_bag.simps [of _ _ current] walk_ok_def split: option.splits if_splits)
  qed
qed

lemma walk_bags_ok:
  assumes "nodes_ok nodes" "walk_ok nodes limit voters processed"
  shows "\<exists>processed'. walk_ok nodes limit (walk_bags bags nodes limit us voters processed) processed'"
  using assms(2)
proof (induction us arbitrary: voters processed)
  case (Cons u us)
  show ?case
  proof (cases "limit \<le> length voters")
    case False
    obtain b voters' processed' where "walk_bag nodes limit (lb_head b) voters processed = (voters', processed')"
      if "map_of bags u = Some b" by fastforce
    with False Cons walk_bag_ok [OF assms(1) Cons.prems] show ?thesis
      by (auto split: option.split prod.split)
  qed (use Cons.prems in auto)
qed auto

text \<open>What collecting the nodes gives: stored nodes under their own account.\<close>

definition stored_node :: "(subxt_error + u8 list \<times> list_node raw_value) list \<Rightarrow> account_id \<Rightarrow> u64 \<Rightarrow> bool" where
  "stored_node entries a sc \<longleftrightarrow>
     (\<exists>key node. Inr (key, RawValue node) \<in> set entries \<and> ln_id node = a \<and> ln_score node = sc)"

lemma collect_nodes_ok:
  assumes "try_fold collect_node entries nodes = Inr nodes'" "nodes_ok nodes"
    and "\<And>a n. map_of nodes a = Some n \<Longrightarrow> stored_node all a (vn_score n)" "set entries \<subseteq> set all"
  shows "nodes_ok nodes' \<and> (\<forall>a n. map_of nodes' a = Some n \<longrightarrow> stored_node all a (vn_score n))"
  using assms
proof (induction entries arbitrary: nodes)
  case (Cons e entries)
  obtain mid where mid: "collect_node e nodes = Inr mid" "try_fold collect_node entries mid = Inr nodes'"
    using Cons.prems(1) by (auto simp: and_then_def split: sum.splits)
  have "nodes_ok mid \<and> (\<forall>a n. map_of mid a = Some n \<longrightarrow> stored_node all a (vn_score n))"
  proof (cases "mid = nodes")
    case False
    with mid(1) obtain key node where e: "e = Inr (key, RawValue node)"
      "mid = put_entry (ln_id node) (voter_node_of node) nodes"
      by (cases e) (auto split: if_splits raw_value.splits)
    with Cons.prems(4) have "stored_node all (ln_id node) (ln_score node)"
      unfolding stored_node_def by (metis list.set_intros(1) subsetD)
    with e Cons.prems(2,3) show ?thesis by (auto simp: nodes_ok_def voter_node_of_def)
  qed (use Cons.prems in simp)
  with Cons.IH [OF mid(2)] Cons.prems(4) show ?case by simp
qed simp

text \<open>C12. Whatever the storage holds, also cyclic or broken lists, the walk comes to
  an end, and the voters are distinct accounts, at most a hundred more than the
  limit, each a stored node with its score.\<close>

theorem fetch_voter_list_distinct:
  assumes "fetch_voter_list ls voter_limit s = (Ok voters, t)"
  shows "distinct (keys voters) \<and> length voters \<le> voter_limit + 100 \<and>
    (\<exists>w entries w'. ls_list_nodes ls w = (Ok entries, w') \<and>
       (\<forall>(a, sc) \<in> set voters. stored_node entries a sc))"
proof -
  obtain bags nodes entries w w' where read: "ls_list_nodes ls w = (Ok entries, w')"
    "try_fold collect_node entries [] = Inr nodes" "voters = voter_list bags nodes voter_limit"
    using assms
    unfolding fetch_voter_list_def await_def ok_runs by (elim exE conjE) (rule that, assumption+)
  have nodes: "nodes_ok nodes" "\<And>a n. map_of nodes a = Some n \<Longrightarrow> stored_node entries a (vn_score n)"
    using collect_nodes_ok [OF read(2), of entries] by (auto simp: nodes_ok_def)
  have "walk_ok nodes (extended_limit voter_limit) [] []" by (simp add: walk_ok_def)
  from walk_bags_ok [OF nodes(1) this, of bags "rev (sort (keys bags))"]
  have run: "distinct (keys voters)" "length voters \<le> extended_limit voter_limit"
    "\<forall>(a, sc) \<in> set voters. \<exists>n. map_of nodes a = Some n \<and> vn_score n = sc"
    by (auto simp: read(3) voter_list_def walk_ok_def)
  have "\<forall>(a, sc) \<in> set voters. stored_node entries a sc"
  proof clarify
    fix a sc
    assume "(a, sc) \<in> set voters"
    with run(3) obtain n where "map_of nodes a = Some n" "vn_score n = sc" by auto
    with nodes(2) show "stored_node entries a sc" by blast
  qed
  moreover have "length voters \<le> voter_limit + 100" using run(2) by (simp add: extended_limit_def)
  ultimately show ?thesis using read(1) run(1) by blast
qed

subsection \<open>A well-formed list\<close>

text \<open>The list of a bag, by account and score, as the pointers store it.\<close>

primrec bag_list :: "(account_id \<times> voter_node) list \<Rightarrow> account_id option \<Rightarrow> (account_id \<times> u64) list \<Rightarrow> bool" where
  "bag_list nodes current [] = (current = None)"
| "bag_list nodes current (v # vs) =
     (current = Some (fst v) \<and>
      (\<exists>n. map_of nodes (fst v) = Some n \<and> vn_id n = fst v \<and> vn_score n = snd v \<and> bag_list nodes (vn_next n) vs))"

lemma walk_bag_list:
  assumes "bag_list nodes current vs" "distinct (keys vs)" "set (keys vs) \<inter> set processed = {}"
    "length voters \<le> limit"
  shows "\<exists>processed'. walk_bag nodes limit current voters processed = (take limit (voters @ vs), processed') \<and>
    set processed' \<subseteq> set processed \<union> set (keys vs)"
  using assms
proof (induction vs arbitrary: current voters processed)
  case (Cons v vs)
  then obtain n where n: "current = Some (fst v)" "map_of nodes (fst v) = Some n" "vn_id n = fst v"
    "vn_score n = snd v" "bag_list nodes (vn_next n) vs" by auto
  show ?case
  proof (cases "limit \<le> length voters")
    case False
    with Cons.IH [OF n(5), of "processed @ [fst v]" "voters @ [v]"] Cons.prems obtain processed'
      where "walk_bag nodes limit (vn_next n) (voters @ [v]) (processed @ [fst v]) =
          (take limit (voters @ [v] @ vs), processed')"
        "set processed' \<subseteq> set (processed @ [fst v]) \<union> set (keys vs)" by auto
    with False n Cons.prems(3) show ?thesis by (auto simp: walk_bag.simps [of _ _ "Some (fst v)"])
  qed (use n Cons.prems(4) in \<open>auto simp: walk_bag.simps [of _ _ "Some (fst v)"]\<close>)
qed (auto simp: walk_bag.simps)

lemma take_take_append: "take n (take n xs @ ys) = take n (xs @ ys)"
  by (cases "length xs \<le> n") simp_all

lemma walk_bags_lists:
  assumes "\<And>u. u \<in> set us \<Longrightarrow> \<exists>b. map_of bags u = Some b \<and> bag_list nodes (lb_head b) (members u)"
    and "distinct (keys (concat (List.map members us)))" "set (keys (concat (List.map members us))) \<inter> set processed = {}"
    and "length voters \<le> limit"
  shows "walk_bags bags nodes limit us voters processed = take limit (voters @ concat (List.map members us))"
  using assms
proof (induction us arbitrary: voters processed)
  case (Cons u us)
  then obtain b where b: "map_of bags u = Some b" "bag_list nodes (lb_head b) (members u)" by force
  show ?case
  proof (cases "limit \<le> length voters \<or> lb_head b = None")
    case True
    have "members u = []" if "lb_head b = None" using b(2) that by (cases "members u") simp_all
    with True b Cons show ?thesis by auto
  next
    case False
    from walk_bag_list [OF b(2), of processed voters limit] Cons.prems obtain processed'
      where walk: "walk_bag nodes limit (lb_head b) voters processed = (take limit (voters @ members u), processed')"
        "set processed' \<subseteq> set processed \<union> set (keys (members u))" by auto
    have "set (keys (concat (List.map members us))) \<inter> (set processed \<union> set (keys (members u))) = {}"
      using Cons.prems(2,3) by auto
    then have "set (keys (concat (List.map members us))) \<inter> set processed' = {}"
      using walk(2) by blast
    then have "walk_bags bags nodes limit us (take limit (voters @ members u)) processed' =
        take limit (take limit (voters @ members u) @ concat (List.map members us))"
      using Cons.prems(1,2) by (intro Cons.IH) simp_all
    also have "\<dots> = take limit ((voters @ members u) @ concat (List.map members us))"
      by (rule take_take_append)
    finally show ?thesis using False walk(1) b(1) by auto
  qed
qed simp


subsection \<open>Instances\<close>

text \<open>Two bags: 10 with accounts 2 and 1, and 30 with account 3, whose list ends in a
  pointer to account 2.\<close>

definition test_list_node :: "nat \<Rightarrow> nat option \<Rightarrow> u64 \<Rightarrow> list_node" where
  "test_list_node a nxt sc =
     \<lparr>ln_id = AccountId [word_of_nat a], ln_prev = None, ln_next = map_option (\<lambda>b. AccountId [word_of_nat b]) nxt,
      ln_bag_upper = 10, ln_score = sc\<rparr>"

definition test_bag :: "nat \<Rightarrow> list_bag" where
  "test_bag a = \<lparr>lb_head = Some (AccountId [word_of_nat a]), lb_tail = None\<rparr>"

definition test_bag_key :: "u8 \<Rightarrow> u8 list" where
  "test_bag_key b = [9, b, 0, 0, 0, 0, 0, 0, 0]"

definition test_list :: "nat option \<Rightarrow> 'w list_storage" where
  "test_list last_next =
     \<lparr>ls_list_bags = \<lambda>w. (Ok [Inr (test_bag_key 10, RawValue (test_bag 2)), Inr (test_bag_key 30, RawValue (test_bag 3))], w),
      ls_list_nodes = \<lambda>w. (Ok [Inr (replicate 32 0, RawValue (test_list_node 1 None 4)),
        Inr (replicate 32 0, RawValue (test_list_node 2 (Some 1) 3)), Inr ([1], RawMalformed ''short''),
        Inr (replicate 32 0, RawValue (test_list_node 3 last_next 20))], w)\<rparr>"

lemmas [run_defs] = test_list_def test_list_node_def test_bag_def test_bag_key_def fetch_voter_list_def
  voter_list_def voter_node_of_def bag_key_def le_u64_def extended_limit_def

theorem fetch_voter_list_distinct_witness:
  "\<exists>voters t. fetch_voter_list (test_list (Some 2)) 7 \<lparr>world = (), trace = [] :: unit list\<rparr> = (Ok voters, t) \<and>
     voters = [(AccountId [3], 20), (AccountId [2], 3), (AccountId [1], 4)] \<and>
     distinct (keys voters) \<and> length voters \<le> 7 + 100"
proof -
  let ?s = "\<lparr>world = (), trace = [] :: unit list\<rparr>"
  have "fetch_voter_list (test_list (Some 2)) 7 ?s =
      (Ok [(AccountId [3], 20), (AccountId [2], 3), (AccountId [1], 4)], ?s)"
    by (simp add: run_defs io_defs call_def walk_bag.simps)
  with fetch_voter_list_distinct [OF this] show ?thesis by blast
qed


text \<open>Within a bag the voters keep the order of the list, whatever their scores.\<close>

theorem voter_list_not_by_score:
  "voter_list [(10, test_bag 2)] (List.map (\<lambda>n. (ln_id n, voter_node_of n))
     [test_list_node 1 None 4, test_list_node 2 (Some 1) 3]) 7 = [(AccountId [2], 3), (AccountId [1], 4)]"
  by (simp add: run_defs walk_bag.simps)

end
