(* ===== verification/Node_Runs.thy ===== *)
theory Node_Runs
  imports Trace_Monitor Chain_Api
begin

text \<open>
  Runs against a node that answers: judgements for programs that come back,
  with the part of their trace that a property is about.  Their rules follow
  the program, so that a statement about a whole task is built from what each
  of its steps sends.
\<close>

subsection \<open>Node operations that answer\<close>

text \<open>An operation that always succeeds, one that always succeeds with the same
  value, and one that always comes back, with a result or with an error.\<close>

definition succeeds :: "('w, 'a) ext \<Rightarrow> bool" where
  "succeeds f \<longleftrightarrow> (\<forall>w. \<exists>x. fst (f w) = Ok x)"

definition yields :: "('w, 'a) ext \<Rightarrow> 'a \<Rightarrow> bool" where
  "yields f x \<longleftrightarrow> (\<forall>w. fst (f w) = Ok x)"

definition settled :: "('w, 'a) ext \<Rightarrow> bool" where
  "settled f \<longleftrightarrow> (\<forall>w. (\<exists>x. fst (f w) = Ok x) \<or> (\<exists>e. fst (f w) = Err e))"

subsection \<open>Judgements\<close>

definition visible :: "('v \<Rightarrow> 'b list) \<Rightarrow> 'v list \<Rightarrow> 'b list" where
  "visible P evs = concat (List.map P evs)"

lemma visible_simps [simp]:
  "visible P [] = []" "visible P (ev # evs) = P ev @ visible P evs"
  "visible P (evs @ evs') = visible P evs @ visible P evs'"
  by (simp_all add: visible_def)

text \<open>From \<open>s\<close> to \<open>t\<close> the task's own variables are the same and the trace
  grew by events whose visible part is \<open>rs\<close>.\<close>

definition shows_only ::
  "('v \<Rightarrow> 'b list) \<Rightarrow> ('w, 'v, 'm) sys_scheme \<Rightarrow> ('w, 'v, 'm) sys_scheme \<Rightarrow> 'b list \<Rightarrow> bool" where
  "shows_only P s t rs \<longleftrightarrow>
     sys.more t = sys.more s \<and> (\<exists>evs. trace t = trace s @ evs \<and> visible P evs = rs)"

lemma shows_only_refl [simp]: "shows_only P s (s\<lparr>world := w\<rparr>) []"
  by (simp add: shows_only_def)

lemma shows_only_trans: "shows_only P s t rs \<Longrightarrow> shows_only P t u rs' \<Longrightarrow> shows_only P s u (rs @ rs')"
  by (auto simp: shows_only_def)

definition returns ::
  "('v \<Rightarrow> 'b list) \<Rightarrow> (('w, 'v, 'm) sys_scheme, 'e, 'a) io \<Rightarrow> 'b list \<Rightarrow> bool" where
  "returns P m rs \<longleftrightarrow> (\<forall>s. \<exists>x t. m s = (Ok x, t) \<and> shows_only P s t rs)"

definition settles ::
  "('v \<Rightarrow> 'b list) \<Rightarrow> (('w, 'v, 'm) sys_scheme, 'e, 'a) io \<Rightarrow> 'b list \<Rightarrow> bool" where
  "settles P m rs \<longleftrightarrow>
     (\<forall>s. \<exists>r t. m s = (r, t) \<and> ((\<exists>x. r = Ok x) \<or> (\<exists>e. r = Err e)) \<and> shows_only P s t rs)"

lemma returnsE:
  assumes "returns P m rs"
  obtains x t where "m s = (Ok x, t)" and "shows_only P s t rs"
  using assms unfolding returns_def by blast

lemma settlesE:
  assumes "settles P m rs"
  obtains (Ok) x t where "m s = (Ok x, t)" and "shows_only P s t rs"
    | (Err) e t where "m s = (Err e, t)" and "shows_only P s t rs"
  using assms unfolding settles_def by metis

subsection \<open>Rules\<close>

named_theorems returns_intros \<open>programs that come back\<close>

lemma returns_ret [returns_intros]: "returns P (ret x) []"
  unfolding returns_def by (simp add: ret_def shows_only_def)

lemma returns_emit: "returns P (emit v) (P v)"
  unfolding returns_def by (simp add: emit_def shows_only_def)

lemma returns_await [returns_intros]:
  assumes "succeeds f"
  shows "returns P (await f :: ('w, 'v, 'm, 'a) prog) []"
  unfolding returns_def
proof
  fix s :: "('w, 'v, 'm) sys_scheme"
  from assms obtain x where "fst (f (world s)) = Ok x" unfolding succeeds_def by blast
  then show "\<exists>x t. await f s = (Ok x, t) \<and> shows_only P s t []"
    by (auto simp: await_def io_map_err_def call_def split: prod.split)
qed

lemma returns_bind:
  assumes "returns P m rs" and "\<And>x. returns P (f x) rs'"
  shows "returns P (io_bind m f) (rs @ rs')"
  unfolding returns_def
proof
  fix s
  obtain x t where m: "m s = (Ok x, t)" "shows_only P s t rs" using assms(1) by (rule returnsE)
  obtain y u where "f x t = (Ok y, u)" "shows_only P t u rs'" using assms(2) by (rule returnsE)
  with m show "\<exists>x t. io_bind m f s = (Ok x, t) \<and> shows_only P s t (rs @ rs')"
    by (auto simp: io_bind_def intro: shows_only_trans)
qed

lemma returns_quiet:
  "returns P m [] \<Longrightarrow> (\<And>x. returns P (f x) rs) \<Longrightarrow> returns P (io_bind m f) rs"
  by (rule returns_bind [where rs = "[]", simplified])

lemma returns_fold:
  assumes "\<And>x a. returns P (f x a) (g x)"
  shows "returns P (io_fold f xs a) (concat (List.map g xs))"
  by (induction xs arbitrary: a) (simp_all add: returns_ret returns_bind assms)

lemma settles_returns: "returns P m rs \<Longrightarrow> settles P m rs"
  unfolding returns_def settles_def by blast

lemma settles_bind:
  assumes "returns P m rs" and "\<And>x. settles P (f x) rs'"
  shows "settles P (io_bind m f) (rs @ rs')"
  unfolding settles_def
proof
  fix s
  obtain x t where m: "m s = (Ok x, t)" "shows_only P s t rs" using assms(1) by (rule returnsE)
  have "\<exists>r u. f x t = (r, u) \<and> ((\<exists>x. r = Ok x) \<or> (\<exists>e. r = Err e)) \<and> shows_only P t u rs'"
    using assms(2) unfolding settles_def by blast
  with m show "\<exists>r t. io_bind m f s = (r, t) \<and> ((\<exists>x. r = Ok x) \<or> (\<exists>e. r = Err e)) \<and>
      shows_only P s t (rs @ rs')"
    by (fastforce simp: io_bind_def intro: shows_only_trans)
qed

lemma settles_quiet:
  "returns P m [] \<Longrightarrow> (\<And>x. settles P (f x) rs) \<Longrightarrow> settles P (io_bind m f) rs"
  by (rule settles_bind [where rs = "[]", simplified])

text \<open>After an operation that may fail nothing more is visible.\<close>

lemma settles_await:
  fixes g :: "'a \<Rightarrow> ('w, 'v, 'm, 'c) prog"
  assumes "settled f" and "\<And>x. settles P (g x) []"
  shows "settles P (io_bind (await f) g) []"
  unfolding settles_def
proof
  fix s :: "('w, 'v, 'm) sys_scheme"
  obtain r w where f: "f (world s) = (r, w)" by fastforce
  with assms(1) have "(\<exists>x. r = Ok x) \<or> (\<exists>e. r = Err e)" unfolding settled_def by (metis fst_conv)
  then show "\<exists>r t. io_bind (await f) g s = (r, t) \<and> ((\<exists>x. r = Ok x) \<or> (\<exists>e. r = Err e)) \<and>
      shows_only P s t []"
  proof
    assume "\<exists>x. r = Ok x"
    then obtain x where "await f s = (Ok x, s\<lparr>world := w\<rparr>)"
      using f by (auto simp: await_def io_map_err_def call_def)
    moreover have "\<exists>r t. g x (s\<lparr>world := w\<rparr>) = (r, t) \<and> ((\<exists>x. r = Ok x) \<or> (\<exists>e. r = Err e)) \<and>
        shows_only P (s\<lparr>world := w\<rparr>) t []"
      using assms(2) unfolding settles_def by blast
    ultimately show ?thesis
      using shows_only_trans [of P s "s\<lparr>world := w\<rparr>" "[]" _ "[]"] by (fastforce simp: io_bind_def)
  next
    assume "\<exists>e. r = Err e"
    with f show ?thesis by (auto simp: await_def io_map_err_def call_def io_bind_def)
  qed
qed

lemma returns_try:
  assumes "settles P m rs"
  shows "returns P (io_try m) rs"
  unfolding returns_def
proof
  fix s
  show "\<exists>x t. io_try m s = (Ok x, t) \<and> shows_only P s t rs"
    using assms by (rule settlesE [where s = s]) (simp_all add: io_try_def)
qed

text \<open>The same for a program whose value is known.\<close>

definition gives ::
  "('v \<Rightarrow> 'b list) \<Rightarrow> (('w, 'v, 'm) sys_scheme, 'e, 'a) io \<Rightarrow> 'a \<Rightarrow> 'b list \<Rightarrow> bool" where
  "gives P m x rs \<longleftrightarrow> (\<forall>s. \<exists>t. m s = (Ok x, t) \<and> shows_only P s t rs)"

lemma gives_ret: "gives P (ret x) x []"
  by (simp add: gives_def ret_def shows_only_def)

lemma gives_await:
  assumes "yields f x"
  shows "gives P (await f :: ('w, 'v, 'm, 'a) prog) x []"
  unfolding gives_def
proof
  fix s :: "('w, 'v, 'm) sys_scheme"
  from assms have "fst (f (world s)) = Ok x" unfolding yields_def by blast
  then show "\<exists>t. await f s = (Ok x, t) \<and> shows_only P s t []"
    by (auto simp: await_def io_map_err_def call_def split: prod.split)
qed

lemma gives_try:
  assumes "gives P m x rs"
  shows "gives P (io_try m) (Inr x) rs"
  unfolding gives_def
proof
  fix s
  from assms obtain t where "m s = (Ok x, t)" "shows_only P s t rs" unfolding gives_def by blast
  then show "\<exists>t. io_try m s = (Ok (Inr x), t) \<and> shows_only P s t rs" by (simp add: io_try_def)
qed

lemma gives_timeout:
  assumes "gives P m x rs"
  shows "gives P (io_timeout m) (Some (Inr x)) rs"
  unfolding gives_def
proof
  fix s
  from assms obtain t where "m s = (Ok x, t)" "shows_only P s t rs" unfolding gives_def by blast
  then show "\<exists>t. io_timeout m s = (Ok (Some (Inr x)), t) \<and> shows_only P s t rs" by (simp add: io_timeout_def)
qed

lemma gives_bind:
  assumes "gives P m x rs" and "gives P (f x) y rs'"
  shows "gives P (io_bind m f) y (rs @ rs')"
  unfolding gives_def
proof
  fix s
  from assms(1) obtain t where m: "m s = (Ok x, t)" "shows_only P s t rs" unfolding gives_def by blast
  from assms(2) obtain u where "f x t = (Ok y, u)" "shows_only P t u rs'" unfolding gives_def by blast
  with m show "\<exists>t. io_bind m f s = (Ok y, t) \<and> shows_only P s t (rs @ rs')"
    by (auto simp: io_bind_def intro: shows_only_trans)
qed

lemma gives_quiet: "gives P m x [] \<Longrightarrow> gives P (f x) y rs \<Longrightarrow> gives P (io_bind m f) y rs"
  by (rule gives_bind [where rs = "[]", simplified])

lemma gives_after:
  assumes "returns P m rs" and "\<And>x. gives P (f x) y rs'"
  shows "gives P (io_bind m f) y (rs @ rs')"
  unfolding gives_def
proof
  fix s
  obtain x t where m: "m s = (Ok x, t)" "shows_only P s t rs" using assms(1) by (rule returnsE)
  from assms(2) obtain u where "f x t = (Ok y, u)" "shows_only P t u rs'" unfolding gives_def by blast
  with m show "\<exists>t. io_bind m f s = (Ok y, t) \<and> shows_only P s t (rs @ rs')"
    by (auto simp: io_bind_def intro: shows_only_trans)
qed

lemma returns_gives: "gives P m x rs \<Longrightarrow> returns P m rs"
  unfolding gives_def returns_def by blast

lemma returns_bind_gives:
  assumes "gives P m x rs" and "returns P (f x) rs'"
  shows "returns P (io_bind m f) (rs @ rs')"
  unfolding returns_def
proof
  fix s
  from assms(1) obtain t where m: "m s = (Ok x, t)" "shows_only P s t rs" unfolding gives_def by blast
  obtain y u where "f x t = (Ok y, u)" "shows_only P t u rs'" using assms(2) by (rule returnsE)
  with m show "\<exists>x t. io_bind m f s = (Ok x, t) \<and> shows_only P s t (rs @ rs')"
    by (auto simp: io_bind_def intro: shows_only_trans)
qed

lemma returns_yields:
  "yields f x \<Longrightarrow> returns P (g x) rs \<Longrightarrow> returns P (io_bind (await f) g) rs"
  using returns_bind_gives [OF gives_await] by (metis append_Nil)

subsection \<open>Transactions\<close>

text \<open>A node that takes every transaction, with whatever result.\<close>

definition takes_transactions :: "('w, 'sol) chain_api \<Rightarrow> account_id \<Rightarrow> bool" where
  "takes_transactions api who \<longleftrightarrow>
     succeeds (api_at_current_block api) \<and> (\<forall>h. succeeds (api_at_block api h)) \<and>
     succeeds (api_nonce api who) \<and> (\<forall>x. succeeds (api_create_signed api x)) \<and>
     (\<forall>x. settled (api_submit_and_watch api x)) \<and> (\<forall>tx. settled (api_wait_finalized api tx))"

lemma returns_storage_at_head: "takes_transactions api who \<Longrightarrow> returns P (storage_at_head api) []"
  unfolding storage_at_head_def get_latest_finalized_head_def storage_at_def
  by (auto simp: takes_transactions_def intro!: returns_quiet returns_intros)

lemma settles_send_and_wait:
  assumes "takes_transactions api who" and "P (SentTx x) = rs" and "settles P k []"
  shows "settles P (io_bind (send_tx api x) (\<lambda>tx. io_seq (wait_tx_in_finalized_block api tx) k)) rs"
proof -
  have "settles P (io_seq (emit (SentTx x)) (io_bind (await (api_submit_and_watch api x))
      (\<lambda>tx. io_seq (wait_tx_in_finalized_block api tx) k))) (P (SentTx x) @ [])"
    unfolding wait_tx_in_finalized_block_def
    using assms(1,3) by (intro settles_bind returns_emit settles_await) (simp_all add: takes_transactions_def)
  then show ?thesis
    unfolding send_tx_def io_bind_assoc
    using assms(1,2) by - (rule settles_quiet [OF returns_await], simp_all add: takes_transactions_def)
qed

end
