(* ===== verification/Staking.thy ===== *)
theory Staking
  imports Voter_List Node_Runs
begin

text \<open>
  Election data from the staking pallet (\<open>src/src/dynamic/staking.rs\<close>):
  candidates with their stakes, and voters with their targets, fetched in batches
  that run concurrently and are retried.  A spawned batch runs when it is spawned
  and its handle holds the outcome; the storage is a parameter.
\<close>

subsection \<open>Storage\<close>

record nominations =
  nom_targets :: "account_id list"
  nom_submitted_in :: u32
  nom_suppressed :: bool

text \<open>The fields \<open>active\<close> and \<open>total\<close> of a ledger, where it has them.\<close>

type_synonym ledger = "u128 option \<times> u128 option"

record 'w staking_storage = "'w list_storage" +
  ss_validators :: "('w, (subxt_error + u8 list) list) ext"
  ss_bonded :: "account_id \<Rightarrow> ('w, u8 list option) ext"
  ss_ledger :: "account_id \<Rightarrow> ('w, ledger storage_value option) ext"
  ss_nominators :: "account_id \<Rightarrow> ('w, nominations raw_value option) ext"

subsection \<open>Futures\<close>

text \<open>\<open>join_all\<close>: all results, in order.\<close>

primrec join_all :: "('s, 'e, 'a) io list \<Rightarrow> ('s, 'f, ('e + 'a) list) io" where
  "join_all [] = ret []"
| "join_all (m # ms) = io_bind (io_try m) (\<lambda>r. io_bind (join_all ms) (\<lambda>rs. ret (r # rs)))"

text \<open>\<open>tokio::spawn\<close>, and awaiting a handle: a panic of the task is a join error.\<close>

definition spawn :: "('s, 'e, 'a) io \<Rightarrow> ('s, 'f, ('e, 'a) outcome) io" where
  "spawn m = (\<lambda>s. case m s of (r, t) \<Rightarrow> (Ok r, t))"

definition await_handle :: "(error, 'a) outcome \<Rightarrow> ('s, error, 'a) io" where
  "await_handle h =
     (case h of
        Ok x \<Rightarrow> ret x
      | Err e \<Rightarrow> throw e
      | Panic msg \<Rightarrow> throw (OtherError (''Task join error: '' @ msg))
      | Pending \<Rightarrow> (\<lambda>s. (Pending, s)))"

definition await_all :: "(error, 'a) outcome list \<Rightarrow> ('s, error, unit) io" where
  "await_all hs = (\<lambda>s. (if Pending \<in> set hs then Pending else Ok (), s))"

subsection \<open>Candidates\<close>

fun candidate_account :: "subxt_error + u8 list \<Rightarrow> account_id list \<Rightarrow> error + account_id list" where
  "candidate_account (Inl e) accounts = Inl (OtherError (''storage iteration error: '' @ subxt_display e))"
| "candidate_account (Inr key_bytes) accounts =
     (if length key_bytes < 32 then
        Inl (OtherError (''unexpected key length '' @ show_nat (length key_bytes) @ '' (< 32); cannot decode AccountId''))
      else Inr (accounts @ [tail_account key_bytes]))"

text \<open>The account whose ledger counts: the controller if one is bonded.\<close>

definition ledger_account :: "('w, 'z) staking_storage_scheme \<Rightarrow> account_id \<Rightarrow> ('w, 'v, 'm, account_id) prog" where
  "ledger_account ss account =
     io_bind (await (ss_bonded ss account)) (\<lambda>bonded.
     case bonded of
       None \<Rightarrow> ret account
     | Some controller_bytes \<Rightarrow>
         if length controller_bytes < 32 then throw (OtherError ''Unexpected Bonded key length'')
         else ret (tail_account controller_bytes))"

definition self_stake :: "ledger storage_value option \<Rightarrow> u128" where
  "self_stake l =
     (case l of
        Some (Decodes (Some active, tot)) \<Rightarrow> active
      | Some (Decodes (None, Some tot)) \<Rightarrow> tot
      | _ \<Rightarrow> 0)"

definition fetch_stake :: "('w, 'z) staking_storage_scheme \<Rightarrow> account_id \<Rightarrow> ('w, 'v, 'm, u128) prog" where
  "fetch_stake ss account =
     io_bind (ledger_account ss account) (\<lambda>k.
     io_bind (await (ss_ledger ss k)) (\<lambda>l.
     ret (self_stake l)))"

definition fetch_candidates ::
  "('w, 'z) staking_storage_scheme \<Rightarrow> ('w, 'v, 'm, (account_id \<times> u128) list) prog" where
  "fetch_candidates ss =
     io_bind (await (ss_validators ss)) (\<lambda>entries.
     io_bind (io_result (try_fold candidate_account entries [])) (\<lambda>candidate_accounts.
     io_bind (join_all (List.map (fetch_stake ss) candidate_accounts)) (\<lambda>stakes_results.
     io_bind (io_result (try_map id stakes_results)) (\<lambda>stakes.
     ret (zip candidate_accounts stakes)))))"

subsection \<open>Voters\<close>

fun validator_key :: "subxt_error + u8 list \<Rightarrow> account_id list \<Rightarrow> error + account_id list" where
  "validator_key (Inl e) ks = Inl (OtherError (''storage iteration error: '' @ subxt_display e))"
| "validator_key (Inr key_bytes) ks =
     Inr (if 32 \<le> length key_bytes then hs_insert (tail_account key_bytes) ks else ks)"

definition fetch_validator_keys :: "('w, 'z) staking_storage_scheme \<Rightarrow> ('w, 'v, 'm, account_id list) prog" where
  "fetch_validator_keys ss =
     io_bind (await (ss_validators ss)) (\<lambda>entries.
     io_result (try_fold validator_key entries []))"

text \<open>One voter of a batch: the raw nominations, and the active stake of the ledger,
  cut to 64 bits, in place of the score.\<close>

definition active_stake :: "u64 \<Rightarrow> ledger storage_value option \<Rightarrow> u64" where
  "active_stake score_stake l =
     (case l of Some (Decodes (Some active, tot)) \<Rightarrow> ucast active | _ \<Rightarrow> score_stake)"

definition fetch_voter ::
  "('w, 'z) staking_storage_scheme \<Rightarrow> account_id \<times> u64 \<Rightarrow>
     ('w, 'v, 'm, account_id \<times> u64 \<times> nominations raw_value option) prog" where
  "fetch_voter ss voter =
     (case voter of (account, score_stake) \<Rightarrow>
      io_bind (await (ss_nominators ss account)) (\<lambda>nominator_data.
      io_bind (ledger_account ss account) (\<lambda>k.
      io_bind (await (ss_ledger ss k)) (\<lambda>l.
      ret (account, active_stake score_stake l, nominator_data)))))"

definition targets_of :: "nominations raw_value option \<Rightarrow> account_id list option" where
  "targets_of data =
     (case data of
        None \<Rightarrow> None
      | Some (RawValue n) \<Rightarrow> if \<not> nom_suppressed n then Some (nom_targets n) else Some []
      | Some (RawMalformed _) \<Rightarrow> Some [])"

definition fetch_voter_batch ::
  "('w, 'z) staking_storage_scheme \<Rightarrow> (account_id \<times> u64) list \<Rightarrow>
     ('w, 'v, 'm, (account_id \<times> u64 \<times> account_id list option) list) prog" where
  "fetch_voter_batch ss voters =
     io_bind (join_all (List.map (fetch_voter ss) voters)) (\<lambda>results.
     io_bind (io_result (try_map id results)) (\<lambda>xs.
     ret (List.map (\<lambda>(account, stake, data). (account, stake, targets_of data)) xs)))"

text \<open>Whether a batch is tried again, by the text of its error.\<close>

definition retryable :: "debug_formats \<Rightarrow> error \<Rightarrow> bool" where
  "retryable dbg e =
     (let msg = error_display dbg e in
      contains msg ''limit reached'' \<or> contains msg ''RPC error'' \<or> contains msg ''timeout'')"

text \<open>The attempts of a batch; the argument counts the retries left of eight.\<close>

primrec batch_attempts ::
  "debug_formats \<Rightarrow> ('w, 'z) staking_storage_scheme \<Rightarrow> (account_id \<times> u64) list \<Rightarrow> nat \<Rightarrow>
     ('w, 'sol event, 'm, (account_id \<times> u64 \<times> account_id list option) list) prog" where
  "batch_attempts dbg ss chunk 0 = fetch_voter_batch ss chunk"
| "batch_attempts dbg ss chunk (Suc n) =
     io_bind (io_try (fetch_voter_batch ss chunk)) (\<lambda>r.
     case r of
       Inr results \<Rightarrow> ret results
     | Inl e \<Rightarrow>
         if retryable dbg e then
           io_seq (emit (Slept (1000 * min (2 * 2 ^ (8 - Suc n)) 60))) (batch_attempts dbg ss chunk n)
         else throw e)"

definition eligible ::
  "account_id list \<Rightarrow> account_id \<times> u64 \<times> account_id list option \<Rightarrow> (account_id \<times> u64 \<times> account_id list) list" where
  "eligible validator_keys v =
     (case v of (account, stake, maybe_targets) \<Rightarrow>
        (case maybe_targets of
           Some targets \<Rightarrow> if targets \<noteq> [] then [(account, stake, targets)] else []
         | None \<Rightarrow> if account \<in> set validator_keys then [(account, stake, [account])] else []))"

type_synonym batch_handle = "(error, (account_id \<times> u64 \<times> account_id list option) list) outcome"

text \<open>Spawn a batch per chunk; from ten handles on, the oldest is awaited first.\<close>

primrec spawn_batches ::
  "debug_formats \<Rightarrow> ('w, 'z) staking_storage_scheme \<Rightarrow> account_id list \<Rightarrow> (account_id \<times> u64) list list \<Rightarrow>
     batch_handle list \<Rightarrow> (account_id \<times> u64 \<times> account_id list) list \<Rightarrow>
     ('w, 'sol event, 'm, batch_handle list \<times> (account_id \<times> u64 \<times> account_id list) list) prog" where
  "spawn_batches dbg ss validator_keys [] handles complete = ret (handles, complete)"
| "spawn_batches dbg ss validator_keys (chunk # rest) handles complete =
     io_bind (spawn (batch_attempts dbg ss chunk 8)) (\<lambda>handle.
     let handles' = handles @ [handle] in
     if 10 \<le> length handles' then
       io_bind (await_handle (hd handles')) (\<lambda>results.
       spawn_batches dbg ss validator_keys rest (tl handles')
         (complete @ concat (List.map (eligible validator_keys) results)))
     else spawn_batches dbg ss validator_keys rest handles' complete)"

definition fetch_voters ::
  "debug_formats \<Rightarrow> ('w, 'z) staking_storage_scheme \<Rightarrow> nat \<Rightarrow>
     ('w, 'sol event, 'm, (account_id \<times> u64 \<times> account_id list) list) prog" where
  "fetch_voters dbg ss voter_limit =
     io_bind (fetch_voter_list (list_storage.truncate ss) voter_limit) (\<lambda>voters.
     io_bind (fetch_validator_keys ss) (\<lambda>validator_keys.
     io_bind (spawn_batches dbg ss validator_keys (chunks 20 voters) [] []) (\<lambda>(handles, complete).
     io_seq (await_all handles)
    (io_bind (io_fold (\<lambda>h acc. io_bind (await_handle h) (\<lambda>results.
         ret (acc @ concat (List.map (eligible validator_keys) results)))) handles complete) (\<lambda>complete_voter_data.
     ret (take voter_limit complete_voter_data))))))"

subsection \<open>Against a storage that answers\<close>

text \<open>A storage with fixed contents; a bonded controller is at least 32 bytes.\<close>

record staking_contents =
  sc_bags :: "(u64 \<times> list_bag) list"
  sc_nodes :: "(account_id \<times> voter_node) list"
  sc_validators :: "account_id list"
  sc_bonded :: "account_id \<Rightarrow> u8 list option"
  sc_ledger :: "account_id \<Rightarrow> ledger storage_value option"
  sc_nominators :: "account_id \<Rightarrow> nominations raw_value option"

definition staking_node :: "('w, 'z) staking_storage_scheme \<Rightarrow> staking_contents \<Rightarrow> bool" where
  "staking_node ss c \<longleftrightarrow>
     (\<exists>be ne ve. yields (ls_list_bags ss) be \<and> try_fold collect_bag be [] = Inr (sc_bags c) \<and>
        yields (ls_list_nodes ss) ne \<and> try_fold collect_node ne [] = Inr (sc_nodes c) \<and>
        yields (ss_validators ss) ve \<and> try_fold candidate_account ve [] = Inr (sc_validators c)) \<and>
     (\<forall>a. yields (ss_bonded ss a) (sc_bonded c a) \<and> yields (ss_ledger ss a) (sc_ledger c a) \<and>
        yields (ss_nominators ss a) (sc_nominators c a)) \<and>
     (\<forall>a bytes. sc_bonded c a = Some bytes \<longrightarrow> 32 \<le> length bytes)"

definition controller :: "staking_contents \<Rightarrow> account_id \<Rightarrow> account_id" where
  "controller c a = (case sc_bonded c a of None \<Rightarrow> a | Some bytes \<Rightarrow> tail_account bytes)"

text \<open>The vote of an account of the list: its nominations, or a self-vote of a
  validator without any; the stake is the active stake of its ledger.\<close>

definition npos_vote :: "staking_contents \<Rightarrow> account_id \<times> u64 \<Rightarrow> (account_id \<times> u64 \<times> account_id list) list" where
  "npos_vote c v =
     eligible (sc_validators c)
       (fst v, active_stake (snd v) (sc_ledger c (controller c (fst v))), targets_of (sc_nominators c (fst v)))"

lemma gives_join_all:
  assumes "\<And>x. x \<in> set xs \<Longrightarrow> gives P (m x) (f x) []"
  shows "gives P (join_all (List.map m xs)) (List.map (\<lambda>x. Inr (f x)) xs) []"
  using assms
proof (induction xs)
  case (Cons x xs)
  show ?case
    unfolding list.map join_all.simps
    by (rule gives_quiet [OF gives_try [OF Cons.prems]], simp, rule gives_quiet [OF Cons.IH])
      (simp_all add: Cons.prems gives_ret)
qed (simp add: gives_ret)

lemma try_map_values: "try_map id (List.map (\<lambda>x. Inr (f x)) xs) = Inr (List.map f xs)"
  by (induction xs) simp_all

lemma gives_ledger_account:
  assumes "staking_node ss c"
  shows "gives P (ledger_account ss a) (controller c a) []"
proof -
  from assms have b: "yields (ss_bonded ss a) (sc_bonded c a)"
    "\<And>bytes. sc_bonded c a = Some bytes \<Longrightarrow> 32 \<le> length bytes"
    by (auto simp: staking_node_def)
  show ?thesis
    unfolding ledger_account_def controller_def
    by (rule gives_quiet [OF gives_await [OF b(1)]]) (auto simp: gives_ret dest: b(2) split: option.split)
qed

lemma gives_fetch_voter:
  assumes "staking_node ss c"
  shows "gives P (fetch_voter ss v)
    (fst v, active_stake (snd v) (sc_ledger c (controller c (fst v))), sc_nominators c (fst v)) []"
proof -
  from assms have y: "yields (ss_nominators ss (fst v)) (sc_nominators c (fst v))"
    "yields (ss_ledger ss (controller c (fst v))) (sc_ledger c (controller c (fst v)))"
    by (simp_all add: staking_node_def)
  show ?thesis
    unfolding fetch_voter_def case_prod_beta
    by (rule gives_quiet [OF gives_await [OF y(1)]], rule gives_quiet [OF gives_ledger_account [OF assms]],
        rule gives_quiet [OF gives_await [OF y(2)]]) (rule gives_ret)
qed

lemma gives_fetch_voter_batch:
  assumes "staking_node ss c"
  shows "gives P (fetch_voter_batch ss vs)
    (List.map (\<lambda>v. (fst v, active_stake (snd v) (sc_ledger c (controller c (fst v))), targets_of (sc_nominators c (fst v)))) vs) []"
  unfolding fetch_voter_batch_def
  by (rule gives_quiet [OF gives_join_all [OF gives_fetch_voter [OF assms]]])
    (simp add: try_map_values gives_ret comp_def)

lemma gives_batch_attempts:
  assumes "staking_node ss c"
  shows "gives P (batch_attempts dbg ss vs n)
    (List.map (\<lambda>v. (fst v, active_stake (snd v) (sc_ledger c (controller c (fst v))), targets_of (sc_nominators c (fst v)))) vs) []"
proof (cases n)
  case (Suc m)
  show ?thesis
    unfolding Suc batch_attempts.simps
    by (rule gives_quiet [OF gives_try [OF gives_fetch_voter_batch [OF assms]]]) (simp add: gives_ret)
qed (simp add: gives_fetch_voter_batch [OF assms])

lemma gives_spawn:
  assumes "gives P m x rs"
  shows "gives P (spawn m) (Ok x) rs"
  unfolding gives_def
proof
  fix s
  from assms obtain t where "m s = (Ok x, t)" "shows_only P s t rs" unfolding gives_def by blast
  then show "\<exists>t. spawn m s = (Ok (Ok x), t) \<and> shows_only P s t rs" by (simp add: spawn_def)
qed

text \<open>When every batch succeeds, the handles that are open at the end and the results
  collected by then.\<close>

primrec window :: "('r \<Rightarrow> 'd list) \<Rightarrow> ('c \<Rightarrow> 'r) \<Rightarrow> 'c list \<Rightarrow> 'r list \<Rightarrow> 'd list \<Rightarrow> 'r list \<times> 'd list" where
  "window e f [] rs complete = (rs, complete)"
| "window e f (ch # chs) rs complete =
     (let rs' = rs @ [f ch] in
      if 10 \<le> length rs' then window e f chs (tl rs') (complete @ e (hd rs'))
      else window e f chs rs' complete)"

text \<open>The window changes nothing in what is collected, and in which order.\<close>

lemma window_collects:
  "window e f chs rs complete = (rs', complete') \<Longrightarrow>
     complete' @ concat (List.map e rs') =
     complete @ concat (List.map e rs) @ concat (List.map (\<lambda>ch. e (f ch)) chs)"
proof (induction chs arbitrary: rs complete)
  case (Cons ch chs)
  let ?rs = "rs @ [f ch]"
  have "complete @ e (hd ?rs) @ concat (List.map e (tl ?rs)) = complete @ concat (List.map e ?rs)"
    by (cases rs) simp_all
  then show ?case
    using Cons.prems Cons.IH [of "tl ?rs" "complete @ e (hd ?rs)"] Cons.IH [of ?rs complete]
    by (auto simp: Let_def split: if_splits)
qed simp

lemma gives_spawn_batches:
  assumes "\<And>ch. ch \<in> set chs \<Longrightarrow>
      gives P (batch_attempts dbg ss ch 8 :: (('w, 'sol event, 'm) sys_scheme, _, _) io) (f ch) []"
  shows "gives P (spawn_batches dbg ss ks chs (List.map Ok rs) complete :: (('w, 'sol event, 'm) sys_scheme, _, _) io)
    (case window (\<lambda>results. concat (List.map (eligible ks) results)) f chs rs complete of
       (rs', complete') \<Rightarrow> (List.map Ok rs', complete')) []"
  using assms
proof (induction chs arbitrary: rs complete)
  case (Cons ch chs)
  note spawned = gives_spawn [OF Cons.prems [OF list.set_intros(1)]]
  have hd: "hd (List.map Ok rs @ [Ok (f ch)]) = Ok (hd (rs @ [f ch]))"
    and tl: "tl (List.map Ok rs @ [Ok (f ch)]) = List.map Ok (tl (rs @ [f ch]))"
    by (cases rs; simp)+
  show ?case
    unfolding spawn_batches.simps
    by (rule gives_quiet [OF spawned])
      (use Cons.IH [of "tl (rs @ [f ch])"] Cons.IH [of "rs @ [f ch]"] Cons.prems in
        \<open>simp add: Let_def hd tl await_handle_def\<close>)
qed (simp add: gives_ret)

lemma gives_collect:
  "gives P (io_fold (\<lambda>h acc. io_bind (await_handle h) (\<lambda>rs. ret (acc @ g rs))) (List.map Ok rs) acc)
     (acc @ concat (List.map g rs)) []"
proof (induction rs arbitrary: acc)
  case (Cons r rs)
  from Cons.IH [of "acc @ g r"] show ?case by (simp add: await_handle_def)
qed (simp add: gives_ret)

lemma gives_await_all: "gives P (await_all (List.map Ok rs)) () []"
  by (auto simp: gives_def await_all_def shows_only_def)

lemma validator_keys_set:
  assumes "try_fold candidate_account ve acc = Inr as" "set ks = set acc"
  shows "\<exists>ks'. try_fold validator_key ve ks = Inr ks' \<and> set ks' = set as"
  using assms
proof (induction ve arbitrary: acc ks)
  case (Cons e ve)
  then obtain key_bytes where "e = Inr key_bytes" "32 \<le> length key_bytes"
    "try_fold candidate_account ve (acc @ [tail_account key_bytes]) = Inr as"
    by (cases e) (auto split: if_splits)
  with Cons.IH [of "acc @ [tail_account key_bytes]" "hs_insert (tail_account key_bytes) ks"] Cons.prems(2)
  show ?case by simp
qed simp

lemma eligible_cong: "set ks = set ks' \<Longrightarrow> eligible ks = eligible ks'"
  by (auto simp: eligible_def fun_eq_iff split: option.split)

lemma concat_map_chunks:
  assumes "0 < n"
  shows "concat (List.map (\<lambda>ch. concat (List.map f ch)) (chunks n xs)) = concat (List.map f xs)"
proof -
  have "concat (List.map (\<lambda>ch. concat (List.map f ch)) yss) = concat (List.map f (concat yss))" for yss
    by (induction yss) simp_all
  from this [of "chunks n xs"] show ?thesis by (simp add: concat_chunks assms)
qed

lemma gives_fetch_voter_list:
  assumes "staking_node ss c"
  shows "gives P (fetch_voter_list (list_storage.truncate ss) n) (voter_list (sc_bags c) (sc_nodes c) n) []"
proof -
  from assms obtain be ne where "yields (ls_list_bags (list_storage.truncate ss)) be"
    "try_fold collect_bag be [] = Inr (sc_bags c)"
    "yields (ls_list_nodes (list_storage.truncate ss)) ne" "try_fold collect_node ne [] = Inr (sc_nodes c)"
    by (auto simp: staking_node_def list_storage.truncate_def)
  note y = this
  show ?thesis
    unfolding fetch_voter_list_def
    by (rule gives_quiet [OF gives_await [OF y(1)]], simp add: y(2),
        rule gives_quiet [OF gives_await [OF y(3)]], simp add: y(4) gives_ret)
qed

lemma gives_fetch_candidates:
  assumes "staking_node ss c"
  shows "gives P (fetch_candidates ss)
    (List.map (\<lambda>a. (a, self_stake (sc_ledger c (controller c a)))) (sc_validators c)) []"
proof -
  from assms obtain ve where ve: "yields (ss_validators ss) ve"
    "try_fold candidate_account ve [] = Inr (sc_validators c)" by (auto simp: staking_node_def)
  have stake: "gives P (fetch_stake ss a) (self_stake (sc_ledger c (controller c a))) []" for a
  proof -
    from assms have y: "yields (ss_ledger ss (controller c a)) (sc_ledger c (controller c a))"
      by (simp add: staking_node_def)
    show ?thesis
      unfolding fetch_stake_def
      by (rule gives_quiet [OF gives_ledger_account [OF assms]], rule gives_quiet [OF gives_await [OF y]])
        (rule gives_ret)
  qed
  have zip: "zip xs (List.map f xs) = List.map (\<lambda>x. (x, f x)) xs" for xs and f :: "account_id \<Rightarrow> u128"
    by (induction xs) simp_all
  show ?thesis
    unfolding fetch_candidates_def
    by (rule gives_quiet [OF gives_await [OF ve(1)]], simp add: ve(2),
        rule gives_quiet [OF gives_join_all [OF stake]]) (simp add: try_map_values zip gives_ret)
qed

lemma gives_fetch_voters:
  assumes "staking_node ss c"
  shows "gives P (fetch_voters dbg ss n)
    (take n (concat (List.map (npos_vote c) (voter_list (sc_bags c) (sc_nodes c) n)))) []"
proof -
  let ?vs = "voter_list (sc_bags c) (sc_nodes c) n"
  from assms obtain ve where ve: "yields (ss_validators ss) ve"
    "try_fold candidate_account ve [] = Inr (sc_validators c)" by (auto simp: staking_node_def)
  from validator_keys_set [OF ve(2), of "[]"] obtain ks
    where ks: "try_fold validator_key ve [] = Inr ks" "set ks = set (sc_validators c)" by auto
  have keys: "gives P (fetch_validator_keys ss) ks []"
    unfolding fetch_validator_keys_def
    by (rule gives_quiet [OF gives_await [OF ve(1)]]) (simp add: ks(1) gives_ret)
  define e where "e results = concat (List.map (eligible ks) results)" for results
  define f where "f vs = List.map (\<lambda>v. (fst v, active_stake (snd v) (sc_ledger c (controller c (fst v))),
    targets_of (sc_nominators c (fst v)))) vs" for vs
  obtain rs complete where w: "window e f (chunks 20 ?vs) [] [] = (rs, complete)" by fastforce
  have ef: "(\<lambda>ch. e (f ch)) = (\<lambda>ch. concat (List.map (npos_vote c) ch))"
    by (simp add: fun_eq_iff e_def f_def npos_vote_def [abs_def] comp_def eligible_cong [OF ks(2)])
  have all: "complete @ concat (List.map e rs) = concat (List.map (npos_vote c) ?vs)"
    using window_collects [OF w] by (simp add: ef concat_map_chunks)
  note batches = gives_spawn_batches [where chs = "chunks 20 ?vs" and rs = "[]" and complete = "[]" and ks = ks,
      OF gives_batch_attempts [OF assms]]
  show ?thesis
    unfolding fetch_voters_def
    apply (rule gives_quiet [OF gives_fetch_voter_list [OF assms]])
    apply (rule gives_quiet [OF keys])
    apply (rule gives_quiet [OF batches [simplified]])
    apply (simp add: w [unfolded e_def f_def])
    apply (rule gives_quiet [OF gives_await_all])
    apply (rule gives_quiet [OF gives_collect])
    by (simp only: all [unfolded e_def [abs_def]] gives_ret)
qed

lemma visible_id [simp]: "visible (\<lambda>v. [v]) evs = evs"
  by (induction evs) simp_all

lemma gives_run: "gives (\<lambda>v. [v]) m x [] \<Longrightarrow> \<exists>t. m s = (Ok x, t) \<and> trace t = trace s"
  unfolding gives_def shows_only_def by (metis append_Nil2 visible_id)


subsection \<open>Retries\<close>

lemma silentD: "silent m \<Longrightarrow> m s = (r, t) \<Longrightarrow> trace t = trace s"
  by (simp add: silent_def) (metis snd_conv)

lemma silent_try [silent_intros]: "silent m \<Longrightarrow> silent (io_try m)"
  by (auto simp: silent_def io_try_def split: prod.split outcome.split) (metis snd_conv)+

lemma silent_join_all [silent_intros]: "(\<And>m. m \<in> set ms \<Longrightarrow> silent m) \<Longrightarrow> silent (join_all ms)"
  by (induction ms) (auto intro!: silent_intros)

lemma silent_fetch_voter_batch: "silent (fetch_voter_batch ss voters)"
  unfolding fetch_voter_batch_def fetch_voter_def ledger_account_def
  by (auto intro!: silent_intros split: option.split)

definition backoff_delays :: "nat list" where
  "backoff_delays = [2000, 4000, 8000, 16000, 32000, 60000, 60000, 60000]"

lemma backoff_delay:
  assumes "n < 8"
  shows "drop (8 - Suc n) backoff_delays = 1000 * min (2 * 2 ^ (8 - Suc n)) 60 # drop (8 - n) backoff_delays"
proof -
  from assms have "n \<in> {0, 1, 2, 3, 4, 5, 6, 7}" by auto
  then show ?thesis by (auto simp: backoff_delays_def)
qed

lemma batch_attempts_sleeps:
  assumes "n \<le> 8" "batch_attempts dbg ss chunk n s = (r, t)"
  shows "\<exists>k \<le> n. trace t = trace s @ List.map Slept (take k (drop (8 - n) backoff_delays))"
  using assms
proof (induction n arbitrary: s)
  case 0
  then have "fetch_voter_batch ss chunk s = (r, t)" by simp
  from silentD [OF silent_fetch_voter_batch this] show ?case by simp
next
  case (Suc n)
  obtain q :: "(error, error + (account_id \<times> u64 \<times> account_id list option) list) outcome" and u
    where q: "io_try (fetch_voter_batch ss chunk) s = (q, u)" by fastforce
  note u = silentD [OF silent_try [OF silent_fetch_voter_batch] q]
  show ?case
  proof (cases "\<exists>e. q = Ok (Inl e) \<and> retryable dbg e")
    case False
    with q Suc.prems(2) u show ?thesis
      by (auto simp: io_bind_def ret_def throw_def split: outcome.splits sum.splits if_splits intro!: exI [of _ 0])
  next
    case True
    let ?d = "1000 * min (2 * 2 ^ (8 - Suc n)) 60 :: nat"
    let ?u = "u\<lparr>trace := trace u @ [Slept ?d]\<rparr>"
    from True q Suc.prems(2) have "batch_attempts dbg ss chunk n ?u = (r, t)"
      by (auto simp: io_bind_def emit_def)
    from Suc.IH [OF _ this] Suc.prems(1) obtain k where
      "k \<le> n" "trace t = trace s @ Slept ?d # List.map Slept (take k (drop (8 - n) backoff_delays))"
      by (auto simp: u)
    then show ?thesis
      using backoff_delay [of n] Suc.prems(1) by (intro exI [of _ "Suc k"]) simp
  qed
qed


subsection \<open>Instances\<close>

text \<open>The list of \<open>test_list\<close>: account 3 neither nominates nor validates, account 2
  nominates, and the nominations of account 1 are suppressed.  The one validator has a
  controller.\<close>

definition test_formats :: debug_formats where
  "test_formats = \<lparr>debug_string = \<lambda>s. s, debug_score = \<lambda>_. ''score''\<rparr>"

definition test_ledger :: "account_id \<Rightarrow> ledger storage_value option" where
  "test_ledger a =
     (if a = AccountId (replicate 32 9) then Some (Decodes (Some 70, Some 90))
      else if a = AccountId [2] then Some (Decodes (None, Some 8)) else None)"

definition test_nominations :: "account_id \<Rightarrow> nominations raw_value option" where
  "test_nominations a =
     (if a = AccountId [3] then None
      else Some (RawValue \<lparr>nom_targets = [AccountId [3]], nom_submitted_in = 5, nom_suppressed = (a = AccountId [1])\<rparr>))"

definition test_bonded :: "account_id \<Rightarrow> u8 list option" where
  "test_bonded a = (if a = AccountId (replicate 32 3) then Some (replicate 32 9) else None)"

definition test_staking :: "'w staking_storage" where
  "test_staking = list_storage.extend (test_list None)
     \<lparr>ss_validators = \<lambda>w. (Ok [Inr (replicate 32 3)], w), ss_bonded = \<lambda>a w. (Ok (test_bonded a), w),
      ss_ledger = \<lambda>a w. (Ok (test_ledger a), w), ss_nominators = \<lambda>a w. (Ok (test_nominations a), w)\<rparr>"

definition test_contents :: staking_contents where
  "test_contents =
     \<lparr>sc_bags = [(10, test_bag 2), (30, test_bag 3)],
      sc_nodes = List.map (\<lambda>n. (ln_id n, voter_node_of n))
        [test_list_node 1 None 4, test_list_node 2 (Some 1) 3, test_list_node 3 None 20],
      sc_validators = [AccountId (replicate 32 3)], sc_bonded = test_bonded, sc_ledger = test_ledger,
      sc_nominators = test_nominations\<rparr>"

lemma test_staking_node: "staking_node test_staking test_contents"
proof -
  have "try_fold collect_bag [Inr (test_bag_key 10, RawValue (test_bag 2)), Inr (test_bag_key 30, RawValue (test_bag 3))] [] =
      Inr (sc_bags test_contents)"
    by (simp add: test_contents_def test_bag_key_def bag_key_def le_u64_def)
  moreover have "try_fold collect_node [Inr (replicate 32 0, RawValue (test_list_node 1 None 4)),
      Inr (replicate 32 0, RawValue (test_list_node 2 (Some 1) 3)), Inr ([1], RawMalformed ''short''),
      Inr (replicate 32 0, RawValue (test_list_node 3 None 20))] [] = Inr (sc_nodes test_contents)"
    by (simp add: test_contents_def test_list_node_def)
  moreover have "try_fold candidate_account [Inr (replicate 32 3)] [] = Inr (sc_validators test_contents)"
    by (simp add: test_contents_def tail_account_def)
  moreover have "\<forall>a bytes. test_bonded a = Some bytes \<longrightarrow> 32 \<le> length bytes"
    by (simp add: test_bonded_def)
  ultimately show ?thesis
    unfolding staking_node_def
    by (auto simp: yields_def test_staking_def test_list_def list_storage.extend_def test_contents_def)
qed

lemma single_account: "[x] \<noteq> replicate 32 y" "replicate 32 y \<noteq> [x]"
  by (auto dest: arg_cong [of _ _ length])


text \<open>A storage that drops the first three requests for nominations.\<close>

definition flaky_staking :: "nat staking_storage" where
  "flaky_staking =
     \<lparr>ls_list_bags = \<lambda>w. (Ok [], w), ls_list_nodes = \<lambda>w. (Ok [], w), ss_validators = \<lambda>w. (Ok [], w),
      ss_bonded = \<lambda>a w. (Ok None, w), ss_ledger = \<lambda>a w. (Ok (test_ledger a), w),
      ss_nominators = \<lambda>a w. (if w < 3 then Err (StorageError ''timeout'') else Ok (test_nominations a), Suc w)\<rparr>"

lemma retry_timeout: "retryable dbg (from_subxt (StorageError ''timeout''))"
  by (simp add: retryable_def Let_def quoted_def from_subxt_def)

lemmas flaky_defs = flaky_staking_def fetch_voter_batch_def fetch_voter_def ledger_account_def await_def
  test_ledger_def test_nominations_def active_stake_def targets_of_def single_account

lemma flaky_batch:
  "w < 3 \<Longrightarrow> fetch_voter_batch flaky_staking [(AccountId [2], 3)] \<lparr>world = w, trace = evs\<rparr> =
    (Err (from_subxt (StorageError ''timeout'')), \<lparr>world = Suc w, trace = evs\<rparr>)"
  by (simp add: flaky_defs io_defs)

lemma flaky_drops:
  assumes "w < 3"
  shows "batch_attempts dbg flaky_staking [(AccountId [2], 3)] (Suc n) \<lparr>world = w, trace = evs\<rparr> =
    batch_attempts dbg flaky_staking [(AccountId [2], 3)] n
      \<lparr>world = Suc w, trace = evs @ [Slept (1000 * min (2 * 2 ^ (8 - Suc n)) 60)]\<rparr>"
  using assms by (simp add: flaky_batch io_defs retry_timeout)

lemma flaky_answers:
  "batch_attempts dbg flaky_staking [(AccountId [2], 3)] (Suc n) \<lparr>world = 3, trace = evs\<rparr> =
    (Ok [(AccountId [2], 3, Some [AccountId [3]])], \<lparr>world = 4, trace = evs\<rparr>)"
  by (simp add: flaky_defs io_defs)


end
