(* ===== verification/Snapshot.thy ===== *)
theory Snapshot
  imports Submission Trace_Monitor Decimal Test_Node
begin

text \<open>
  The miner's snapshot cache (\<open>src/src/commands/multi_block/types.rs\<close>) and
  the reads that fill it (\<open>src/src/dynamic/multi_block.rs\<close>).  The cache
  is one of the miner task's variables, so an update that precedes an error
  remains.
\<close>

subsection \<open>The cache\<close>

record snapshot =
  target :: "(target_page \<times> hash) option"
  voter :: "(u32 \<times> (voter_page \<times> hash)) list"
  n_pages :: u32

definition snapshot_new :: "u32 \<Rightarrow> snapshot" where
  "snapshot_new n = \<lparr>target = None, voter = [], n_pages = n\<rparr>"

definition needs_target_snapshot :: "snapshot \<Rightarrow> hash \<Rightarrow> bool" where
  "needs_target_snapshot sn h =
     (case target sn of Some (_, target_hash) \<Rightarrow> target_hash \<noteq> h | None \<Rightarrow> True)"

definition needs_voter_page :: "snapshot \<Rightarrow> u32 \<Rightarrow> hash \<Rightarrow> bool" where
  "needs_voter_page sn page h =
     (case map_of (voter sn) page of Some (_, voter_hash) \<Rightarrow> voter_hash \<noteq> h | None \<Rightarrow> True)"

definition set_target_snapshot :: "target_page \<Rightarrow> hash \<Rightarrow> snapshot \<Rightarrow> snapshot" where
  "set_target_snapshot t h sn = sn\<lparr>target := Some (t, h)\<rparr>"

text \<open>\<open>None\<close> is the failed assertion on the page number.\<close>

definition set_voter_page :: "u32 \<Rightarrow> voter_page \<Rightarrow> hash \<Rightarrow> snapshot \<Rightarrow> snapshot option" where
  "set_voter_page page v h sn =
     (if page < n_pages sn then Some (sn\<lparr>voter := bt_insert page (v, h) (voter sn)\<rparr>) else None)"

definition snapshot_clear :: "snapshot \<Rightarrow> snapshot" where
  "snapshot_clear sn = sn\<lparr>target := None, voter := []\<rparr>"

text \<open>\<open>None\<close> is the panic on a target snapshot that was not fetched.\<close>

definition snapshot_get :: "snapshot \<Rightarrow> (target_page \<times> voter_page list) option" where
  "snapshot_get sn =
     (case target sn of
        Some (t, _) \<Rightarrow> Some (t, List.map (\<lambda>(_, (v, _)). v) (voter sn))
      | None \<Rightarrow> None)"

subsection \<open>The miner's variables\<close>

record ('w, 'sol) miner_sys = "('w, 'sol event) sys" +
  snap :: snapshot
  cached_solution :: "'sol paged_raw_solution option"
  last_outcompeted_round :: "u32 option"

type_synonym ('w, 'sol, 'm, 'a) miner_prog =
  "(('w, 'sol, 'm) miner_sys_scheme, error, 'a) io"

subsection \<open>Reading snapshots\<close>

definition fetch_raw :: "('w, 'v raw_value option) ext \<Rightarrow> ('w, 'e, 'm, 'v) prog" where
  "fetch_raw f =
     io_bind (await f) (\<lambda>val.
     case val of Some v \<Rightarrow> decode_raw v | None \<Rightarrow> throw EmptySnapshot)"

definition target_snapshot ::
  "('w, 'sol) chain_api \<Rightarrow> u32 \<Rightarrow> u32 \<Rightarrow> at_block \<Rightarrow> ('w, 'v, 'm, target_page) prog" where
  "target_snapshot api page rnd at = fetch_raw (api_target_snapshot api at rnd page)"

definition paged_voter_snapshot ::
  "('w, 'sol) chain_api \<Rightarrow> u32 \<Rightarrow> u32 \<Rightarrow> at_block \<Rightarrow> ('w, 'v, 'm, voter_page) prog" where
  "paged_voter_snapshot api page rnd at = fetch_raw (api_voter_snapshot api at rnd page)"

definition target_snapshot_hash ::
  "('w, 'sol) chain_api \<Rightarrow> u32 \<Rightarrow> u32 \<Rightarrow> at_block \<Rightarrow> ('w, 'v, 'm, hash) prog" where
  "target_snapshot_hash api page rnd at = fetch_raw (api_target_snapshot_hash api at rnd page)"

definition paged_voter_snapshot_hash ::
  "('w, 'sol) chain_api \<Rightarrow> u32 \<Rightarrow> u32 \<Rightarrow> at_block \<Rightarrow> ('w, 'v, 'm, hash) prog" where
  "paged_voter_snapshot_hash api page rnd at = fetch_raw (api_voter_snapshot_hash api at rnd page)"

subsection \<open>Updating the cache\<close>

definition check_and_update_voter_snapshot ::
  "('w, 'sol) chain_api \<Rightarrow> u32 \<Rightarrow> u32 \<Rightarrow> at_block \<Rightarrow> ('w, 'sol, 'm, unit) miner_prog" where
  "check_and_update_voter_snapshot api page rnd at =
     io_bind (paged_voter_snapshot_hash api page rnd at) (\<lambda>snapshot_hash.
     io_bind (io_get snap) (\<lambda>sn.
     if needs_voter_page sn page snapshot_hash then
       io_bind (paged_voter_snapshot api page rnd at) (\<lambda>voter_snapshot.
       case set_voter_page page voter_snapshot snapshot_hash sn of
         Some sn' \<Rightarrow> io_modify (\<lambda>s. s\<lparr>snap := sn'\<rparr>)
       | None \<Rightarrow> panic ''Page exceeds the maximum number of pages'')
     else ret ()))"

definition check_and_update_target_snapshot ::
  "('w, 'sol) chain_api \<Rightarrow> u32 \<Rightarrow> u32 \<Rightarrow> at_block \<Rightarrow> ('w, 'sol, 'm, unit) miner_prog" where
  "check_and_update_target_snapshot api page rnd at =
     io_bind (target_snapshot_hash api page rnd at) (\<lambda>snapshot_hash.
     io_bind (io_get snap) (\<lambda>sn.
     if needs_target_snapshot sn snapshot_hash then
       io_bind (target_snapshot api page rnd at) (\<lambda>t.
       io_modify (\<lambda>s. s\<lparr>snap := set_target_snapshot t snapshot_hash sn\<rparr>))
     else ret ()))"

primrec update_voter_pages_lossy ::
  "('w, 'sol) chain_api \<Rightarrow> u32 \<Rightarrow> at_block \<Rightarrow> u32 list \<Rightarrow> ('w, 'sol, 'm, unit) miner_prog" where
  "update_voter_pages_lossy api rnd at [] = ret ()"
| "update_voter_pages_lossy api rnd at (page # rest) =
     io_bind (io_try (check_and_update_voter_snapshot api page rnd at)) (\<lambda>r.
     case r of
       Inr _ \<Rightarrow> update_voter_pages_lossy api rnd at rest
     | Inl e \<Rightarrow> if e = EmptySnapshot then update_voter_pages_lossy api rnd at rest else throw e)"

definition fetch_missing_snapshots_lossy ::
  "('w, 'sol) chain_api \<Rightarrow> at_block \<Rightarrow> u32 \<Rightarrow> ('w, 'sol, 'm, unit) miner_prog" where
  "fetch_missing_snapshots_lossy api at rnd =
     io_bind (io_get (\<lambda>s. n_pages (snap s))) (\<lambda>n.
     io_seq (update_voter_pages_lossy api rnd at (u32_range n))
    (io_seq (io_try (check_and_update_target_snapshot api (n - 1) rnd at))
    (ret ())))"

primrec update_voter_pages ::
  "('w, 'sol) chain_api \<Rightarrow> u32 \<Rightarrow> at_block \<Rightarrow> u32 list \<Rightarrow> ('w, 'sol, 'm, unit) miner_prog" where
  "update_voter_pages api rnd at [] = ret ()"
| "update_voter_pages api rnd at (page # rest) =
     io_seq (check_and_update_voter_snapshot api page rnd at) (update_voter_pages api rnd at rest)"

definition fetch_missing_snapshots ::
  "('w, 'sol) chain_api \<Rightarrow> at_block \<Rightarrow> u32 \<Rightarrow> ('w, 'sol, 'm, unit) miner_prog" where
  "fetch_missing_snapshots api at rnd =
     io_bind (io_get (\<lambda>s. n_pages (snap s))) (\<lambda>n.
     io_seq (update_voter_pages api rnd at (u32_range n))
            (check_and_update_target_snapshot api (n - 1) rnd at))"

primrec fetch_voter_pages ::
  "('w, 'sol) chain_api \<Rightarrow> u32 \<Rightarrow> at_block \<Rightarrow> u32 list \<Rightarrow> voter_page list \<Rightarrow>
     ('w, 'v, 'm, voter_page list) prog" where
  "fetch_voter_pages api rnd at [] acc = ret acc"
| "fetch_voter_pages api rnd at (page # rest) acc =
     io_bind (paged_voter_snapshot api page rnd at) (\<lambda>v.
     fetch_voter_pages api rnd at rest (acc @ [v]))"

text \<open>The uncached read of the prediction; \<open>chain_pages\<close> is \<open>Pages::get()\<close>.\<close>

definition try_fetch_snapshot ::
  "('w, 'sol) chain_api \<Rightarrow> u32 \<Rightarrow> u32 \<Rightarrow> u32 \<Rightarrow> at_block \<Rightarrow>
     ('w, 'v, 'm, target_page \<times> voter_page list) prog" where
  "try_fetch_snapshot api chain_pages n rnd at =
     (if n \<noteq> chain_pages then throw (OtherError (''n_pages must be equal to '' @ show_nat (unat chain_pages)))
      else
        io_bind (target_snapshot api (n - 1) rnd at) (\<lambda>t.
        io_bind (fetch_voter_pages api rnd at (u32_range n) []) (\<lambda>voter_snapshot_paged.
        ret (t, take (unat chain_pages) voter_snapshot_paged))))"

lemmas [run_defs] = fetch_raw_def target_snapshot_def paged_voter_snapshot_def
  target_snapshot_hash_def paged_voter_snapshot_hash_def check_and_update_voter_snapshot_def
  check_and_update_target_snapshot_def fetch_missing_snapshots_def
  fetch_missing_snapshots_lossy_def needs_voter_page_def needs_target_snapshot_def
  set_voter_page_def set_target_snapshot_def snapshot_get_def snapshot_new_def u32_range_def

subsection \<open>Freshness\<close>

text \<open>
  What the cache relies on of the chain.  The storage of a block does not
  change, so every successful read of the snapshots of a round at a block
  gives the same pages \<open>V\<close> and \<open>T\<close>, and the stored hash of a page is the
  hash of that page.
\<close>

definition block_snapshot ::
  "('w, 'sol) chain_api \<Rightarrow> at_block \<Rightarrow> u32 \<Rightarrow> (voter_page \<Rightarrow> hash) \<Rightarrow> (target_page \<Rightarrow> hash) \<Rightarrow>
     (u32 \<Rightarrow> voter_page) \<Rightarrow> target_page \<Rightarrow> bool" where
  "block_snapshot api at rnd HV HT V T \<longleftrightarrow>
     (\<forall>p w v w'. api_voter_snapshot api at rnd p w = (Ok (Some (RawValue v)), w') \<longrightarrow> v = V p) \<and>
     (\<forall>p w h w'. api_voter_snapshot_hash api at rnd p w = (Ok (Some (RawValue h)), w') \<longrightarrow> h = HV (V p)) \<and>
     (\<forall>p w t w'. api_target_snapshot api at rnd p w = (Ok (Some (RawValue t)), w') \<longrightarrow> t = T) \<and>
     (\<forall>p w h w'. api_target_snapshot_hash api at rnd p w = (Ok (Some (RawValue h)), w') \<longrightarrow> h = HT T)"

text \<open>
  A cache is well formed when its keys are pages in order, and every entry is
  stored with its own hash; \<open>CV\<close> and \<open>CT\<close> are the pages seen so far, among
  which hashes do not collide.
\<close>

definition cache_ok ::
  "(voter_page \<Rightarrow> hash) \<Rightarrow> (target_page \<Rightarrow> hash) \<Rightarrow> voter_page set \<Rightarrow> target_page set \<Rightarrow>
     snapshot \<Rightarrow> bool" where
  "cache_ok HV HT CV CT sn \<longleftrightarrow>
     bt_ok (voter sn) \<and>
     (\<forall>(p, v, h) \<in> set (voter sn). p < n_pages sn \<and> v \<in> CV \<and> h = HV v) \<and>
     (case target sn of Some (t, h) \<Rightarrow> t \<in> CT \<and> h = HT t | None \<Rightarrow> True)"

lemma cache_ok_new [simp]: "cache_ok HV HT CV CT (snapshot_new n)"
  by (simp add: cache_ok_def snapshot_new_def bt_ok_def)

lemma cache_ok_clear [simp]: "cache_ok HV HT CV CT (snapshot_clear sn)"
  by (simp add: cache_ok_def snapshot_clear_def bt_ok_def)

lemma bt_insert_entries: "set (bt_insert k v m) \<subseteq> insert (k, v) (set m)"
  by (induction k v m rule: bt_insert.induct) auto

lemma cache_ok_set_voter:
  assumes "cache_ok HV HT CV CT sn" and "v \<in> CV" and "set_voter_page p v (HV v) sn = Some sn'"
  shows "cache_ok HV HT CV CT sn'"
  using assms bt_insert_entries [of p "(v, HV v)" "voter sn"]
  by (fastforce simp: cache_ok_def set_voter_page_def split: if_splits)

lemma cache_ok_set_target:
  "cache_ok HV HT CV CT sn \<Longrightarrow> t \<in> CT \<Longrightarrow> cache_ok HV HT CV CT (set_target_snapshot t (HT t) sn)"
  by (simp add: cache_ok_def set_target_snapshot_def)

lemma decode_raw_Ok: "decode_raw x s = (Ok v, t) \<longleftrightarrow> x = RawValue v \<and> t = s"
  by (cases x) (auto simp: ret_def throw_def)

lemma fetch_raw_Ok:
  "fetch_raw f s = (Ok v, t) \<Longrightarrow>
   \<exists>w. f (world s) = (Ok (Some (RawValue v)), w) \<and> t = s\<lparr>world := w\<rparr>"
  unfolding fetch_raw_def
  by (auto simp: io_bind_eq_Ok await_def io_map_err_def call_def throw_def decode_raw_Ok
      split: prod.splits outcome.splits option.splits)

lemma block_snapshot_reads:
  assumes "block_snapshot api at rnd HV HT V T"
  shows "paged_voter_snapshot api p rnd at s = (Ok v, t) \<Longrightarrow> v = V p \<and> (\<exists>w. t = s\<lparr>world := w\<rparr>)"
    and "paged_voter_snapshot_hash api p rnd at s = (Ok h, t) \<Longrightarrow>
      h = HV (V p) \<and> (\<exists>w. t = s\<lparr>world := w\<rparr>)"
    and "target_snapshot api p rnd at s = (Ok tg, t) \<Longrightarrow> tg = T \<and> (\<exists>w. t = s\<lparr>world := w\<rparr>)"
    and "target_snapshot_hash api p rnd at s = (Ok h, t) \<Longrightarrow> h = HT T \<and> (\<exists>w. t = s\<lparr>world := w\<rparr>)"
  using assms
  unfolding paged_voter_snapshot_def paged_voter_snapshot_hash_def target_snapshot_def
    target_snapshot_hash_def block_snapshot_def
  by - (drule fetch_raw_Ok, blast)+

lemma cached_voter_fresh:
  assumes "cache_ok HV HT CV CT sn" and "inj_on HV CV" and "v \<in> CV"
    and "\<not> needs_voter_page sn p (HV v)"
  shows "map_of (voter sn) p = Some (v, HV v)"
proof -
  from assms(4) obtain u where u: "map_of (voter sn) p = Some (u, HV v)"
    by (auto simp: needs_voter_page_def split: option.splits)
  then have "(p, u, HV v) \<in> set (voter sn)" by (rule map_of_SomeD)
  with assms(1) have "u \<in> CV" "HV v = HV u" by (auto simp: cache_ok_def)
  with assms(2,3) have "u = v" by (auto dest: inj_onD)
  with u show ?thesis by simp
qed

lemma check_and_update_voter_fresh:
  assumes run: "check_and_update_voter_snapshot api p rnd at s = (Ok u, t)"
    and "block_snapshot api at rnd HV HT V T"
    and "inj_on HV CV" and "V p \<in> CV" and "cache_ok HV HT CV CT (snap s)"
  shows "cache_ok HV HT CV CT (snap t) \<and>
    map_of (voter (snap t)) = (map_of (voter (snap s)))(p \<mapsto> (V p, HV (V p))) \<and>
    n_pages (snap t) = n_pages (snap s) \<and> target (snap t) = target (snap s)"
proof -
  from run obtain h s1 where h: "paged_voter_snapshot_hash api p rnd at s = (Ok h, s1)"
    and rest: "(if needs_voter_page (snap s1) p h then
       io_bind (paged_voter_snapshot api p rnd at) (\<lambda>v.
         case set_voter_page p v h (snap s1) of
           Some sn' \<Rightarrow> io_modify (\<lambda>s. s\<lparr>snap := sn'\<rparr>)
         | None \<Rightarrow> panic ''Page exceeds the maximum number of pages'')
       else ret ()) s1 = (Ok u, t)"
    unfolding check_and_update_voter_snapshot_def by (auto simp: io_bind_eq_Ok io_get_def)
  from block_snapshot_reads(2) [OF assms(2) h] have h': "h = HV (V p)" "snap s1 = snap s"
    by auto
  show ?thesis
  proof (cases "needs_voter_page (snap s) p h")
    case True
    with rest h' obtain v s2 where v: "paged_voter_snapshot api p rnd at s1 = (Ok v, s2)"
      and set: "(case set_voter_page p v h (snap s) of
           Some sn' \<Rightarrow> io_modify (\<lambda>s. s\<lparr>snap := sn'\<rparr>)
         | None \<Rightarrow> panic ''Page exceeds the maximum number of pages'') s2
        = (Ok u :: (error, unit) outcome, t)"
      by (auto simp: io_bind_eq_Ok)
    from block_snapshot_reads(1) [OF assms(2) v] have v': "v = V p" by simp
    from set v' h' obtain sn' where sn': "set_voter_page p (V p) (HV (V p)) (snap s) = Some sn'"
      "snap t = sn'"
      by (auto simp: io_modify_def panic_def split: option.splits)
    then have "sn' = (snap s)\<lparr>voter := bt_insert p (V p, HV (V p)) (voter (snap s))\<rparr>"
      by (simp add: set_voter_page_def split: if_splits)
    then have "map_of (voter sn') = (map_of (voter (snap s)))(p \<mapsto> (V p, HV (V p)))"
      "n_pages sn' = n_pages (snap s)" "target sn' = target (snap s)" by simp_all
    with cache_ok_set_voter [OF assms(5,4) sn'(1)] sn'(2) show ?thesis by simp
  next
    case False
    with rest h' have "snap t = snap s" by (simp add: ret_def)
    with False cached_voter_fresh [OF assms(5,3,4)] h' assms(5) show ?thesis
      by (auto simp: fun_eq_iff)
  qed
qed

lemma check_and_update_target_fresh:
  assumes run: "check_and_update_target_snapshot api p rnd at s = (Ok u, t)"
    and "block_snapshot api at rnd HV HT V T"
    and "inj_on HT CT" and "T \<in> CT" and "cache_ok HV HT CV CT (snap s)"
  shows "cache_ok HV HT CV CT (snap t) \<and> target (snap t) = Some (T, HT T) \<and>
    voter (snap t) = voter (snap s) \<and> n_pages (snap t) = n_pages (snap s)"
proof -
  from run obtain h s1 where h: "target_snapshot_hash api p rnd at s = (Ok h, s1)"
    and rest: "(if needs_target_snapshot (snap s1) h then
       io_bind (target_snapshot api p rnd at) (\<lambda>t.
         io_modify (\<lambda>s. s\<lparr>snap := set_target_snapshot t h (snap s1)\<rparr>))
       else ret ()) s1 = (Ok u, t)"
    unfolding check_and_update_target_snapshot_def by (auto simp: io_bind_eq_Ok io_get_def)
  from block_snapshot_reads(4) [OF assms(2) h] have h': "h = HT T" "snap s1 = snap s"
    by auto
  show ?thesis
  proof (cases "needs_target_snapshot (snap s) h")
    case True
    with rest h' obtain tg s2 where "target_snapshot api p rnd at s1 = (Ok tg, s2)"
      and set: "snap t = set_target_snapshot tg h (snap s)"
      by (auto simp: io_bind_eq_Ok io_modify_def)
    with block_snapshot_reads(3) [OF assms(2)] have "tg = T" by blast
    with set h' show ?thesis
      using cache_ok_set_target [OF assms(5,4)] by (simp add: set_target_snapshot_def)
  next
    case False
    with rest h' have same: "snap t = snap s" by (simp add: ret_def)
    from False h' obtain tg where "target (snap s) = Some (tg, HT T)"
      by (auto simp: needs_target_snapshot_def split: option.splits)
    moreover from this assms(3-5) have "tg = T" by (auto simp: cache_ok_def dest: inj_onD)
    ultimately show ?thesis using same assms(5) by simp
  qed
qed

lemma update_voter_pages_fresh:
  assumes "update_voter_pages api rnd at ps s = (Ok u, t)"
    and "block_snapshot api at rnd HV HT V T"
    and "inj_on HV CV" and "\<forall>p \<in> set ps. V p \<in> CV" and "cache_ok HV HT CV CT (snap s)"
  shows "cache_ok HV HT CV CT (snap t) \<and>
    (\<forall>p. map_of (voter (snap t)) p =
       (if p \<in> set ps then Some (V p, HV (V p)) else map_of (voter (snap s)) p)) \<and>
    n_pages (snap t) = n_pages (snap s)"
  using assms
proof (induction ps arbitrary: s)
  case Nil
  then show ?case by (simp add: ret_def)
next
  case (Cons p ps)
  from Cons.prems(1) obtain s1 where
    first: "check_and_update_voter_snapshot api p rnd at s = (Ok (), s1)" and
    rest: "update_voter_pages api rnd at ps s1 = (Ok u, t)"
    by (auto simp: io_bind_eq_Ok)
  from check_and_update_voter_fresh [OF first Cons.prems(2,3) _ Cons.prems(5)] Cons.prems(4)
  have s1: "cache_ok HV HT CV CT (snap s1)" "n_pages (snap s1) = n_pages (snap s)"
    "map_of (voter (snap s1)) = (map_of (voter (snap s)))(p \<mapsto> (V p, HV (V p)))"
    by auto
  from Cons.IH [OF rest Cons.prems(2,3) _ s1(1)] Cons.prems(4) s1 show ?case by auto
qed

text \<open>A well-formed cache with an entry for every page lists the pages in order.\<close>

lemma sorted_u32_range: "sorted_wrt (<) (u32_range n)"
  unfolding u32_range_def sorted_wrt_map
proof (rule sorted_wrt_mono_rel [OF _ sorted_wrt_upt])
  fix i j
  assume "j \<in> set [0 ..< unat n]" and "i < j"
  then have "i < unat n" "j < unat n" by auto
  then have "unat (word_of_nat i :: u32) = i" "unat (word_of_nat j :: u32) = j"
    by (simp_all only: unat_in_range)
  with \<open>i < j\<close> show "word_of_nat i < (word_of_nat j :: u32)"
    by (simp add: word_less_nat_alt)
qed

lemma cache_lists_pages:
  assumes "cache_ok HV HT CV CT sn"
    and "\<forall>p < n_pages sn. map_of (voter sn) p = Some (V p, HV (V p))"
  shows "List.map (\<lambda>(_, (v, _)). v) (voter sn) = List.map V (u32_range (n_pages sn))"
proof -
  have keys: "List.map fst (voter sn) = u32_range (n_pages sn)"
  proof (rule strict_sorted_equal)
    show "sorted_wrt (<) (u32_range (n_pages sn))" by (rule sorted_u32_range)
    show "sorted_wrt (<) (List.map fst (voter sn))" using assms(1) by (simp add: cache_ok_def bt_ok_def)
    have "fst ` set (voter sn) \<subseteq> {i. i < n_pages sn}" using assms(1) by (force simp: cache_ok_def)
    moreover have "{i. i < n_pages sn} \<subseteq> fst ` set (voter sn)"
      using assms(2) by (force dest: map_of_SomeD)
    ultimately show "set (List.map fst (voter sn)) = set (u32_range (n_pages sn))" by auto
  qed
  have "(case e of (_, (v, _)) \<Rightarrow> v) = V (fst e)" if "e \<in> set (voter sn)" for e
  proof -
    obtain p v h where e: "e = (p, v, h)" by (cases e) auto
    have "distinct (List.map fst (voter sn))" by (simp add: keys)
    with that e have "map_of (voter sn) p = Some (v, h)" by simp
    moreover have "p < n_pages sn" using assms(1) that e by (auto simp: cache_ok_def)
    ultimately show ?thesis using assms(2) e by simp
  qed
  then have "List.map (\<lambda>(_, (v, _)). v) (voter sn) = List.map (V \<circ> fst) (voter sn)"
    by (intro map_cong) (auto simp: comp_def)
  then show ?thesis by (simp flip: keys)
qed

text \<open>C17. When \<open>fetch_missing_snapshots\<close> succeeds, the cache holds exactly the
  snapshot of the block it read, whatever was cached before: the targets, and
  the voter pages \<open>0 .. n - 1\<close> in order.  This assumes the documented behaviour
  of block storage and that the hashes of the pages involved do not collide.\<close>

theorem fetch_missing_snapshots_fresh:
  assumes "fetch_missing_snapshots api at rnd s = (Ok u, t)"
    and "block_snapshot api at rnd HV HT V T"
    and "cache_ok HV HT CV CT (snap s)"
    and "inj_on HV CV" and "\<forall>p < n_pages (snap s). V p \<in> CV"
    and "inj_on HT CT" and "T \<in> CT"
  shows "snapshot_get (snap t) = Some (T, List.map V (u32_range (n_pages (snap s)))) \<and>
    cache_ok HV HT CV CT (snap t) \<and> n_pages (snap t) = n_pages (snap s)"
proof -
  let ?n = "n_pages (snap s)"
  from assms(1) obtain s1 where
    voters: "update_voter_pages api rnd at (u32_range ?n) s = (Ok (), s1)" and
    targets: "check_and_update_target_snapshot api (?n - 1) rnd at s1 = (Ok u, t)"
    unfolding fetch_missing_snapshots_def by (auto simp: io_bind_eq_Ok io_get_def)
  from update_voter_pages_fresh [OF voters assms(2,4) _ assms(3)] assms(5)
  have s1: "cache_ok HV HT CV CT (snap s1)" "n_pages (snap s1) = ?n"
    "\<forall>p < ?n. map_of (voter (snap s1)) p = Some (V p, HV (V p))"
    by auto
  from check_and_update_target_fresh [OF targets assms(2,6,7) s1(1)]
  have t: "cache_ok HV HT CV CT (snap t)" "target (snap t) = Some (T, HT T)"
    "voter (snap t) = voter (snap s1)" "n_pages (snap t) = ?n"
    using s1(2) by auto
  with s1(3) have "List.map (\<lambda>(_, (v, _)). v) (voter (snap t)) = List.map V (u32_range ?n)"
    by (subst cache_lists_pages [OF t(1), of V]) simp_all
  with t show ?thesis by (simp add: snapshot_get_def)
qed

definition test_miner :: "(test_world, nat) miner_sys" where
  "test_miner =
     \<lparr>world = [], trace = [],
      snap = \<lparr>target = None, voter = [(0, (test_voters 7, 7))], n_pages = 2\<rparr>,
      cached_solution = None, last_outcompeted_round = None\<rparr>"

theorem fetch_missing_snapshots_fresh_witness:
  "snapshot_get (snap (snd (fetch_missing_snapshots (test_node [] (Signed 10) None) test_block 1 test_miner)))
     = Some ([test_account], [test_voters 0, test_voters 1])"
proof -
  let ?api = "test_node [] (Signed 10) None"
  let ?run = "fetch_missing_snapshots ?api test_block 1 test_miner"
  let ?CV = "{test_voters 0, test_voters 1, test_voters 7}"
  have ok: "fst ?run = Ok ()"
    by (simp add: run_defs io_defs test_miner_def upt_rec)
  have "block_snapshot ?api test_block 1 test_voter_hash (\<lambda>_. 5) test_voters [test_account]"
    by (simp add: block_snapshot_def test_node_def)
  moreover have "cache_ok test_voter_hash (\<lambda>_. 5) ?CV {[test_account]} (snap test_miner)"
    by (simp add: cache_ok_def test_miner_def bt_ok_def test_voter_hash_def test_voters_def)
  moreover have "inj_on test_voter_hash ?CV"
    by (simp add: inj_on_def test_voter_hash_def test_voters_def)
  moreover have "\<forall>p < n_pages (snap test_miner). test_voters p \<in> ?CV"
  proof (intro allI impI)
    fix p :: u32
    assume "p < n_pages (snap test_miner)"
    then have "p \<in> set (u32_range 2)" by (simp add: test_miner_def)
    then show "test_voters p \<in> ?CV" by (auto simp: u32_range_def upt_rec simp del: set_u32_range)
  qed
  ultimately show ?thesis
    using fetch_missing_snapshots_fresh [of ?api test_block 1 test_miner "()" "snd ?run"
        test_voter_hash "\<lambda>_. 5" test_voters "[test_account]" ?CV "{[test_account]}"] ok
    by (simp add: test_miner_def prod_eq_iff u32_range_def upt_rec)
qed

end
