(* ===== verification/Options.thy ===== *)
theory Options
  imports Decimal Errors
begin

text \<open>
  Command-line values: the submission strategy with its parser and the score
  comparisons it selects (\<open>src/src/commands/types.rs\<close>,
  \<open>src/src/utils.rs\<close>), and the chain names of \<open>src/src/opt.rs\<close>.  The
  comparisons of \<open>sp_npos_elections\<close> and the percentages of \<open>sp_runtime\<close>
  are parameters.
\<close>

subsection \<open>Score comparisons\<close>

type_synonym perbill = u32

record score_ops =
  strict_threshold_better :: "election_score \<Rightarrow> election_score \<Rightarrow> perbill \<Rightarrow> bool"
  strict_better :: "election_score \<Rightarrow> election_score \<Rightarrow> bool"
  perbill_zero :: perbill
  perbill_from_percent :: "u32 \<Rightarrow> perbill"

datatype submission_strategy =
    Always
  | IfLeading
  | ClaimNoWorseThan perbill
  | ClaimBetterThan perbill

definition score_passes_strategy ::
  "score_ops \<Rightarrow> election_score \<Rightarrow> election_score \<Rightarrow> submission_strategy \<Rightarrow> bool" where
  "score_passes_strategy ops our_score best_score strategy =
     (case strategy of
        Always \<Rightarrow> True
      | IfLeading \<Rightarrow> strict_threshold_better ops our_score best_score (perbill_zero ops)
      | ClaimBetterThan epsilon \<Rightarrow> strict_threshold_better ops our_score best_score epsilon
      | ClaimNoWorseThan epsilon \<Rightarrow> \<not> strict_threshold_better ops best_score our_score epsilon)"

definition meets_minimum_score ::
  "score_ops \<Rightarrow> election_score \<Rightarrow> election_score option \<Rightarrow> bool" where
  "meets_minimum_score ops sc minimum =
     (case minimum of None \<Rightarrow> True | Some mn \<Rightarrow> strict_better ops sc mn)"

text \<open>
  The order that \<open>strict_better\<close> is documented to be: lexicographic, higher
  minimal stake, then higher sum, then lower sum of squares.
\<close>

definition lex_better :: "election_score \<Rightarrow> election_score \<Rightarrow> bool" where
  "lex_better a b =
     (minimal_stake b < minimal_stake a \<or>
      minimal_stake a = minimal_stake b \<and>
        (sum_stake b < sum_stake a \<or>
         sum_stake a = sum_stake b \<and> sum_stake_squared a < sum_stake_squared b))"

subsection \<open>Parsing a strategy\<close>

definition strategy_from_str :: "score_ops \<Rightarrow> string \<Rightarrow> string + submission_strategy" where
  "strategy_from_str ops str =
     (let s = trim str in
      if s = ''if-leading'' then Inr IfLeading
      else if s = ''always'' then Inr Always
      else case strip_prefix ''no-worse-than '' s of
        Some percent \<Rightarrow>
          (case parse_u32 percent of
             Inl e \<Rightarrow> Inl (debug_parse_int_error e)
           | Inr p \<Rightarrow> Inr (ClaimNoWorseThan (perbill_from_percent ops p)))
      | None \<Rightarrow>
        (case strip_prefix ''percent-better '' s of
           Some percent \<Rightarrow>
             (case parse_u32 percent of
                Inl e \<Rightarrow> Inl (debug_parse_int_error e)
              | Inr p \<Rightarrow> Inr (ClaimBetterThan (perbill_from_percent ops p)))
         | None \<Rightarrow> Inl s))"

datatype election_algorithm = SeqPhragmen | Phragmms

subsection \<open>Chains\<close>

datatype chain = Westend | Kusama | Polkadot | SubstrateNode | StakingAsync

definition chain_display :: "chain \<Rightarrow> string" where
  "chain_display c =
     (case c of
        Polkadot \<Rightarrow> ''polkadot''
      | Kusama \<Rightarrow> ''kusama''
      | Westend \<Rightarrow> ''westend''
      | SubstrateNode \<Rightarrow> ''node''
      | StakingAsync \<Rightarrow> ''staking-async'')"

text \<open>The \<open>unimplemented!\<close> arm is a panic.\<close>

definition chain_from_str :: "string \<Rightarrow> (error, chain) outcome" where
  "chain_from_str s =
     (if s = ''polkadot'' then Ok Polkadot
      else if s = ''statemint'' then Ok Polkadot
      else if s = ''asset-hub-paseo'' then Ok Polkadot
      else if s = ''kusama'' then Ok Kusama
      else if s = ''statemine'' then Ok Kusama
      else if s = ''westend'' then Ok Westend
      else if s = ''westmint'' then Ok Westend
      else if s = ''staking-async-parachain'' then Ok StakingAsync
      else if s = ''staking-async-rc''
        then Panic ''multi-block mining is not supported on relay chains''
      else if s = ''node'' then Ok SubstrateNode
      else Err (InvalidChain s))"

definition ascii_lower :: "char \<Rightarrow> char" where
  "ascii_lower c = (let n = (of_char c :: nat) in if 65 \<le> n \<and> n \<le> 90 then char_of (n + 32) else c)"

definition make_ascii_lowercase :: "string \<Rightarrow> string" where
  "make_ascii_lowercase s = List.map ascii_lower s"

definition chain_try_from :: "string \<Rightarrow> (error, chain) outcome" where
  "chain_try_from spec_name = chain_from_str (make_ascii_lowercase spec_name)"

subsection \<open>Facts\<close>

lemma dropWhile_all: "list_all p ws \<Longrightarrow> dropWhile p (ws @ xs) = dropWhile p xs"
  by (induction ws) simp_all

lemma trim_padded:
  assumes "list_all is_space ws" and "list_all is_space ws'"
    and "core \<noteq> []" and "\<not> is_space (hd core)" and "\<not> is_space (last core)"
  shows "trim (ws @ core @ ws') = core"
proof -
  have "dropWhile is_space (ws @ core @ ws') = core @ ws'"
    using assms(1,3,4) by (cases core) (auto simp: dropWhile_all)
  moreover have "dropWhile is_space (rev ws' @ rev core) = rev core"
    using assms(2,3,5) by (cases core rule: rev_cases) (auto simp: dropWhile_all)
  ultimately show ?thesis by (simp add: trim_def trim_end_def)
qed

lemma strip_prefix_append [simp]: "strip_prefix p (p @ s) = Some s"
  by (simp add: strip_prefix_def)

lemma digit_not_space: "to_digit c \<noteq> None \<Longrightarrow> \<not> is_space c"
  by (auto simp: to_digit_def is_space_def Let_def split: if_splits)

lemma last_show_nat: "\<not> is_space (last (show_nat n))"
  using all_digits_show_nat [of n]
  by (intro digit_not_space) (auto simp: all_digits_def list_all_iff)

lemma parse_u32_show [simp]: "parse_u32 (show_nat (unat n)) = Inr n"
proof -
  have "show_nat (unat n) \<noteq> []" by simp
  then obtain c cs where s: "show_nat (unat n) = c # cs" by (cases "show_nat (unat n)") auto
  have "all_digits (c # cs)" "read_dec (c # cs) = unat n"
    using all_digits_show_nat [of "unat n"] read_show_nat [of "unat n"] by (simp_all add: s)
  moreover from this have "c \<noteq> CHR ''+''" "c \<noteq> CHR ''-''" by (auto simp: plus_not_digit)
  ultimately show ?thesis
    unfolding parse_u32_def s list.case
    by (simp add: parse_u32_digits_ok read_dec_def del: parse_u32_digits.simps)
qed

lemma strategy_from_padded:
  assumes "list_all is_space ws" and "list_all is_space ws'"
    and "core \<noteq> []" and "\<not> is_space (hd core)" and "\<not> is_space (last core)"
  shows "strategy_from_str ops (ws @ core @ ws') = strategy_from_str ops core"
  using trim_padded [OF assms] trim_padded [of "[]" "[]" core] assms(3-5)
  by (simp add: strategy_from_str_def)

lemma strategy_from_str_percent:
  "strategy_from_str ops (''no-worse-than '' @ show_nat (unat n)) =
     Inr (ClaimNoWorseThan (perbill_from_percent ops n))"
  "strategy_from_str ops (''percent-better '' @ show_nat (unat n)) =
     Inr (ClaimBetterThan (perbill_from_percent ops n))"
proof -
  have trimmed: "trim (p @ show_nat (unat n)) = p @ show_nat (unat n)"
    if "p \<noteq> []" and "\<not> is_space (hd p)" for p
    using trim_padded [of "[]" "[]" "p @ show_nat (unat n)"] that by (simp add: last_show_nat)
  show "strategy_from_str ops (''no-worse-than '' @ show_nat (unat n)) =
     Inr (ClaimNoWorseThan (perbill_from_percent ops n))"
    using trimmed [of "''no-worse-than ''"]
    by (simp add: strategy_from_str_def is_space_def Let_def strip_prefix_def)
  show "strategy_from_str ops (''percent-better '' @ show_nat (unat n)) =
     Inr (ClaimBetterThan (perbill_from_percent ops n))"
    using trimmed [of "''percent-better ''"]
    by (simp add: strategy_from_str_def is_space_def Let_def strip_prefix_def)
qed

text \<open>Every strategy is accepted in its documented spelling, with any white
  space around it and any 32-bit percentage.\<close>

theorem strategy_from_str_accepts:
  assumes "list_all is_space ws" and "list_all is_space ws'"
  shows "strategy_from_str ops (ws @ ''always'' @ ws') = Inr Always \<and>
    strategy_from_str ops (ws @ ''if-leading'' @ ws') = Inr IfLeading \<and>
    strategy_from_str ops (ws @ (''no-worse-than '' @ show_nat (unat n)) @ ws') =
      Inr (ClaimNoWorseThan (perbill_from_percent ops n)) \<and>
    strategy_from_str ops (ws @ (''percent-better '' @ show_nat (unat n)) @ ws') =
      Inr (ClaimBetterThan (perbill_from_percent ops n))"
proof (intro conjI)
  have fixed: "strategy_from_str ops (ws @ core @ ws') = strategy_from_str ops core"
    if "core \<noteq> []" and "\<not> is_space (hd core)" and "\<not> is_space (last core)" for core
    using strategy_from_padded [OF assms that] .
  show "strategy_from_str ops (ws @ ''always'' @ ws') = Inr Always"
    by (subst fixed) (simp_all add: strategy_from_str_def trim_def trim_end_def is_space_def)
  show "strategy_from_str ops (ws @ ''if-leading'' @ ws') = Inr IfLeading"
    by (subst fixed) (simp_all add: strategy_from_str_def trim_def trim_end_def is_space_def)
  show "strategy_from_str ops (ws @ (''no-worse-than '' @ show_nat (unat n)) @ ws') =
      Inr (ClaimNoWorseThan (perbill_from_percent ops n))"
    by (subst fixed) (simp_all add: strategy_from_str_percent [simplified] last_show_nat [unfolded is_space_def] is_space_def)
  show "strategy_from_str ops (ws @ (''percent-better '' @ show_nat (unat n)) @ ws') =
      Inr (ClaimBetterThan (perbill_from_percent ops n))"
    by (subst fixed) (simp_all add: strategy_from_str_percent [simplified] last_show_nat [unfolded is_space_def] is_space_def)
qed

definition test_score_ops :: score_ops where
  "test_score_ops =
     \<lparr>strict_threshold_better = \<lambda>a b e. lex_better a b, strict_better = lex_better,
      perbill_zero = 0, perbill_from_percent = \<lambda>p. p * 10000000\<rparr>"

theorem strategy_from_str_accepts_witness:
  "list_all is_space ''  '' \<and> list_all is_space ''   '' \<and>
   strategy_from_str test_score_ops ''  percent-better 99   '' = Inr (ClaimBetterThan 990000000)"
proof -
  have "show_nat (unat (99 :: u32)) = ''99''"
    by (simp add: show_nat.simps [of 99] show_nat.simps [of 9] digit_chars)
  then show ?thesis
    using strategy_from_str_accepts [of "''  ''" "''   ''" test_score_ops 99]
    by (simp add: is_space_def test_score_ops_def)
qed

text \<open>C36. A chain's printed name parses back to that chain, directly and as a
  runtime's specification name, for exactly the chains other than
  \<open>StakingAsync\<close>; printed names are lower case already.\<close>

theorem chain_name_round_trip:
  "(chain_try_from (chain_display c) = Ok c) = (c \<noteq> StakingAsync) \<and>
   (chain_from_str (chain_display c) = Ok c) = (c \<noteq> StakingAsync) \<and>
   make_ascii_lowercase (chain_display c) = chain_display c"
proof -
  have "make_ascii_lowercase (chain_display c) = chain_display c"
    by (cases c) (simp_all add: chain_display_def make_ascii_lowercase_def ascii_lower_def)
  then show ?thesis
    by (cases c) (simp_all add: chain_try_from_def chain_from_str_def chain_display_def)
qed

end
