(* ===== verification/Task_Loop.thy ===== *)
theory Task_Loop
  imports Trace_Monitor
begin

text \<open>
  The loop every receiving task runs (\<open>while let Some(message) = rx.recv()\<close> in
  \<open>src/src/commands/multi_block/monitor.rs\<close>): handle the messages in order until
  one of them fails or the channel closes, which is itself an error.  The laws
  are proved once for the contract and the tasks are instances of it.
\<close>

subsection \<open>Programs that swallow errors\<close>

definition infallible :: "('s, 'e, 'a) io \<Rightarrow> bool" where
  "infallible m \<longleftrightarrow> (\<forall>s e t. m s \<noteq> (Err e, t))"

named_theorems infallible_intros \<open>programs without an error outcome\<close>

lemma infallible_ret [infallible_intros]: "infallible (ret x)"
  by (simp add: infallible_def ret_def)

lemma infallible_emit [infallible_intros]: "infallible (emit v)"
  by (simp add: infallible_def emit_def)

lemma infallible_try [infallible_intros]: "infallible (io_try m)"
  by (simp add: infallible_def io_try_def split: prod.split outcome.split)

lemma infallible_timeout [infallible_intros]: "infallible (io_timeout m)"
  by (simp add: infallible_def io_timeout_def split: prod.split outcome.split)

lemma infallible_get [infallible_intros]: "infallible (io_get f)"
  by (simp add: infallible_def io_get_def)

lemma infallible_modify [infallible_intros]: "infallible (io_modify f)"
  by (simp add: infallible_def io_modify_def)

lemma infallible_bind [infallible_intros]:
  "infallible m \<Longrightarrow> (\<And>x. infallible (f x)) \<Longrightarrow> infallible (io_bind m f)"
  by (simp add: infallible_def io_bind_def split: prod.split outcome.split)

lemma infallible_if [infallible_intros]:
  "infallible m \<Longrightarrow> infallible n \<Longrightarrow> infallible (if b then m else n)"
  by simp

subsection \<open>The loop\<close>

locale task_loop =
  fixes handle :: "'msg \<Rightarrow> ('s, 'e, unit) io"
    and loop :: "'msg list \<Rightarrow> ('s, 'e, unit) io"
    and closed :: 'e
  assumes loop_Nil: "loop [] = throw closed"
    and loop_Cons: "loop (msg # msgs) = io_seq (handle msg) (loop msgs)"
begin

lemma never_completes: "fst (loop msgs s) \<noteq> Ok ()"
proof (induction msgs arbitrary: s)
  case (Cons msg msgs)
  then show ?case by (auto simp: loop_Cons io_bind_def split: prod.split outcome.split)
qed (simp add: loop_Nil throw_def)

text \<open>A failure is that of one of the messages, or the closed channel.\<close>

lemma failure_cause:
  assumes "loop msgs s = (Err e, t)"
  shows "e = closed \<or> (\<exists>msg \<in> set msgs. \<exists>s' t'. handle msg s' = (Err e, t'))"
  using assms
proof (induction msgs arbitrary: s)
  case (Cons msg msgs)
  obtain r u where "handle msg s = (r, u)" by fastforce
  with Cons show ?case by (cases r) (auto simp: loop_Cons io_bind_def)
qed (auto simp: loop_Nil throw_def)

lemma keeps_invariant:
  assumes "\<And>msg. preserves I (handle msg)"
  shows "preserves I (loop msgs)"
  by (induction msgs) (simp_all add: loop_Nil loop_Cons preserves_intros assms)

text \<open>Messages that are all handled are followed by the rest.\<close>

lemma append:
  "loop (msgs @ msgs') = io_bind (io_fold (\<lambda>msg _. handle msg) msgs ()) (\<lambda>_. loop msgs')"
  by (induction msgs) (simp_all add: loop_Cons io_bind_assoc)

end

end
