(* ===== verification/Miner.thy ===== *)
theory Miner
  imports Snapshot Options Task_Loop
begin

text \<open>
  The miner task of \<open>src/src/commands/multi_block/monitor.rs\<close>: mining and
  validating a solution, the checks made before a submission, the treatment of
  an existing submission, and the task's message loop.  The election miner of
  the runtime crate is a parameter.  Durations reported to Prometheus are left
  out.
\<close>

subsection \<open>Parameters\<close>

record mine_input =
  mi_desired_targets :: u32
  mi_all_targets :: target_page
  mi_voter_pages :: "voter_page list"
  mi_pages :: u32
  mi_do_reduce :: bool
  mi_round :: u32

text \<open>
  \<open>Miner::mine_solution\<close>, \<open>Miner::check_feasibility\<close> (the message of a
  failure), the winner count of a solution, and the outcome of joining a
  blocking task.
\<close>

record ('w, 'sol) miner_ops =
  mo_mine :: "mine_input \<Rightarrow> string + 'sol paged_raw_solution"
  mo_infeasible :: "'sol paged_raw_solution \<Rightarrow> voter_page list \<Rightarrow> target_page \<Rightarrow> u32 \<Rightarrow> string option"
  mo_winner_count :: "'sol paged_raw_solution \<Rightarrow> nat"
  mo_join :: "'w \<Rightarrow> (string, unit) outcome \<times> 'w"

record process_config =
  submission_strategy :: submission_strategy
  do_reduce :: bool
  chunk_size :: nat
  min_signed_phase_blocks :: u32
  shady :: bool

text \<open>What the task is started with; \<open>env_pages\<close> is \<open>Pages::get()\<close>.\<close>

record ('w, 'sol) miner_env =
  env_api :: "('w, 'sol) chain_api"
  env_scores :: score_ops
  env_miner :: "('w, 'sol) miner_ops"
  env_pages :: u32
  env_account :: account_id
  env_config :: process_config

subsection \<open>Blocks and submissions\<close>

record block_details =
  bd_at_block :: at_block
  bd_phase :: phase
  bd_n_pages :: u32
  bd_round :: u32
  bd_desired_targets :: u32
  bd_block_number :: u32

definition block_details_new ::
  "('w, 'sol) chain_api \<Rightarrow> u32 \<Rightarrow> u32 \<Rightarrow> phase \<Rightarrow> hash \<Rightarrow> u32 \<Rightarrow>
     ('w, 'v, 'm, block_details) prog" where
  "block_details_new api n number ph block_hash rnd =
     io_bind (storage_at api (Some block_hash)) (\<lambda>at.
     io_bind (await (api_desired_targets api at rnd)) (\<lambda>val.
     io_bind (decode_storage_opt val) (\<lambda>desired.
     ret \<lparr>bd_at_block = at, bd_phase = ph, bd_n_pages = n, bd_round = rnd,
          bd_desired_targets = (case desired of Some d \<Rightarrow> d | None \<Rightarrow> 0),
          bd_block_number = number\<rparr>)))"

record incomplete_submission =
  inc_score :: election_score
  inc_pages :: "u32 list"
  inc_n_pages :: u32

datatype current_submission =
    Done election_score
  | Incomplete incomplete_submission
  | NotStarted

definition get_missing_pages :: "incomplete_submission \<Rightarrow> u32 list" where
  "get_missing_pages s = filter (\<lambda>page. page \<notin> set (inc_pages s)) (u32_range (inc_n_pages s))"

definition submitted_set :: "bool list \<Rightarrow> u32 list" where
  "submitted_set bits =
     hs_of (List.map (\<lambda>(i, _). word_of_nat i) (filter (\<lambda>(_, submitted). submitted) (enumerate 0 bits)))"

definition classify_submission :: "submission_metadata option \<Rightarrow> u32 \<Rightarrow> current_submission" where
  "classify_submission maybe_submission n =
     (case maybe_submission of
        None \<Rightarrow> NotStarted
      | Some submission \<Rightarrow>
          (let ps = submitted_set (pages submission) in
           if length ps = unat n then Done (claimed_score submission)
           else Incomplete \<lparr>inc_score = claimed_score submission, inc_pages = ps, inc_n_pages = n\<rparr>))"

definition get_submission ::
  "('w, 'sol) chain_api \<Rightarrow> at_block \<Rightarrow> u32 \<Rightarrow> account_id \<Rightarrow> u32 \<Rightarrow>
     ('w, 'sol event, 'm, current_submission) prog" where
  "get_submission api at rnd who n =
     io_bind (await (api_submission api at rnd who)) (\<lambda>val.
     io_bind (decode_storage_opt val) (\<lambda>maybe_submission.
     io_seq (emit (ReadSubmission maybe_submission))
    (ret (classify_submission maybe_submission n))))"

definition has_submitted ::
  "('w, 'sol) chain_api \<Rightarrow> at_block \<Rightarrow> u32 \<Rightarrow> account_id \<Rightarrow> u32 \<Rightarrow>
     ('w, 'sol event, 'm, bool) prog" where
  "has_submitted api at rnd who n =
     io_bind (get_submission api at rnd who n) (\<lambda>c.
     ret (case c of Done _ \<Rightarrow> True | _ \<Rightarrow> False))"

subsection \<open>Checks\<close>

definition signed_phase :: "('w, 'sol) chain_api \<Rightarrow> ('w, 'sol event, 'm, bool) prog" where
  "signed_phase api =
     io_bind (storage_at_head api) (\<lambda>at.
     io_bind (await (api_phase api at)) (\<lambda>val.
     io_bind (decode_value val) (\<lambda>current_phase.
     io_seq (emit (ReadPhase current_phase))
    (ret (case current_phase of Signed _ \<Rightarrow> True | _ \<Rightarrow> False)))))"

definition fetch_minimum_score ::
  "('w, 'sol) chain_api \<Rightarrow> at_block \<Rightarrow> ('w, 'sol event, 'm, election_score option) prog" where
  "fetch_minimum_score api at =
     io_bind (await (api_minimum_score api at)) (\<lambda>val.
     io_bind (decode_storage_opt val) (\<lambda>minimum.
     io_seq (emit (ReadMinimum minimum)) (ret minimum)))"

definition score_better ::
  "('w, 'sol) chain_api \<Rightarrow> score_ops \<Rightarrow> at_block \<Rightarrow> election_score \<Rightarrow> u32 \<Rightarrow> submission_strategy \<Rightarrow>
     ('w, 'sol event, 'm, bool) prog" where
  "score_better api ops at sc rnd strategy =
     io_bind (await (api_sorted_scores api at rnd)) (\<lambda>val.
     io_bind (decode_value val) (\<lambda>scores.
     io_seq (emit (ReadScores (List.map snd scores)))
    (ret (\<not> list_ex (\<lambda>(_, other_score). \<not> score_passes_strategy ops sc other_score strategy) scores))))"

definition should_bypass_competitive_check :: "bool \<Rightarrow> bool" where
  "should_bypass_competitive_check is_shady = is_shady"

subsection \<open>Mining\<close>

definition mine_solution ::
  "('w, 'sol) miner_ops \<Rightarrow> u32 \<Rightarrow> target_page \<Rightarrow> voter_page list \<Rightarrow> u32 \<Rightarrow> u32 \<Rightarrow> u32 \<Rightarrow> bool \<Rightarrow>
     ('w, 'sol event, 'm, 'sol paged_raw_solution) prog" where
  "mine_solution ops chain_pages t voter_snapshot_paged n rnd desired_targets reduce =
     (let voter_pages = take (unat chain_pages) voter_snapshot_paged;
          input = \<lparr>mi_desired_targets = desired_targets, mi_all_targets = t,
                   mi_voter_pages = voter_pages, mi_pages = n, mi_do_reduce = reduce,
                   mi_round = rnd\<rparr> in
      io_seq (emit (Mined rnd))
     (io_seq (io_map_err OtherError (call (mo_join ops)))
     (case mo_mine ops input of
        Inl e \<Rightarrow> throw (OtherError e)
      | Inr sol \<Rightarrow>
          (case mo_infeasible ops sol voter_pages t desired_targets of
             Some e \<Rightarrow> throw (Feasibility e)
           | None \<Rightarrow> ret sol))))"

definition validate_solution ::
  "('w, 'sol) miner_env \<Rightarrow> u32 \<Rightarrow> u32 \<Rightarrow> 'sol paged_raw_solution \<Rightarrow>
     ('s, error, 'sol paged_raw_solution) io" where
  "validate_solution env rnd desired_targets sol =
     (let solution_page_count = word_of_nat (length (solution_pages sol)) :: u32;
          solution_winner_count = word_of_nat (mo_winner_count (env_miner env) sol) :: u32 in
      if rnd \<noteq> round sol then throw (WrongRound (round sol) rnd)
      else if solution_page_count > env_pages env
        then throw (WrongPageCount solution_page_count (env_pages env))
      else if desired_targets \<noteq> solution_winner_count
        then throw (SolutionValidation desired_targets solution_winner_count)
      else ret sol)"

definition mine_with_timeout ::
  "('w, 'sol) miner_env \<Rightarrow> target_page \<Rightarrow> voter_page list \<Rightarrow> u32 \<Rightarrow> u32 \<Rightarrow> u32 \<Rightarrow>
     ('w, 'sol event, 'm, 'sol paged_raw_solution) prog" where
  "mine_with_timeout env t v n rnd desired_targets =
     io_bind (io_timeout (mine_solution (env_miner env) (env_pages env) t v n rnd desired_targets (do_reduce (env_config env))))
       (\<lambda>r. case r of
          Some (Inr sol) \<Rightarrow> validate_solution env rnd desired_targets sol
        | Some (Inl e) \<Rightarrow> throw e
        | None \<Rightarrow> io_seq (emit (Metric MiningTimeoutM)) (throw (Timeout (MiningTimeout 600))))"

definition mine_and_validate ::
  "('w, 'sol) miner_env \<Rightarrow> at_block \<Rightarrow> u32 \<Rightarrow> u32 \<Rightarrow> u32 \<Rightarrow>
     ('w, 'sol, 'm, 'sol paged_raw_solution) miner_prog" where
  "mine_and_validate env at rnd n desired_targets =
     io_seq (fetch_missing_snapshots (env_api env) at rnd)
    (io_bind (io_get (\<lambda>s. snapshot_get (snap s))) (\<lambda>sn.
     case sn of
       None \<Rightarrow> panic ''Target snapshot not fetched''
     | Some (t, v) \<Rightarrow> mine_with_timeout env t v n rnd desired_targets))"

subsection \<open>Processing a block\<close>

definition max_score :: election_score where
  "max_score = \<lparr>minimal_stake = - 1, sum_stake = - 1, sum_stake_squared = - 1\<rparr>"

text \<open>The registration loop of the shady mode; the argument is \<open>9 - i\<close>.\<close>

primrec shady_register_loop ::
  "nat \<Rightarrow> ('w, 'sol) chain_api \<Rightarrow> account_id \<Rightarrow> u32 \<Rightarrow> ('w, 'sol event, 'm, tx_progress) prog" where
  "shady_register_loop 0 api who blocks_remaining =
     io_bind (register_attempt api who max_score blocks_remaining) (\<lambda>r. io_result r)"
| "shady_register_loop (Suc n) api who blocks_remaining =
     io_bind (register_attempt api who max_score blocks_remaining) (\<lambda>r.
     (case r of
        Inr tx \<Rightarrow> ret tx
      | Inl (Subxt (TransactionProgressError e)) \<Rightarrow>
          io_seq (emit (Slept 6000)) (shady_register_loop n api who blocks_remaining)
      | Inl (Subxt (TransactionStatusError e)) \<Rightarrow>
          io_seq (emit (Slept 6000)) (shady_register_loop n api who blocks_remaining)
      | Inl e \<Rightarrow> throw e))"

definition execute_shady_behavior ::
  "('w, 'sol) chain_api \<Rightarrow> account_id \<Rightarrow> phase \<Rightarrow> ('w, 'sol event, 'm, unit) prog" where
  "execute_shady_behavior api who ph =
     (case ph of
        Signed blocks_remaining \<Rightarrow>
          io_bind (shady_register_loop 9 api who blocks_remaining) (\<lambda>tx_status.
          io_bind (wait_tx_in_finalized_block api tx_status) (\<lambda>tx.
          io_bind (await (api_wait_success api tx)) (\<lambda>events.
          if Inr EvRegistered \<notin> set events
          then throw (MissingTxEvent ''Register malicious score'')
          else io_seq (emit ScoreRegistered) (io_seq (emit (Metric (ScoreSet max_score))) (ret ())))))
      | _ \<Rightarrow> throw (OtherError ''Not in SignedPhase for shady behavior''))"

text \<open>
  Withdrawing an existing submission, shared by the complete and the
  incomplete case: \<open>False\<close> says that the phase is over and the block is done.
\<close>

definition bail_existing ::
  "('w, 'sol) chain_api \<Rightarrow> account_id \<Rightarrow> ('w, 'sol event, 'm, bool) prog" where
  "bail_existing api who =
     io_bind (io_timeout (signed_phase api)) (\<lambda>r.
     case r of
       None \<Rightarrow> io_seq (emit (Metric PhaseCheckTimeoutM)) (throw (Timeout (PhaseCheckTimeout 60)))
     | Some (Inl e) \<Rightarrow> throw e
     | Some (Inr still_signed) \<Rightarrow>
         if \<not> still_signed then ret False
         else
           io_bind (io_timeout (bail api who)) (\<lambda>b.
           case b of
             None \<Rightarrow> io_seq (emit (Metric BailTimeoutM)) (throw (Timeout (BailTimeout 120)))
           | Some (Inl e) \<Rightarrow> throw e
           | Some (Inr _) \<Rightarrow> ret True))"

text \<open>
  Completing an incomplete submission of the same score.  Indexing the
  solution out of range panics; the failed pages the strategy returns are
  dropped.
\<close>

definition pick_pages :: "'sol list \<Rightarrow> u32 list \<Rightarrow> (u32 \<times> 'sol) list option" where
  "pick_pages sols ps =
     (if list_all (\<lambda>p. unat p < length sols) ps
      then Some (List.map (\<lambda>p. (p, sols ! unat p)) ps) else None)"

definition submit_missing ::
  "('w, 'sol) miner_env \<Rightarrow> u32 \<Rightarrow> 'sol paged_raw_solution \<Rightarrow> incomplete_submission \<Rightarrow>
     ('w, 'sol event, 'm, unit) prog" where
  "submit_missing env rnd sol inc =
     (case pick_pages (solution_pages sol) (get_missing_pages inc) of
        None \<Rightarrow> panic ''index out of bounds''
      | Some missing_pages \<Rightarrow>
          io_bind (io_timeout (io_seq
              (submit_pages (env_api env) (env_account env) missing_pages
                 (chunk_size (env_config env)) rnd (min_signed_phase_blocks (env_config env)))
              (ret ()))) (\<lambda>r.
          case r of
            Some (Inr _) \<Rightarrow> io_seq (emit (Metric SubmissionSuccess)) (ret ())
          | Some (Inl e) \<Rightarrow> throw e
          | None \<Rightarrow> io_seq (emit (Metric MissingPagesTimeoutM))
                         (throw (Timeout (MissingPagesTimeout 1800)))))"

text \<open>The competitiveness check and the submission.\<close>

definition submit_solution ::
  "('w, 'sol) miner_env \<Rightarrow> u32 \<Rightarrow> 'sol paged_raw_solution \<Rightarrow> ('w, 'sol event, 'm, unit) prog" where
  "submit_solution env rnd sol =
     io_seq (emit (Metric (ScoreSet (score sol))))
    (io_bind (io_timeout (submit (env_api env) (env_account env) sol
        (chunk_size (env_config env)) rnd (min_signed_phase_blocks (env_config env)))) (\<lambda>r.
     case r of
       Some (Inr _) \<Rightarrow> ret ()
     | Some (Inl e) \<Rightarrow> throw e
     | None \<Rightarrow> io_seq (emit (Metric SubmitTimeoutM)) (throw (Timeout (SubmitTimeout 1800)))))"

text \<open>The metric counts rounds, not checks.\<close>

definition record_outcompeted :: "u32 \<Rightarrow> ('w, 'sol, 'm, unit) miner_prog" where
  "record_outcompeted rnd =
     io_bind (io_get last_outcompeted_round) (\<lambda>l.
     if l \<noteq> Some rnd then
       io_seq (io_modify (\<lambda>s. s\<lparr>last_outcompeted_round := Some rnd\<rparr>))
              (emit (Metric SubmissionSkippedNotCompetitive))
     else ret ())"

definition compete_and_submit ::
  "('w, 'sol) miner_env \<Rightarrow> at_block \<Rightarrow> u32 \<Rightarrow> 'sol paged_raw_solution \<Rightarrow>
     ('w, 'sol, 'm, unit) miner_prog" where
  "compete_and_submit env storage_head rnd sol =
     (if \<not> should_bypass_competitive_check (shady (env_config env)) then
        io_bind (io_timeout (score_better (env_api env) (env_scores env) storage_head (score sol) rnd
            (submission_strategy (env_config env)))) (\<lambda>r.
        case r of
          None \<Rightarrow> io_seq (emit (Metric ScoreCheckTimeoutM)) (throw (Timeout (ScoreCheckTimeout 60)))
        | Some (Inl e) \<Rightarrow> throw e
        | Some (Inr is_competitive) \<Rightarrow>
            if \<not> is_competitive then record_outcompeted rnd
            else submit_solution env rnd sol)
      else submit_solution env rnd sol)"

text \<open>The existing submission of the round, if any, then the competition.\<close>

definition handle_existing ::
  "('w, 'sol) miner_env \<Rightarrow> block_details \<Rightarrow> 'sol paged_raw_solution \<Rightarrow>
     ('w, 'sol, 'm, unit) miner_prog" where
  "handle_existing env st sol =
     io_bind (io_timeout (
        io_bind (storage_at_head (env_api env)) (\<lambda>storage_head.
        io_bind (get_submission (env_api env) storage_head (bd_round st) (env_account env)
          (bd_n_pages st)) (\<lambda>existing.
        ret (storage_head, existing))))) (\<lambda>r.
     case r of
       None \<Rightarrow> io_seq (emit (Metric CheckExistingSubmissionTimeoutM))
                 (throw (Timeout (CheckExistingSubmissionTimeout 300)))
     | Some (Inl e) \<Rightarrow> throw e
     | Some (Inr (storage_head, existing)) \<Rightarrow>
         (case existing of
            Done sc \<Rightarrow>
              if \<not> score_passes_strategy (env_scores env) (score sol) sc
                    (submission_strategy (env_config env))
              then ret ()
              else
                io_bind (bail_existing (env_api env) (env_account env)) (\<lambda>bailed.
                if bailed then compete_and_submit env storage_head (bd_round st) sol else ret ())
          | Incomplete inc \<Rightarrow>
              if inc_score inc = score sol then submit_missing env (bd_round st) sol inc
              else
                io_bind (bail_existing (env_api env) (env_account env)) (\<lambda>bailed.
                if bailed then compete_and_submit env storage_head (bd_round st) sol else ret ())
          | NotStarted \<Rightarrow> compete_and_submit env storage_head (bd_round st) sol))"

text \<open>The cached solution of the round, mined if there is none.\<close>

definition solution_for_round ::
  "('w, 'sol) miner_env \<Rightarrow> block_details \<Rightarrow> ('w, 'sol, 'm, 'sol paged_raw_solution) miner_prog" where
  "solution_for_round env st =
     io_bind (io_get cached_solution) (\<lambda>cached.
     io_seq
       (if map_option round cached \<noteq> Some (bd_round st) then
          io_bind (mine_and_validate env (bd_at_block st) (bd_round st) (bd_n_pages st)
            (bd_desired_targets st)) (\<lambda>solution.
          io_modify (\<lambda>s. s\<lparr>cached_solution := Some solution\<rparr>))
        else ret ())
    (io_bind (io_get cached_solution) (\<lambda>cached'.
     case cached' of
       Some sol \<Rightarrow> ret sol
     | None \<Rightarrow> panic ''cache populated for the current round above; qed'')))"

definition process_signed ::
  "('w, 'sol) miner_env \<Rightarrow> block_details \<Rightarrow> ('w, 'sol, 'm, unit) miner_prog" where
  "process_signed env st =
     io_bind (io_timeout (
        io_bind (storage_at_head (env_api env)) (\<lambda>at_block_head.
        has_submitted (env_api env) at_block_head (bd_round st) (env_account env) (bd_n_pages st))))
     (\<lambda>r. case r of
       None \<Rightarrow> io_seq (emit (Metric CheckExistingSubmissionTimeoutM))
                 (throw (Timeout (CheckExistingSubmissionTimeout 300)))
     | Some (Inl e) \<Rightarrow> throw e
     | Some (Inr already_submitted) \<Rightarrow>
         if already_submitted then ret ()
         else
           io_bind (solution_for_round env st) (\<lambda>sol.
           if shady (env_config env)
           then execute_shady_behavior (env_api env) (env_account env) (bd_phase st)
           else
             io_bind (fetch_minimum_score (env_api env) (bd_at_block st)) (\<lambda>minimum.
             if \<not> meets_minimum_score (env_scores env) (score sol) minimum then
               (case minimum of
                  Some mn \<Rightarrow> throw (ScoreBelowMinimum (score sol) mn)
                | None \<Rightarrow> panic ''score fails the check only when a floor is set; qed'')
             else handle_existing env st sol)))"

definition process_block ::
  "('w, 'sol) miner_env \<Rightarrow> block_details \<Rightarrow> ('w, 'sol, 'm, unit) miner_prog" where
  "process_block env st =
     io_bind (io_timeout (
        io_bind (await (api_account (env_api env) (bd_at_block st) (env_account env))) (\<lambda>val.
        decode_storage_opt val))) (\<lambda>r.
     case r of
       None \<Rightarrow> io_seq (emit (Metric BalanceFetchTimeoutM)) (ret ())
     | Some (Inl e) \<Rightarrow> throw e
     | Some (Inr None) \<Rightarrow> throw AccountDoesNotExists
     | Some (Inr (Some info)) \<Rightarrow>
         io_seq (emit (Metric (BalanceSet (free info))))
        (case bd_phase st of
           SnapshotPhase _ \<Rightarrow>
             fetch_missing_snapshots_lossy (env_api env) (bd_at_block st) (bd_round st)
         | Signed blocks_remaining \<Rightarrow>
             if blocks_remaining \<le> min_signed_phase_blocks (env_config env) then ret ()
             else process_signed env st
         | _ \<Rightarrow> ret ()))"

subsection \<open>The task\<close>

datatype miner_message = ProcessBlock block_details | ClearSnapshots

definition clear_snapshots :: "('w, 'sol, 'm, unit) miner_prog" where
  "clear_snapshots =
     io_modify (\<lambda>s. s\<lparr>snap := snapshot_clear (snap s), cached_solution := None\<rparr>)"

definition handle_message ::
  "('w, 'sol) miner_env \<Rightarrow> miner_message \<Rightarrow> ('w, 'sol, 'm, unit) miner_prog" where
  "handle_message env msg =
     (case msg of
        ProcessBlock st \<Rightarrow>
          io_bind (io_try (process_block env st)) (\<lambda>r.
          case r of
            Inr _ \<Rightarrow> ret ()
          | Inl e \<Rightarrow> if is_critical_miner_error e then throw e else ret ())
      | ClearSnapshots \<Rightarrow> clear_snapshots)"

text \<open>The messages received until the channel closes.\<close>

primrec miner_loop ::
  "('w, 'sol) miner_env \<Rightarrow> miner_message list \<Rightarrow> ('w, 'sol, 'm, unit) miner_prog" where
  "miner_loop env [] = throw (TaskFailure MinerTask)"
| "miner_loop env (msg # msgs) = io_seq (handle_message env msg) (miner_loop env msgs)"

definition miner_task ::
  "('w, 'sol) miner_env \<Rightarrow> miner_message list \<Rightarrow> ('w, 'sol, 'm, unit) miner_prog" where
  "miner_task env msgs =
     io_seq (io_modify (\<lambda>s. s\<lparr>snap := snapshot_new (env_pages env), cached_solution := None,
                              last_outcompeted_round := None\<rparr>))
            (miner_loop env msgs)"

lemmas [run_defs] = get_missing_pages_def submitted_set_def classify_submission_def
  get_submission_def has_submitted_def signed_phase_def fetch_minimum_score_def score_better_def
  should_bypass_competitive_check_def mine_solution_def validate_solution_def mine_with_timeout_def mine_and_validate_def
  execute_shady_behavior_def bail_existing_def pick_pages_def submit_missing_def submit_solution_def
  record_outcompeted_def compete_and_submit_def handle_existing_def solution_for_round_def
  process_signed_def process_block_def clear_snapshots_def handle_message_def miner_task_def
  score_passes_strategy_def meets_minimum_score_def

interpretation miner: task_loop "handle_message env" "miner_loop env" "TaskFailure MinerTask" for env
  by unfold_locales simp_all

end
