(* ===== verification/Cleanup.thy ===== *)
theory Cleanup
  imports Submission_Safety Node_Runs Test_Node Task_Loop
begin

text \<open>
  The task that recovers deposits of old submissions
  (\<open>clear_old_rounds_task\<close> and what it calls in
  \<open>src/src/commands/multi_block/monitor.rs\<close>): which rounds a tick scans, the
  transactions it sends, and what the sequence of ticks covers.
\<close>

subsection \<open>Definitions\<close>

datatype clear_old_rounds_message = ClearOldRoundsTick u32

text \<open>The variable the task keeps between ticks.\<close>

record ('w, 'v) cleanup_sys = "('w, 'v) sys" +
  last_scanned_round :: "u32 option"

type_synonym ('w, 'sol, 'm, 'a) cleanup_prog =
  "(('w, 'sol event, 'm) cleanup_sys_scheme, error, 'a) io"

definition clear_old_round_data ::
  "('w, 'sol) chain_api \<Rightarrow> account_id \<Rightarrow> u32 \<Rightarrow> u32 \<Rightarrow> ('w, 'sol event, 'm, unit) prog" where
  "clear_old_round_data api who rnd witness_pages =
     io_bind (await (api_at_current_block api)) (\<lambda>at.
     io_bind (await (api_nonce api who)) (\<lambda>nonce.
     io_bind (send_tx api (with_restrict_origins api at
        \<lparr>ext_call = ClearOldRoundData rnd witness_pages, ext_nonce = nonce, ext_mortal = None,
         ext_restrict = False\<rparr>)) (\<lambda>tx.
     io_seq (wait_tx_in_finalized_block api tx)
     (ret ()))))"

text \<open>The number of pages marked as submitted, cast to \<open>u32\<close>.\<close>

definition count_pages :: "submission_metadata \<Rightarrow> u32" where
  "count_pages sub = word_of_nat (length (filter (\<lambda>submitted. submitted) (pages sub)))"

text \<open>One round of the scan; the counters of submissions found and cleaned.\<close>

definition scan_round ::
  "('w, 'sol) chain_api \<Rightarrow> account_id \<Rightarrow> at_block \<Rightarrow> u32 \<Rightarrow> u32 \<times> u32 \<Rightarrow>
     ('w, 'sol event, 'm, u32 \<times> u32) prog" where
  "scan_round api who at old_round counts =
     (case counts of (found, cleaned) \<Rightarrow>
      io_bind (await (api_submission api at old_round who)) (\<lambda>v.
      io_bind (decode_storage_opt v) (\<lambda>maybe_submission.
      io_seq (emit (ReadSubmission maybe_submission))
      (case maybe_submission of
         None \<Rightarrow> ret (found, cleaned)
       | Some sub \<Rightarrow>
           if count_pages sub = 0 then ret (found + 1, cleaned)
           else
             io_bind (io_try (clear_old_round_data api who old_round (count_pages sub))) (\<lambda>r.
             case r of
               Inr _ \<Rightarrow> ret (found + 1, cleaned + 1)
             | Inl e \<Rightarrow> ret (found + 1, cleaned))))))"

text \<open>The first round to scan, and the range \<open>start..current\<close>.\<close>

definition scan_start :: "u32 option \<Rightarrow> u32 \<Rightarrow> u32" where
  "scan_start last_scanned current_round =
     (case last_scanned of
        Some l \<Rightarrow> max (l + 1) (saturating_sub current_round 5)
      | None \<Rightarrow> saturating_sub current_round 5)"

definition u32_span :: "u32 \<Rightarrow> u32 \<Rightarrow> u32 list" where
  "u32_span a b = List.map word_of_nat [unat a ..< unat b]"

definition run_clear_old_rounds_cleanup ::
  "('w, 'sol) chain_api \<Rightarrow> account_id \<Rightarrow> u32 \<Rightarrow> ('w, 'sol, 'm, u32) cleanup_prog" where
  "run_clear_old_rounds_cleanup api who current_round =
     io_bind (storage_at_head api) (\<lambda>at.
     io_bind (io_get last_scanned_round) (\<lambda>last_scanned.
     let start_round = scan_start last_scanned current_round in
     if current_round = 0 then ret 0
     else if start_round \<ge> current_round then ret 0
     else
       io_bind (io_fold (scan_round api who at) (u32_span start_round current_round) (0, 0))
         (\<lambda>(found, cleaned).
       io_seq (emit (Metric (OldSubmissionsFound found)))
      (io_seq (io_modify (\<lambda>s. s\<lparr>last_scanned_round := Some (saturating_sub current_round 1)\<rparr>))
       (ret cleaned)))))"

definition clear_old_rounds_tick ::
  "('w, 'sol) chain_api \<Rightarrow> account_id \<Rightarrow> u32 \<Rightarrow> ('w, 'sol, 'm, unit) cleanup_prog" where
  "clear_old_rounds_tick api who current_round =
     io_bind (io_try (run_clear_old_rounds_cleanup api who current_round)) (\<lambda>r.
     case r of
       Inr cleaned_count \<Rightarrow> emit (Metric (CleanupSuccess cleaned_count))
     | Inl e \<Rightarrow>
         io_seq (emit (Metric CleanupFailure))
           (if is_critical_miner_error e then throw e else ret ()))"

text \<open>The messages received until the channel closes.\<close>

primrec clear_old_rounds_loop ::
  "('w, 'sol) chain_api \<Rightarrow> account_id \<Rightarrow> clear_old_rounds_message list \<Rightarrow>
     ('w, 'sol, 'm, unit) cleanup_prog" where
  "clear_old_rounds_loop api who [] = throw (TaskFailure ClearOldRoundsTask)"
| "clear_old_rounds_loop api who (msg # msgs) =
     (case msg of ClearOldRoundsTick current_round \<Rightarrow>
        io_seq (clear_old_rounds_tick api who current_round) (clear_old_rounds_loop api who msgs))"

definition clear_old_rounds_task ::
  "('w, 'sol) chain_api \<Rightarrow> account_id \<Rightarrow> clear_old_rounds_message list \<Rightarrow>
     ('w, 'sol, 'm, unit) cleanup_prog" where
  "clear_old_rounds_task api who msgs =
     io_seq (io_modify (\<lambda>s. s\<lparr>last_scanned_round := None\<rparr>)) (clear_old_rounds_loop api who msgs)"

lemmas [run_defs] = clear_old_round_data_def count_pages_def scan_round_def scan_start_def
  u32_span_def run_clear_old_rounds_cleanup_def clear_old_rounds_tick_def clear_old_rounds_task_def

interpretation clear: task_loop
  "\<lambda>msg. case msg of ClearOldRoundsTick current_round \<Rightarrow> clear_old_rounds_tick api who current_round"
  "clear_old_rounds_loop api who" "TaskFailure ClearOldRoundsTask" for api who
  by unfold_locales (auto split: clear_old_rounds_message.split)

subsection \<open>The scan window\<close>

lemma unat_scan_start:
  assumes "\<And>l. last_scanned = Some l \<Longrightarrow> l + 1 \<noteq> 0"
  shows "unat (scan_start last_scanned c) =
    max (unat c - 5) (case last_scanned of Some l \<Rightarrow> unat l + 1 | None \<Rightarrow> 0)"
proof (cases last_scanned)
  case (Some l)
  with assms have "unat (l + 1) = unat l + 1" using unatSuc [of l] by (simp add: add.commute)
  with Some show ?thesis
    by (auto simp: scan_start_def max_def word_le_nat_alt unat_saturating_sub)
qed (simp add: scan_start_def unat_saturating_sub)

lemma unat_u32_span: "List.map unat (u32_span a b) = [unat a ..< unat b]"
proof -
  have "List.map (\<lambda>i. unat (word_of_nat i :: u32)) [unat a ..< unat b] = [unat a ..< unat b]"
    by (intro map_idI) (simp add: unat_in_range [of _ b])
  then show ?thesis by (simp add: u32_span_def comp_def)
qed

lemma set_u32_span: "r \<in> set (u32_span a b) \<longleftrightarrow> a \<le> r \<and> r < b"
proof -
  have "r \<in> set (u32_span a b) \<longleftrightarrow> unat r \<in> set (List.map unat (u32_span a b))"
    by (auto dest: unsigned_word_eqI)
  then show ?thesis by (auto simp: unat_u32_span word_le_nat_alt word_less_nat_alt)
qed

text \<open>
  What a tick may send: one transaction per submission just read, for rounds in
  strictly increasing order from \<open>lo\<close> and below the current one, with the count
  of its submitted pages as witness.
\<close>

definition window_monitor ::
  "u32 \<Rightarrow> nat \<times> submission_metadata option \<Rightarrow> 'sol event \<Rightarrow> (nat \<times> submission_metadata option) option" where
  "window_monitor c g ev =
     (case g of (lo, m) \<Rightarrow>
      case ev of
        ReadSubmission m' \<Rightarrow> Some (lo, m')
      | SentTx x \<Rightarrow>
          (case (ext_call x, m) of
             (ClearOldRoundData r p, Some sub) \<Rightarrow>
               if lo \<le> unat r \<and> r < c \<and> p = count_pages sub \<and> p \<noteq> 0 then Some (Suc (unat r), None) else None
           | _ \<Rightarrow> None)
      | _ \<Rightarrow> Some (lo, m))"

lemma window_clear_old_round_data:
  assumes "lo \<le> unat r" "r < c" "count_pages sub \<noteq> 0"
  shows "safe (window_monitor c) (clear_old_round_data api who r (count_pages sub))
    (\<lambda>_ g. fst g \<le> Suc (unat r)) (\<lambda>g. fst g \<le> Suc (unat r)) (lo, Some sub)"
  unfolding clear_old_round_data_def
  by (intro safe_intros safe_send_tx)
    (use assms in \<open>auto simp: window_monitor_def with_restrict_origins_def intro!: safe_intros\<close>)

lemma window_scan_round:
  assumes "fst g \<le> unat r" "r < c"
  shows "safe (window_monitor c) (scan_round api who at r counts)
    (\<lambda>_ g. fst g \<le> Suc (unat r)) (\<lambda>_. True) g"
proof -
  obtain lo m where g: "g = (lo, m)" by fastforce
  show ?thesis
    unfolding scan_round_def g
    by (intro safe_intros safe_emit)
      (use assms g in \<open>auto simp: window_monitor_def intro!: safe_intros
        safe_mono [OF window_clear_old_round_data]\<close>)
qed

lemma window_scan:
  assumes "sorted_wrt (<) (List.map unat rs)" "\<forall>r \<in> set rs. fst g \<le> unat r \<and> r < c"
  shows "safe (window_monitor c) (io_fold (scan_round api who at) rs counts)
    (\<lambda>_ _. True) (\<lambda>_. True) g"
  using assms
proof (induction rs arbitrary: g counts)
  case (Cons r rs)
  have "\<forall>r' \<in> set rs. lo \<le> unat r' \<and> r' < c" if "lo \<le> Suc (unat r)" for lo
    using Cons.prems that by fastforce
  then show ?case
    unfolding io_fold.simps
    by - (rule safe_bind, rule safe_mono [OF window_scan_round], use Cons in \<open>auto intro!: Cons.IH\<close>)
qed (simp add: safe_intros)

lemma sorted_u32_span: "sorted_wrt (<) (List.map unat (u32_span a b))"
  by (simp add: unat_u32_span)

lemma frames_clear_old_round_data [frames_intros]: "frames (clear_old_round_data api who r p)"
  unfolding clear_old_round_data_def by (intro frames_intros)

lemma frames_scan_round [frames_intros]: "frames (scan_round api who at r n)"
  unfolding scan_round_def by (intro frames_intros)

lemma frames_scan: "frames (io_fold (scan_round api who at) rs n)"
  by (intro frames_intros)

lemma last_scanned_framed: "frames m \<Longrightarrow> m s = (r, t) \<Longrightarrow> last_scanned_round t = last_scanned_round s"
  by (drule (1) framesD, cases s, cases t) simp

lemma silent_run: "silent m \<Longrightarrow> m s = (r, t) \<Longrightarrow> trace t = trace s"
  unfolding silent_def by (metis snd_conv)

lemma scan_start_window: "unat c \<le> unat (scan_start l c) + 5"
proof -
  have "saturating_sub c 5 \<le> scan_start l c" by (simp add: scan_start_def split: option.split)
  then show ?thesis by (simp add: word_le_nat_alt unat_saturating_sub)
qed



subsection \<open>What a sequence of ticks clears\<close>

text \<open>
  A node whose storage of our submissions is \<open>sub\<close> while the task runs, and
  which takes every transaction, with whatever result.
\<close>

definition cleanup_node :: "('w, 'sol) chain_api \<Rightarrow> account_id \<Rightarrow> (u32 \<Rightarrow> submission_metadata option) \<Rightarrow> bool" where
  "cleanup_node api who sub \<longleftrightarrow>
     takes_transactions api who \<and>
     (\<forall>at r. yields (api_submission api at r who) (map_option Decodes (sub r)))"

text \<open>The \<open>clear_old_round_data\<close> calls in a trace.\<close>

fun cleared :: "'sol event \<Rightarrow> (u32 \<times> u32) list" where
  "cleared (SentTx x) = (case ext_call x of ClearOldRoundData r p \<Rightarrow> [(r, p)] | _ \<Rightarrow> [])"
| "cleared _ = []"

text \<open>What is due for a round.\<close>

definition due :: "(u32 \<Rightarrow> submission_metadata option) \<Rightarrow> u32 \<Rightarrow> (u32 \<times> u32) list" where
  "due sub r =
     (case sub r of
        Some m \<Rightarrow> if count_pages m = 0 then [] else [(r, count_pages m)]
      | None \<Rightarrow> [])"

lemma settles_clear_old_round_data:
  assumes "takes_transactions api who"
  shows "settles cleared (clear_old_round_data api who r p) [(r, p)]"
  unfolding clear_old_round_data_def
  using assms
  by (intro settles_quiet returns_intros settles_send_and_wait settles_returns)
    (auto simp: takes_transactions_def with_restrict_origins_def)

lemma decode_stored [simp]: "decode_storage_opt (map_option Decodes m) = ret m"
  by (cases m) (simp_all add: decode_storage_opt_def)

lemma returns_scan_round:
  assumes "cleanup_node api who sub"
  shows "returns cleared (scan_round api who at r n) (due sub r)"
proof -
  obtain found cleaned where n: "n = (found, cleaned)" by fastforce
  have takes: "takes_transactions api who" 
    and stored: "yields (api_submission api at r who) (map_option Decodes (sub r))"
    using assms by (simp_all add: cleanup_node_def)
  show ?thesis
    unfolding scan_round_def n prod.case
  proof (rule returns_yields [OF stored], unfold decode_stored io_bind_ret, rule returns_quiet)
    show "returns cleared (emit (ReadSubmission (sub r))) []"
      using returns_emit [of cleared "ReadSubmission (sub r)"] by simp
    note clear = returns_bind [OF returns_try [OF settles_clear_old_round_data [OF takes]], where rs' = "[]", simplified]
    show "returns cleared (case sub r of None \<Rightarrow> ret (found, cleaned) | Some sub \<Rightarrow>
        if count_pages sub = 0 then ret (found + 1, cleaned)
        else io_bind (io_try (clear_old_round_data api who r (count_pages sub))) (\<lambda>r.
          case r of Inr _ \<Rightarrow> ret (found + 1, cleaned + 1) | Inl e \<Rightarrow> ret (found + 1, cleaned)))
        (due sub r)"
      by (auto simp: due_def split: option.split sum.split intro!: clear returns_intros)
  qed
qed

text \<open>The variable after a tick, and the rounds a sequence of ticks scans.\<close>

definition scanned_after :: "u32 option \<Rightarrow> u32 \<Rightarrow> u32 option" where
  "scanned_after l c = (if c \<le> scan_start l c then l else Some (c - 1))"

fun scans :: "u32 option \<Rightarrow> u32 list \<Rightarrow> u32 list" where
  "scans l [] = []"
| "scans l (c # cs) = u32_span (scan_start l c) c @ scans (scanned_after l c) cs"

lemma u32_span_empty: "b \<le> a \<Longrightarrow> u32_span a b = []"
  by (simp add: u32_span_def word_le_nat_alt)

lemma cleanup_run:
  assumes node: "cleanup_node api who sub"
  shows "\<exists>n t evs. run_clear_old_rounds_cleanup api who c s = (Ok n, t) \<and>
    last_scanned_round t = scanned_after (last_scanned_round s) c \<and> trace t = trace s @ evs \<and>
    visible cleared evs = concat (List.map (due sub) (u32_span (scan_start (last_scanned_round s) c) c))"
proof -
  let ?start = "scan_start (last_scanned_round s) c"
  have "takes_transactions api who" using node by (simp add: cleanup_node_def)
  from returns_storage_at_head [OF this] obtain at s1
    where head: "storage_at_head api s = (Ok at, s1)" "shows_only cleared s s1 []" by (rule returnsE)
  then have last: "last_scanned_round s1 = last_scanned_round s" using last_scanned_framed frames_storage_at_head
    by metis
  show ?thesis
  proof (cases "c \<le> ?start")
    case True
    with head last show ?thesis
      by (auto simp: run_clear_old_rounds_cleanup_def scanned_after_def u32_span_empty io_bind_def io_get_def
          ret_def Let_def shows_only_def)
  next
    case False
    from returns_fold [OF returns_scan_round [OF node]] obtain n s2
      where scan: "io_fold (scan_round api who at) (u32_span ?start c) (0, 0) s1 = (Ok n, s2)"
        "shows_only cleared s1 s2 (concat (List.map (due sub) (u32_span ?start c)))"
      by (rule returnsE)
    from False have "c \<noteq> 0" by auto
    then have "saturating_sub c 1 = c - 1" by (simp add: saturating_sub_def)
    with head last scan(1) False \<open>c \<noteq> 0\<close> have "run_clear_old_rounds_cleanup api who c s =
        (Ok (snd n), s2\<lparr>trace := trace s2 @ [Metric (OldSubmissionsFound (fst n))],
           last_scanned_round := Some (c - 1)\<rparr>)"
      by (cases n) (simp add: run_clear_old_rounds_cleanup_def io_defs)
    with head(2) scan(2) False show ?thesis by (auto simp: scanned_after_def shows_only_def)
  qed
qed

lemma clear_old_rounds_loop_run:
  assumes node: "cleanup_node api who sub"
  shows "\<exists>t evs. clear_old_rounds_loop api who (List.map ClearOldRoundsTick cs) s =
      (Err (TaskFailure ClearOldRoundsTask), t) \<and> trace t = trace s @ evs \<and>
    visible cleared evs = concat (List.map (due sub) (scans (last_scanned_round s) cs))"
proof (induction cs arbitrary: s)
  case (Cons c cs)
  from cleanup_run [OF node, of c s] obtain n t evs
    where run: "run_clear_old_rounds_cleanup api who c s = (Ok n, t)" "trace t = trace s @ evs"
      "last_scanned_round t = scanned_after (last_scanned_round s) c"
      "visible cleared evs = concat (List.map (due sub) (u32_span (scan_start (last_scanned_round s) c) c))"
    by blast
  let ?u = "t\<lparr>trace := trace t @ [Metric (CleanupSuccess n)]\<rparr>"
  from Cons.IH [of ?u] obtain t' evs' where "clear_old_rounds_loop api who (List.map ClearOldRoundsTick cs) ?u =
      (Err (TaskFailure ClearOldRoundsTask), t')" "trace t' = trace ?u @ evs'"
      "visible cleared evs' = concat (List.map (due sub) (scans (last_scanned_round ?u) cs))"
    by blast
  with run show ?case
    by (auto simp: clear_old_rounds_tick_def io_bind_def io_try_def emit_def
        intro!: exI [of _ "evs @ Metric (CleanupSuccess n) # evs'"])
qed (simp add: throw_def)

text \<open>For increasing ticks the scans are the rounds of the windows, each once.\<close>

definition scanned_to :: "u32 option \<Rightarrow> nat" where
  "scanned_to l = (case l of Some l \<Rightarrow> unat l + 1 | None \<Rightarrow> 0)"

lemma scans_windows:
  assumes "sorted_wrt (<) cs" and "\<forall>c \<in> set cs. scanned_to l \<le> unat c"
  shows "sorted_wrt (<) (List.map unat (scans l cs)) \<and>
    set (List.map unat (scans l cs)) =
      {r. scanned_to l \<le> r \<and> (\<exists>c \<in> set cs. unat c \<le> r + 5 \<and> r < unat c)}"
  using assms
proof (induction cs arbitrary: l)
  case (Cons c cs)
  have to: "scanned_to l \<le> unat c" using Cons.prems by simp
  have "l' + 1 \<noteq> 0" if "l = Some l'" for l'
  proof
    assume "l' + 1 = 0"
    then have "l' = - 1" by (simp add: eq_neg_iff_add_eq_0)
    moreover have "unat c \<le> unat (- 1 :: u32)" by (simp flip: word_le_nat_alt)
    ultimately show False using to that by (simp add: scanned_to_def)
  qed
  then have start: "unat (scan_start l c) = max (unat c - 5) (scanned_to l)"
    by (simp add: unat_scan_start scanned_to_def)
  have after: "scanned_to (scanned_after l c) = unat c"
  proof (cases "c \<le> scan_start l c")
    case True
    with start to show ?thesis by (auto simp: scanned_after_def word_le_nat_alt)
  next
    case False
    then have "c \<noteq> 0" by auto
    then have "unat (c - 1) + 1 = unat c" by (simp add: unat_minus_one unat_gt_0 Suc_diff_1)
    with False show ?thesis by (simp add: scanned_after_def scanned_to_def)
  qed
  have "sorted_wrt (<) (List.map unat (scans (scanned_after l c) cs)) \<and>
    set (List.map unat (scans (scanned_after l c) cs)) =
      {r. unat c \<le> r \<and> (\<exists>c' \<in> set cs. unat c' \<le> r + 5 \<and> r < unat c')}"
    using Cons.IH [of "scanned_after l c"] Cons.prems by (auto simp: after word_less_nat_alt less_imp_le)
  moreover have "\<forall>c' \<in> set cs. unat c < unat c'" using Cons.prems by (simp add: word_less_nat_alt)
  ultimately show ?case
    using start to
    by (auto simp: sorted_wrt_append unat_u32_span less_imp_le_nat) (drule (1) bspec, linarith)
qed simp



end
