(* ===== verification/Era_Pruning.thy ===== *)
theory Era_Pruning
  imports Submission_Safety Node_Runs Test_Node Task_Loop
begin

text \<open>
  The task that prunes old eras (\<open>lazy_era_pruning_task\<close>,
  \<open>get_pruneable_era_index\<close>, \<open>call_prune_era_step\<close> in
  \<open>src/src/commands/multi_block/monitor.rs\<close>).
\<close>

subsection \<open>Definitions\<close>

datatype era_pruning_message = EnterOffPhase | ExitOffPhase | NewBlock u32

record ('w, 'v) era_sys = "('w, 'v) sys" +
  pruning_active :: bool

type_synonym ('w, 'sol, 'm, 'a) era_prog = "(('w, 'sol event, 'm) era_sys_scheme, error, 'a) io"

text \<open>
  Iterating over the keys of \<open>EraPruningState\<close> at a block: opening the iterator
  may fail, and every entry is key bytes or an error.
\<close>

type_synonym 'w era_iter = "at_block \<Rightarrow> ('w, (subxt_error + u8 list) list) ext"

text \<open>\<open>u32::decode\<close> on four bytes, little endian.\<close>

definition decode_u32 :: "u8 list \<Rightarrow> u32" where
  "decode_u32 bs = foldr (\<lambda>b acc. ucast b + 256 * acc) bs 0"

definition era_of_key :: "u8 list \<Rightarrow> u32 option" where
  "era_of_key key_bytes =
     (if 4 \<le> length key_bytes then Some (decode_u32 (drop (length key_bytes - 4) key_bytes)) else None)"

text \<open>The \<open>try_fold\<close> over the entries.\<close>

primrec collect_eras :: "u32 list \<Rightarrow> (subxt_error + u8 list) list \<Rightarrow> error + u32 list" where
  "collect_eras acc [] = Inr acc"
| "collect_eras acc (entry # entries) =
     (case entry of
        Inl e \<Rightarrow> Inl (from_subxt e)
      | Inr key_bytes \<Rightarrow>
          collect_eras (case era_of_key key_bytes of Some era \<Rightarrow> acc @ [era] | None \<Rightarrow> acc) entries)"

definition get_pruneable_era_index ::
  "('w, 'sol) chain_api \<Rightarrow> 'w era_iter \<Rightarrow> ('w, 'sol event, 'm, u32 \<times> u32 option) prog" where
  "get_pruneable_era_index api iter =
     io_bind (storage_at_head api) (\<lambda>at.
     io_bind (io_try (await (iter at))) (\<lambda>r.
     case r of
       Inl _ \<Rightarrow> ret (0, None)
     | Inr entries \<Rightarrow>
         io_bind (io_result (collect_eras [] entries)) (\<lambda>era_indices.
         let sorted_eras = sort era_indices in
         ret (word_of_nat (length sorted_eras),
              case sorted_eras of [] \<Rightarrow> None | oldest # _ \<Rightarrow> Some oldest))))"

definition call_prune_era_step ::
  "('w, 'sol) chain_api \<Rightarrow> account_id \<Rightarrow> u32 \<Rightarrow> ('w, 'sol event, 'm, unit) prog" where
  "call_prune_era_step api who era =
     io_bind (await (api_at_current_block api)) (\<lambda>at.
     io_bind (await (api_nonce api who)) (\<lambda>nonce.
     io_bind (send_tx api (with_restrict_origins api at
        \<lparr>ext_call = PruneEraStep era, ext_nonce = nonce, ext_mortal = None, ext_restrict = False\<rparr>)) (\<lambda>tx.
     io_seq (wait_tx_in_finalized_block api tx)
     (emit (Metric EraPruningSubmissionSuccess)))))"

text \<open>\<open>NewBlock\<close> while pruning is active.\<close>

definition prune_block ::
  "('w, 'sol) chain_api \<Rightarrow> 'w era_iter \<Rightarrow> account_id \<Rightarrow> ('w, 'sol event, 'm, unit) prog" where
  "prune_block api iter who =
     io_bind (io_timeout (get_pruneable_era_index api iter)) (\<lambda>r.
     case r of
       Some (Inr (era_count, Some oldest_era)) \<Rightarrow>
         io_seq (emit (Metric (EraPruningMapSize era_count)))
        (io_bind (io_try (call_prune_era_step api who oldest_era)) (\<lambda>r.
         case r of
           Inr _ \<Rightarrow> ret ()
         | Inl e \<Rightarrow> emit (Metric EraPruningSubmissionFailure)))
     | Some (Inr (era_count, None)) \<Rightarrow> emit (Metric (EraPruningMapSize era_count))
     | Some (Inl e) \<Rightarrow> ret ()
     | None \<Rightarrow> emit (Metric EraPruningTimeout))"

definition handle_era ::
  "('w, 'sol) chain_api \<Rightarrow> 'w era_iter \<Rightarrow> account_id \<Rightarrow> era_pruning_message \<Rightarrow>
     ('w, 'sol, 'm, unit) era_prog" where
  "handle_era api iter who msg =
     (case msg of
        EnterOffPhase \<Rightarrow> io_modify (\<lambda>s. s\<lparr>pruning_active := True\<rparr>)
      | ExitOffPhase \<Rightarrow> io_modify (\<lambda>s. s\<lparr>pruning_active := False\<rparr>)
      | NewBlock block_number \<Rightarrow>
          io_bind (io_get pruning_active) (\<lambda>active.
          if \<not> active then ret () else prune_block api iter who))"

primrec era_pruning_loop ::
  "('w, 'sol) chain_api \<Rightarrow> 'w era_iter \<Rightarrow> account_id \<Rightarrow> era_pruning_message list \<Rightarrow>
     ('w, 'sol, 'm, unit) era_prog" where
  "era_pruning_loop api iter who [] = throw (TaskFailure EraPruningTask)"
| "era_pruning_loop api iter who (msg # msgs) =
     io_seq (handle_era api iter who msg) (era_pruning_loop api iter who msgs)"

definition lazy_era_pruning_task ::
  "('w, 'sol) chain_api \<Rightarrow> 'w era_iter \<Rightarrow> account_id \<Rightarrow> era_pruning_message list \<Rightarrow>
     ('w, 'sol, 'm, unit) era_prog" where
  "lazy_era_pruning_task api iter who msgs =
     io_seq (io_modify (\<lambda>s. s\<lparr>pruning_active := False\<rparr>)) (era_pruning_loop api iter who msgs)"

lemmas [run_defs] = decode_u32_def era_of_key_def get_pruneable_era_index_def call_prune_era_step_def
  prune_block_def handle_era_def lazy_era_pruning_task_def

interpretation era: task_loop "handle_era api iter who" "era_pruning_loop api iter who"
  "TaskFailure EraPruningTask" for api iter who
  by unfold_locales simp_all

subsection \<open>Reading the era map\<close>

text \<open>The little-endian encoding of an era index, the last four bytes of its key.\<close>

definition encode_u32 :: "u32 \<Rightarrow> u8 list" where
  "encode_u32 w = List.map (\<lambda>k. word_of_nat (unat w div 256 ^ k)) [0, 1, 2, 3]"

lemma decode_encode_u32: "decode_u32 (encode_u32 w) = w"
proof -
  define n where "n = unat w"
  have byte: "(ucast (word_of_nat k :: u8) :: u32) = word_of_nat (k mod 256)" for k
    by (rule unsigned_word_eqI [where ?'a = nat])
      (simp add: unsigned_of_nat take_bit_eq_mod unsigned_ucast_eq)
  have "decode_u32 (encode_u32 w) =
      word_of_nat (n mod 256 + 256 * (n div 256 mod 256 + 256 * (n div 65536 mod 256 +
        256 * (n div 16777216 mod 256))))"
    by (simp add: decode_u32_def encode_u32_def n_def [symmetric] byte)
  moreover have "n mod 256 + 256 * (n div 256 mod 256 + 256 * (n div 65536 mod 256 +
      256 * (n div 16777216 mod 256))) = n"
  proof -
    have "n < 256 * 16777216" using unsigned_less [of w] by (simp add: n_def)
    then have "n div 16777216 < 256" by (rule less_mult_imp_div_less)
    then have top: "n div 16777216 mod 256 = n div 256 div 256 div 256"
      by (simp only: mod_less div_mult2_eq [symmetric]) simp
    have "n div 65536 = n div 256 div 256" by (simp only: div_mult2_eq [symmetric]) simp
    then show ?thesis by (simp only: top mod_mult_div_eq)
  qed
  moreover have "word_of_nat n = w" by (simp add: n_def)
  ultimately show ?thesis by (simp only:)
qed

lemma era_of_key_suffix: "era_of_key (hashed @ encode_u32 era) = Some era"
proof -
  have "length (encode_u32 era) = 4" by (simp add: encode_u32_def)
  then show ?thesis by (simp add: era_of_key_def decode_encode_u32)
qed

text \<open>The entries of a map whose keys are a hash followed by the era index.\<close>

definition era_entries :: "(u8 list \<times> u32) list \<Rightarrow> (subxt_error + u8 list) list" where
  "era_entries es = List.map (\<lambda>(hashed, era). Inr (hashed @ encode_u32 era)) es"

lemma collect_era_entries: "collect_eras acc (era_entries es) = Inr (acc @ List.map snd es)"
  by (induction es arbitrary: acc) (auto simp: era_entries_def era_of_key_suffix)

lemma oldest_is_minimum: "(case sort xs of [] \<Rightarrow> None | x # _ \<Rightarrow> Some x) =
    (if xs = [] then None else Some (Min (set xs)))"
proof (cases "sort xs")
  case (Cons y ys)
  have "set (sort xs) = set xs" by simp
  with Cons have "set xs = insert y (set ys)" by simp
  moreover have "\<forall>z \<in> set ys. y \<le> z" using sorted_sort [of xs] Cons by simp
  ultimately have "Min (set xs) = y" by (simp add: Min_insert2)
  with Cons show ?thesis by auto
qed (use length_sort [of "\<lambda>x. x" xs] in simp)

subsection \<open>At most one step per active block\<close>

fun pruned :: "'sol event \<Rightarrow> 'sol runtime_call list" where
  "pruned (SentTx x) = [ext_call x]"
| "pruned _ = []"

text \<open>Whether pruning is active after a message, and how many steps the handling
  of a message may send.\<close>

fun active_after :: "bool \<Rightarrow> era_pruning_message \<Rightarrow> bool" where
  "active_after active EnterOffPhase = True"
| "active_after active ExitOffPhase = False"
| "active_after active (NewBlock _) = active"

fun steps_allowed :: "bool \<Rightarrow> era_pruning_message \<Rightarrow> nat" where
  "steps_allowed active (NewBlock _) = (if active then 1 else 0)"
| "steps_allowed active _ = 0"

fun allowance :: "bool \<Rightarrow> era_pruning_message list \<Rightarrow> nat list" where
  "allowance active [] = []"
| "allowance active (msg # msgs) = steps_allowed active msg # allowance (active_after active msg) msgs"

definition prune_monitor :: "nat \<Rightarrow> 'sol event \<Rightarrow> nat option" where
  "prune_monitor n ev =
     (case ev of
        SentTx x \<Rightarrow> (case (ext_call x, n) of (PruneEraStep _, Suc m) \<Rightarrow> Some m | _ \<Rightarrow> None)
      | _ \<Rightarrow> Some n)"

text \<open>A monitor state is the number of steps left.\<close>

lemma run_prune_monitor:
  "run_monitor prune_monitor n evs = Some m \<Longrightarrow>
     length (visible pruned evs) \<le> n \<and> (\<forall>c \<in> set (visible pruned evs). \<exists>era. c = PruneEraStep era)"
proof (induction evs arbitrary: n)
  case (Cons ev evs)
  then obtain n' where step: "prune_monitor n ev = Some n'" "run_monitor prune_monitor n' evs = Some m"
    by (auto split: option.splits)
  show ?case
  proof (cases ev)
    case (SentTx x)
    with step(1) obtain era where "ext_call x = PruneEraStep era" "n = Suc n'"
      by (auto simp: prune_monitor_def split: runtime_call.splits nat.splits)
    with SentTx Cons.IH [OF step(2)] show ?thesis by simp
  qed (use step(1) Cons.IH [OF step(2)] in \<open>auto simp: prune_monitor_def\<close>)
qed simp

lemma safe_get_pruneable:
  "(\<And>x. Q x g) \<Longrightarrow> E g \<Longrightarrow> safe d (get_pruneable_era_index api iter) Q E g"
  unfolding get_pruneable_era_index_def Let_def
  by (intro safe_intros conjI allI) (auto intro!: safe_intros)

lemma safe_call_prune:
  "safe prune_monitor (call_prune_era_step api who era) (\<lambda>_ _. True) (\<lambda>_. True) (Suc 0)"
  unfolding call_prune_era_step_def
  by (intro safe_intros TrueI, rule safe_send_tx [where g' = 0])
    (simp_all add: prune_monitor_def with_restrict_origins_def safe_emit_iff safe_bind
      safe_silent [OF silent_wait_tx])

lemma safe_prune_block: "safe prune_monitor (prune_block api iter who) (\<lambda>_ _. True) (\<lambda>_. True) (Suc 0)"
  unfolding prune_block_def
  by (intro safe_intros safe_get_pruneable conjI allI TrueI)
    (auto simp: safe_emit_iff prune_monitor_def intro!: safe_intros safe_mono [OF safe_call_prune])

lemma frames_prune_block [frames_intros]: "frames (prune_block api iter who)"
  unfolding prune_block_def get_pruneable_era_index_def call_prune_era_step_def Let_def
  by (intro frames_intros)

lemma infallible_prune_block [infallible_intros]: "infallible (prune_block api iter who)"
  unfolding prune_block_def
  by (auto intro!: infallible_intros split: option.split sum.split)

lemma infallible_handle_era: "infallible (handle_era api iter who msg)"
  unfolding handle_era_def by (cases msg) (simp_all add: infallible_intros)

definition prune_calls :: "nat \<Rightarrow> 'sol event list \<Rightarrow> bool" where
  "prune_calls n evs \<longleftrightarrow>
     length (visible pruned evs) \<le> n \<and> (\<forall>c \<in> set (visible pruned evs). \<exists>era. c = PruneEraStep era)"

lemma handle_era_run:
  assumes "handle_era api iter who msg s = (r, t)"
  shows "\<exists>evs. trace t = trace s @ evs \<and> prune_calls (steps_allowed (pruning_active s) msg) evs \<and>
    pruning_active t = active_after (pruning_active s) msg"
proof (cases "\<exists>n. msg = NewBlock n \<and> pruning_active s")
  case True
  with assms have run: "prune_block api iter who s = (r, t)"
    by (auto simp: handle_era_def io_bind_def io_get_def)
  have "pruning_active t = pruning_active s"
    using framesD [OF frames_prune_block run] by (cases s; cases t) simp
  moreover obtain evs g where "trace t = trace s @ evs" "run_monitor prune_monitor (Suc 0) evs = Some g"
    using safeD [OF safe_prune_block run] by blast
  ultimately show ?thesis
    using True run_prune_monitor [of "Suc 0" evs g] by (auto simp: prune_calls_def)
next
  case False
  with assms show ?thesis
    by (cases msg) (auto simp: handle_era_def io_defs prune_calls_def intro!: exI [of _ "[]"])
qed

lemma era_pruning_loop_run:
  assumes "era_pruning_loop api iter who msgs s = (r, t)"
  shows "\<exists>parts. trace t = trace s @ concat parts \<and> length parts \<le> length msgs \<and>
    (\<forall>i < length parts. prune_calls (allowance (pruning_active s) msgs ! i) (parts ! i))"
  using assms
proof (induction msgs arbitrary: s)
  case (Cons msg msgs)
  obtain r1 s1 where run: "handle_era api iter who msg s = (r1, s1)" by fastforce
  from handle_era_run [OF run] obtain evs where evs: "trace s1 = trace s @ evs"
    "prune_calls (steps_allowed (pruning_active s) msg) evs"
    "pruning_active s1 = active_after (pruning_active s) msg" by blast
  show ?case
  proof (cases "is_ok r1")
    case True
    with Cons.prems run have "era_pruning_loop api iter who msgs s1 = (r, t)"
      by (cases r1) (auto simp: io_bind_def)
    from Cons.IH [OF this] obtain parts where "trace t = trace s1 @ concat parts"
      "length parts \<le> length msgs"
      "\<forall>i < length parts. prune_calls (allowance (pruning_active s1) msgs ! i) (parts ! i)" by blast
    with evs show ?thesis by (intro exI [of _ "evs # parts"]) (auto simp: less_Suc_eq_0_disj)
  next
    case False
    with Cons.prems run have "t = s1" by (cases r1) (auto simp: io_bind_def)
    with evs show ?thesis by (intro exI [of _ "[evs]"]) simp
  qed
qed (auto simp: throw_def intro: exI [of _ "[]"])

text \<open>C24. Whatever the node does, handling a message sends at most one
  transaction, a \<open>prune_era_step\<close>, and only for a new block received while
  pruning is active, between entering and leaving the off phase.\<close>

theorem era_pruning_rate_limited:
  assumes "lazy_era_pruning_task api iter who msgs s = (r, t)"
  shows "\<exists>parts. trace t = trace s @ concat parts \<and> length parts \<le> length msgs \<and>
    (\<forall>i < length parts. length (visible pruned (parts ! i)) \<le> allowance False msgs ! i \<and>
       (\<forall>c \<in> set (visible pruned (parts ! i)). \<exists>era. c = PruneEraStep era))"
  using era_pruning_loop_run [of api iter who msgs "s\<lparr>pruning_active := False\<rparr>" r t] assms
  by (simp add: lazy_era_pruning_task_def io_bind_def io_modify_def prune_calls_def)


subsection \<open>What is pruned\<close>

text \<open>A node whose era map keeps the entries \<open>es\<close>, the key of an era being a hash
  followed by its index.\<close>

definition era_node :: "('w, 'sol) chain_api \<Rightarrow> 'w era_iter \<Rightarrow> account_id \<Rightarrow> (u8 list \<times> u32) list \<Rightarrow> bool" where
  "era_node api iter who es \<longleftrightarrow>
     takes_transactions api who \<and> (\<forall>at. yields (iter at) (era_entries es))"

definition oldest_era :: "(u8 list \<times> u32) list \<Rightarrow> u32 option" where
  "oldest_era es = (if es = [] then None else Some (Min (snd ` set es)))"

lemma gives_pruneable:
  assumes "era_node api iter who es"
  shows "gives P (get_pruneable_era_index api iter) (word_of_nat (length es), oldest_era es) []"
proof -
  have takes: "takes_transactions api who" and stored: "yields (iter at) (era_entries es)" for at
    using assms by (simp_all add: era_node_def)
  note quiet = gives_after [where rs = "[]" and rs' = "[]", simplified]
    gives_bind [where rs = "[]" and rs' = "[]", simplified]
  show ?thesis
    unfolding get_pruneable_era_index_def
    by (rule quiet(1) [OF returns_storage_at_head [OF takes]],
        rule quiet(2) [OF gives_try [OF gives_await [OF stored]]])
      (simp add: collect_era_entries oldest_is_minimum oldest_era_def gives_ret)
qed

lemma settles_call_prune:
  assumes "takes_transactions api who"
  shows "settles pruned (call_prune_era_step api who era) [PruneEraStep era]"
proof -
  have "returns pruned (emit (Metric EraPruningSubmissionSuccess)) []"
    using returns_emit [of pruned "Metric EraPruningSubmissionSuccess"] by simp
  then show ?thesis
    unfolding call_prune_era_step_def
    using assms
    by (intro settles_quiet returns_intros settles_send_and_wait settles_returns)
      (auto simp: takes_transactions_def with_restrict_origins_def)
qed

definition prune_call :: "(u8 list \<times> u32) list \<Rightarrow> 'sol runtime_call list" where
  "prune_call es = (case oldest_era es of Some era \<Rightarrow> [PruneEraStep era] | None \<Rightarrow> [])"

lemma returns_metric: "returns pruned (emit (Metric k)) []"
  using returns_emit [of pruned "Metric k"] by simp

lemma returns_prune_block:
  assumes node: "era_node api iter who es"
  shows "returns pruned (prune_block api iter who) (prune_call es)"
proof -
  have takes: "takes_transactions api who" using node by (simp add: era_node_def)
  note step = returns_bind [OF returns_try [OF settles_call_prune [OF takes]], where rs' = "[]", simplified]
  have "returns pruned (prune_block api iter who) ([] @ prune_call es)"
    unfolding prune_block_def
    by (rule returns_bind_gives [OF gives_timeout [OF gives_pruneable [OF node]]])
      (auto simp: prune_call_def split: option.split sum.split
        intro!: returns_metric returns_quiet [OF returns_metric] step returns_intros)
  then show ?thesis by simp
qed

lemma era_pruning_loop_prunes:
  assumes node: "era_node api iter who es"
  shows "\<exists>t evs. era_pruning_loop api iter who msgs s = (Err (TaskFailure EraPruningTask), t) \<and>
    trace t = trace s @ evs \<and>
    visible pruned evs = concat (replicate (sum_list (allowance (pruning_active s) msgs)) (prune_call es))"
proof (induction msgs arbitrary: s)
  case (Cons msg msgs)
  have "\<exists>t evs. handle_era api iter who msg s = (Ok (), t) \<and> trace t = trace s @ evs \<and>
      pruning_active t = active_after (pruning_active s) msg \<and>
      visible pruned evs = concat (replicate (steps_allowed (pruning_active s) msg) (prune_call es))"
  proof (cases "\<exists>n. msg = NewBlock n \<and> pruning_active s")
    case True
    obtain x t where run: "prune_block api iter who s = (Ok x, t)" "shows_only pruned s t (prune_call es)"
      using returns_prune_block [OF node] by (rule returnsE)
    have "pruning_active t = pruning_active s"
      using framesD [OF frames_prune_block run(1)] by (cases s; cases t) simp
    with run True show ?thesis by (auto simp: handle_era_def io_bind_def io_get_def shows_only_def)
  next
    case False
    then show ?thesis by (cases msg) (auto simp: handle_era_def io_defs intro!: exI [of _ "[]"])
  qed
  then obtain t evs where one: "handle_era api iter who msg s = (Ok (), t)" "trace t = trace s @ evs"
      "pruning_active t = active_after (pruning_active s) msg"
      "visible pruned evs = concat (replicate (steps_allowed (pruning_active s) msg) (prune_call es))"
    by blast
  from Cons.IH [of t] one show ?case by (auto simp: io_bind_def replicate_add)
qed (simp add: throw_def)


text \<open>Concrete instances: eras 7 and 5 in the map, one block in the off phase and
  one after it.\<close>

definition test_eras :: "(u8 list \<times> u32) list" where
  "test_eras = [([1], 7), ([2], 5)]"

definition test_era_messages :: "era_pruning_message list" where
  "test_era_messages = [NewBlock 1, EnterOffPhase, NewBlock 2, ExitOffPhase, NewBlock 3]"


theorem era_pruning_rate_limited_witness:
  "\<exists>parts. trace (snd (lazy_era_pruning_task (test_node [] Off None)
      (\<lambda>at w. (Ok [Inr [9, 5, 0, 0, 0]], w)) test_account [EnterOffPhase, NewBlock 2]
      \<lparr>world = [], trace = [], pruning_active = False\<rparr>)) = concat parts \<and>
    (\<forall>i < length parts. length (visible pruned (parts ! i)) \<le> [0, 1] ! i) \<and>
    visible pruned (concat parts) = [PruneEraStep 5]"
proof -
  let ?s = "\<lparr>world = [], trace = [], pruning_active = False\<rparr>"
  obtain r t where run: "lazy_era_pruning_task (test_node [] Off None)
      (\<lambda>at w. (Ok [Inr [9, 5, 0, 0, 0]], w)) test_account [EnterOffPhase, NewBlock 2] ?s = (r, t)"
    by fastforce
  moreover from run have "visible pruned (trace t) = [PruneEraStep 5]"
    by (simp add: run_defs io_defs) auto
  ultimately show ?thesis using era_pruning_rate_limited [OF run] by auto
qed

end
