(* ===== verification/Listener.thy ===== *)
theory Listener
  imports Miner Client Cleanup Era_Pruning "HOL-Library.Sublist"
begin

text \<open>
  The listener task of \<open>src/src/commands/multi_block/monitor.rs\<close>: it follows
  the finalized blocks, tells the other tasks what to do, and recreates its
  subscription when blocks stop coming.  The block stream and the bounded
  channels are parameters; the time of the last block, which nothing reads, and
  duration metrics are left out.
\<close>

subsection \<open>Parameters\<close>

record header =
  hd_number :: u64
  hd_hash :: hash

datatype listener_event =
    Connection client_event
  | ToMiner miner_message
  | ToClear clear_old_rounds_message
  | ToEra era_pruning_message
  | GotBlock header
  | SubscriptionStall
  | Subscribed
  | BlockProcessingStall
  | BlockProcessed
  | SleptMs nat

text \<open>\<open>try_send\<close> on a bounded channel.\<close>

datatype send_result = Sent | Full | Closed

text \<open>
  A channel: \<open>try_send\<close> answers at once; \<open>send\<close> waits for room, fails when
  the receiver is gone, and is \<open>Pending\<close> when it is still waiting at the
  deadline of the caller.
\<close>

record ('w, 'msg) channel =
  ch_try_send :: "'msg \<Rightarrow> 'w \<Rightarrow> send_result \<times> 'w"
  ch_send :: "'msg \<Rightarrow> 'w \<Rightarrow> (unit, unit) outcome \<times> 'w"

record 'w task_channels =
  miner_tx :: "('w, miner_message) channel"
  clear_old_rounds_tx :: "('w, clear_old_rounds_message) channel"
  era_pruning_tx :: "('w, era_pruning_message) channel"

text \<open>
  The node as the listener uses it: \<open>stream_blocks\<close>, \<open>next\<close> on a stream
  (\<open>None\<close> when nothing comes within the subscription timeout, an item that is
  \<open>None\<close> at the end of the stream), the predicate
  \<open>is_disconnected_will_reconnect\<close>, and the connector of the client.
\<close>

record ('w, 'c, 'str, 'sol) listener_env =
  le_api :: "(('w, 'c) client_world, 'sol) chain_api"
  le_connect :: "(('w, 'c) client_world, 'c) connector"
  le_stream_blocks :: "'c \<Rightarrow> (('w, 'c) client_world, 'str) ext"
  le_next :: "'str \<Rightarrow> ('w, 'c) client_world \<Rightarrow>
    (subxt_error + header) option option \<times> ('w, 'c) client_world"
  le_will_reconnect :: "subxt_error \<Rightarrow> bool"
  le_channels :: "('w, 'c) client_world task_channels"
  le_n_pages :: u32

subsection \<open>State\<close>

record ('w, 'v, 'str) listener_state = "('w, 'v) client_sys" +
  prev_round :: "u32 option"
  prev_phase :: "phase option"
  subscription_recreation_attempts :: u32
  subscription :: 'str

type_synonym ('w, 'c, 'str, 'm, 'a) listener_prog =
  "((('w, 'c) client_world, listener_event, 'str, 'm) listener_state_scheme, error, 'a) io"

datatype listener_action = Continue | SubscriptionRecreated | BlockProcessingTimeout

text \<open>An operation of the environment that cannot fail.\<close>

definition poll :: "('w \<Rightarrow> 'a \<times> 'w) \<Rightarrow> ('w, 'v, 'm, 'a) prog" where
  "poll f = (\<lambda>s. case f (world s) of (x, w) \<Rightarrow> (Ok x, s\<lparr>world := w\<rparr>))"

lemmas [io_defs] = poll_def

text \<open>The two ways to send; a message is in the trace when it is in the channel.\<close>

definition try_send ::
  "('msg \<Rightarrow> listener_event) \<Rightarrow> ('w, 'msg) channel \<Rightarrow> 'msg \<Rightarrow> ('w, listener_event, 'm, send_result) prog" where
  "try_send ev ch msg =
     io_bind (poll (ch_try_send ch msg)) (\<lambda>r.
     io_seq (if r = Sent then emit (ev msg) else ret ()) (ret r))"

definition send ::
  "('msg \<Rightarrow> listener_event) \<Rightarrow> ('w, 'msg) channel \<Rightarrow> 'msg \<Rightarrow> error \<Rightarrow> ('w, listener_event, 'm, unit) prog" where
  "send ev ch msg closed =
     io_seq (io_map_err (\<lambda>_. closed) (call (ch_send ch msg))) (emit (ev msg))"

subsection \<open>Processing a block\<close>

definition get_block_state ::
  "('w, 'sol) chain_api \<Rightarrow> hash \<Rightarrow> ('w, 'v, 'm, at_block \<times> phase \<times> u32) prog" where
  "get_block_state api block_hash =
     io_bind (storage_at api (Some block_hash)) (\<lambda>at.
     io_bind (await (api_phase api at)) (\<lambda>v.
     io_bind (decode_value v) (\<lambda>ph.
     io_bind (await (api_round api at)) (\<lambda>v.
     io_bind (decode_value v) (\<lambda>current_round.
     ret (at, ph, current_round))))))"

definition on_round_increment ::
  "'w task_channels \<Rightarrow> u32 \<Rightarrow> phase \<Rightarrow> ('w, listener_event, 'm, unit) prog" where
  "on_round_increment chs current_round ph =
     io_bind (try_send ToClear (clear_old_rounds_tx chs) (ClearOldRoundsTick current_round)) (\<lambda>r.
     io_seq (if r = Closed then throw (ChannelFailure ClearOldRoundsChannel) else ret ())
     (if ph = Off then
        send ToMiner (miner_tx chs) ClearSnapshots (OtherError ''Failed to send clear snapshots signal: channel closed'')
      else ret ()))"

text \<open>The era messages of a block in the off phase.\<close>

definition off_phase_block ::
  "'w task_channels \<Rightarrow> phase option \<Rightarrow> u32 \<Rightarrow> ('w, listener_event, 'm, unit) prog" where
  "off_phase_block chs last_phase block_number =
     io_seq
       (case last_phase of
          Some lp \<Rightarrow>
            if lp \<noteq> Off then send ToEra (era_pruning_tx chs) EnterOffPhase (ChannelFailure EraPruningChannel)
            else ret ()
        | None \<Rightarrow> send ToEra (era_pruning_tx chs) EnterOffPhase (ChannelFailure EraPruningChannel))
    (io_seq (try_send ToEra (era_pruning_tx chs) (NewBlock block_number))
            (emit BlockProcessed))"

text \<open>A block of the snapshot or signed phase: its details go to the miner.\<close>

definition mining_block ::
  "('w, 'sol) chain_api \<Rightarrow> 'w task_channels \<Rightarrow> u32 \<Rightarrow> phase option \<Rightarrow> header \<Rightarrow> phase \<Rightarrow> u32 \<Rightarrow>
     ('w, listener_event, 'm, unit) prog" where
  "mining_block api chs n last_phase at ph current_round =
     io_seq
       (if last_phase = Some Off then
          send ToEra (era_pruning_tx chs) ExitOffPhase (ChannelFailure EraPruningChannel)
        else ret ())
    (io_bind (block_details_new api n (ucast (hd_number at)) ph (hd_hash at) current_round) (\<lambda>st.
     io_bind (try_send ToMiner (miner_tx chs) (ProcessBlock st)) (\<lambda>r.
     case r of
       Sent \<Rightarrow> emit BlockProcessed
     | Full \<Rightarrow> ret ()
     | Closed \<Rightarrow> throw (ChannelFailure MinerChannel))))"

text \<open>The two announcements of a block, given what the block before was.\<close>

definition announce_round ::
  "'w task_channels \<Rightarrow> u32 option \<Rightarrow> phase \<Rightarrow> u32 \<Rightarrow> ('w, listener_event, 'm, unit) prog" where
  "announce_round chs last_round ph current_round =
     (case last_round of
        Some lr \<Rightarrow> if current_round > lr then on_round_increment chs current_round ph else ret ()
      | None \<Rightarrow> ret ())"

definition announce_phase ::
  "('w, 'sol) chain_api \<Rightarrow> 'w task_channels \<Rightarrow> u32 \<Rightarrow> phase option \<Rightarrow> header \<Rightarrow> phase \<Rightarrow> u32 \<Rightarrow>
     ('w, listener_event, 'm, unit) prog" where
  "announce_phase api chs n last_phase at ph current_round =
     (case ph of
        Off \<Rightarrow> off_phase_block chs last_phase (ucast (hd_number at))
      | Signed _ \<Rightarrow> mining_block api chs n last_phase at ph current_round
      | SnapshotPhase _ \<Rightarrow> mining_block api chs n last_phase at ph current_round
      | OtherPhase _ \<Rightarrow> emit BlockProcessed)"

definition process_block_internal ::
  "('w, 'c, 'str, 'sol) listener_env \<Rightarrow> header \<Rightarrow> ('w, 'c, 'str, 'm, listener_action) listener_prog" where
  "process_block_internal env at =
     io_bind (get_block_state (le_api env) (hd_hash at)) (\<lambda>(_, ph, current_round).
     io_bind (io_get prev_round) (\<lambda>last_round.
     io_seq (io_modify (\<lambda>s. s\<lparr>prev_round := Some current_round\<rparr>))
    (io_seq (announce_round (le_channels env) last_round ph current_round)
    (io_bind (io_get prev_phase) (\<lambda>last_phase.
     io_seq (io_modify (\<lambda>s. s\<lparr>prev_phase := Some ph\<rparr>))
    (io_seq (announce_phase (le_api env) (le_channels env) (le_n_pages env) last_phase at ph current_round)
     (ret Continue)))))))"

subsection \<open>Recreating the subscription\<close>

text \<open>
  The guard of the scrutinee \<open>client.chain_api().await.stream_blocks().await\<close>
  is a temporary of the \<open>match\<close>: it is dropped after the arm that runs.
\<close>

definition stream_blocks ::
  "('w, 'c, 'str, 'sol) listener_env \<Rightarrow> ('w, 'c, 'str, 'm, error + 'str) listener_prog" where
  "stream_blocks env =
     io_seq read_guard
    (io_bind get_client (\<lambda>c. io_try (await (le_stream_blocks env (chain_api c)))))"

definition recreate_subscription_with_failover ::
  "('w, 'c, 'str, 'sol) listener_env \<Rightarrow> ('w, 'c, 'str, 'm, 'str) listener_prog" where
  "recreate_subscription_with_failover env =
     io_bind (stream_blocks env) (\<lambda>r.
     case r of
       Inr sub \<Rightarrow> io_seq drop_guard (ret sub)
     | Inl e \<Rightarrow>
         io_bind (io_try (reconnect Connection (le_connect env))) (\<lambda>f.
         case f of
           Inl _ \<Rightarrow> io_seq drop_guard (throw e)
         | Inr _ \<Rightarrow>
             io_bind (stream_blocks env) (\<lambda>r2.
             io_seq drop_guard
            (io_seq drop_guard
             (case r2 of Inr sub \<Rightarrow> ret sub | Inl e2 \<Rightarrow> throw e2)))))"

text \<open>Count the attempt and give up beyond the limit of three.\<close>

definition recreate_or_give_up ::
  "('w, 'c, 'str, 'sol) listener_env \<Rightarrow> listener_action \<Rightarrow>
     ('w, 'c, 'str, 'm, listener_action) listener_prog" where
  "recreate_or_give_up env action =
     io_seq (io_modify (\<lambda>s. s\<lparr>subscription_recreation_attempts := subscription_recreation_attempts s + 1\<rparr>))
    (io_bind (io_get subscription_recreation_attempts) (\<lambda>attempts.
     if attempts > 3 then throw (SubscriptionRecreationLimitExceeded 3)
     else
       io_bind (recreate_subscription_with_failover env) (\<lambda>sub.
       io_seq (emit Subscribed)
      (io_seq (io_modify (\<lambda>s. s\<lparr>subscription := sub\<rparr>))
       (ret action)))))"

subsection \<open>The loop\<close>

definition process_listener_iteration ::
  "('w, 'c, 'str, 'sol) listener_env \<Rightarrow> ('w, 'c, 'str, 'm, listener_action) listener_prog" where
  "process_listener_iteration env =
     io_bind (io_get subscription) (\<lambda>sub.
     io_bind (poll (le_next env sub)) (\<lambda>next_item.
     case next_item of
       Some (Some (Inr at)) \<Rightarrow>
         io_seq (emit (GotBlock at))
        (io_seq (io_modify (\<lambda>s. s\<lparr>subscription_recreation_attempts := 0\<rparr>))
        (io_bind (io_timeout (process_block_internal env at)) (\<lambda>r.
         case r of
           Some res \<Rightarrow> io_result res
         | None \<Rightarrow>
             io_seq (emit BlockProcessingStall) (recreate_or_give_up env BlockProcessingTimeout))))
     | Some (Some (Inl e)) \<Rightarrow>
         if le_will_reconnect env e then ret Continue else throw (from_subxt e)
     | Some None \<Rightarrow> io_seq (emit SubscriptionStall) (recreate_or_give_up env SubscriptionRecreated)
     | None \<Rightarrow> io_seq (emit SubscriptionStall) (recreate_or_give_up env SubscriptionRecreated)))"

definition listener_iteration ::
  "('w, 'c, 'str, 'sol) listener_env \<Rightarrow> ('w, 'c, 'str, 'm, unit) listener_prog" where
  "listener_iteration env =
     io_bind (io_try (process_listener_iteration env)) (\<lambda>r.
     case r of
       Inr _ \<Rightarrow> ret ()
     | Inl e \<Rightarrow> if is_critical_listener_error e then throw e else emit (SleptMs 100))"

text \<open>The first \<open>n\<close> iterations; the loop itself does not end normally.\<close>

primrec listener_loop ::
  "('w, 'c, 'str, 'sol) listener_env \<Rightarrow> nat \<Rightarrow> ('w, 'c, 'str, 'm, unit) listener_prog" where
  "listener_loop env 0 = ret ()"
| "listener_loop env (Suc n) = io_seq (listener_iteration env) (listener_loop env n)"

definition listener_task ::
  "('w, 'c, 'str, 'sol) listener_env \<Rightarrow> nat \<Rightarrow> ('w, 'c, 'str, 'm, unit) listener_prog" where
  "listener_task env n =
     io_bind (stream_blocks env) (\<lambda>r.
     io_seq drop_guard
    (io_bind (io_result r) (\<lambda>sub.
     io_seq (io_modify (\<lambda>s. s\<lparr>subscription := sub, prev_round := None, prev_phase := None,
                              subscription_recreation_attempts := 0\<rparr>))
            (listener_loop env n))))"

lemmas [run_defs] = try_send_def send_def get_block_state_def on_round_increment_def off_phase_block_def
  mining_block_def announce_round_def announce_phase_def process_block_internal_def stream_blocks_def recreate_subscription_with_failover_def
  recreate_or_give_up_def process_listener_iteration_def listener_iteration_def listener_task_def
  read_guard_def drop_guard_def write_guard_def get_client_def put_client_def reconnect_def
  block_details_new_def

end
