(* ===== verification/Listener_Rules.thy ===== *)
theory Listener_Rules
  imports Listener
begin

text \<open>
  Rules for the steps of the listener: what they emit, and which of the
  listener's variables they leave alone.
\<close>

subsection \<open>Sending and reading\<close>

lemma safe_poll [safe_intros]: "(\<And>x. Q x g) \<Longrightarrow> E g \<Longrightarrow> safe d (poll f) Q E g"
  by (auto simp: safe_def poll_def split: prod.split intro!: exI [of _ "[]"])

lemma safe_try_send:
  assumes "d g (ev msg) = Some g'" "Q Sent g'" "Q Full g" "Q Closed g" "E g"
  shows "safe d (try_send ev ch msg) Q E g"
proof -
  have "safe d (if r = Sent then emit (ev msg) else ret ()) (\<lambda>_. safe d (ret r) Q E) E g" for r
    using assms by (cases r) (auto simp: safe_emit_iff intro!: safe_intros)
  then show ?thesis
    unfolding try_send_def using assms(5) by (intro safe_bind safe_poll)
qed

lemma safe_send:
  assumes "d g (ev msg) = Some g'" "Q () g'" "E g"
  shows "safe d (send ev ch msg closed) Q E g"
  unfolding send_def using assms by (auto intro!: safe_intros simp: safe_emit_iff)

lemma silent_get_block_state: "silent (get_block_state api h)"
  unfolding get_block_state_def by (intro silent_intros)

lemma frames_poll [frames_intros]: "frames (poll f)"
  by (auto simp: frames_def poll_def split: prod.split)

lemma frames_try_send [frames_intros]: "frames (try_send ev ch msg)"
  unfolding try_send_def by (intro frames_intros)

lemma frames_send [frames_intros]: "frames (send ev ch msg closed)"
  unfolding send_def by (intro frames_intros)

lemma frames_get_block_state: "frames (get_block_state api h)"
  unfolding get_block_state_def by (intro frames_intros)

lemma frames_on_round_increment [frames_intros]: "frames (on_round_increment chs rnd ph)"
  unfolding on_round_increment_def by (intro frames_intros)

lemma frames_off_phase_block [frames_intros]: "frames (off_phase_block chs lp n)"
  unfolding off_phase_block_def by (intro frames_intros)

lemma frames_mining_block [frames_intros]: "frames (mining_block api chs n lp at ph rnd)"
proof -
  have "frames (case r of Sent \<Rightarrow> emit BlockProcessed | Full \<Rightarrow> ret ()
      | Closed \<Rightarrow> throw (ChannelFailure MinerChannel))" for r
    by (cases r) (simp_all add: frames_intros)
  then show ?thesis
    unfolding mining_block_def block_details_new_def by (intro frames_intros)
qed

lemma frames_announce_round: "frames (announce_round chs last_round ph rnd)"
  unfolding announce_round_def by (intro frames_intros)

lemma frames_announce_phase: "frames (announce_phase api chs n last_phase at ph rnd)"
  unfolding announce_phase_def by (cases ph) (auto intro!: frames_intros)

lemma listener_framed:
  assumes "frames m" "m s = (r, t)"
  shows "prev_round t = prev_round s" "prev_phase t = prev_phase s" "subscription t = subscription s"
    "subscription_recreation_attempts t = subscription_recreation_attempts s" "held_guards t = held_guards s"
  using framesD [OF assms] by (cases s; cases t; simp)+

lemma emits_send: "A (ev msg) \<Longrightarrow> emits A (send ev ch msg closed)"
  by (rule safe_send [where g' = "()"]) (simp_all add: within_def)

lemma emits_try_send: "A (ev msg) \<Longrightarrow> emits A (try_send ev ch msg)"
  by (rule safe_try_send [where g' = "()"]) (simp_all add: within_def)

lemma safe_block_details:
  assumes "\<And>st. bd_phase st = ph \<Longrightarrow> bd_round st = rnd \<Longrightarrow> bd_block_number st = number \<Longrightarrow> Q st g" "E g"
  shows "safe d (block_details_new api n number ph h rnd) Q E g"
  unfolding block_details_new_def by (intro safe_intros) (simp_all add: assms)

text \<open>Processing a block only sends messages.\<close>

lemma emits_process_block:
  assumes "\<And>m. A (ToMiner m)" "\<And>m. A (ToClear m)" "\<And>m. A (ToEra m)" "A BlockProcessed"
  shows "emits A (process_block_internal env at)"
proof -
  have "emits A (off_phase_block chs lp n)" for chs lp n
    unfolding off_phase_block_def
    by (auto intro!: emits_bind emits_send emits_try_send emits_emit safe_ret simp: assms split: option.split)
  moreover have "emits A (mining_block api chs n lp at ph rnd)" for api chs n lp ph rnd
    unfolding mining_block_def
    by (auto intro!: emits_bind emits_send emits_try_send emits_emit safe_ret safe_throw safe_block_details
        simp: assms split: send_result.split)
  moreover have "emits A (announce_round chs lr ph rnd)" for chs lr ph rnd
    unfolding announce_round_def on_round_increment_def
    by (auto intro!: emits_bind emits_send emits_try_send safe_ret safe_throw simp: assms split: option.split)
  moreover have "emits A (emit BlockProcessed)"
    by (intro emits_emit) (simp_all add: assms)
  ultimately show ?thesis
    unfolding process_block_internal_def announce_phase_def
    by (auto intro!: emits_bind safe_silent [OF silent_get_block_state] safe_modify safe_get safe_ret
        split: phase.split prod.split)
qed

subsection \<open>Connecting\<close>

lemma emits_connection:
  assumes "\<And>ev. A (Connection ev)"
  shows "emits A (emit (Connection ev))"
    and "emits A (try_connect Connection connect uri legacy)"
    and "emits A (try_endpoint Connection connect uri legacy n)"
    and "emits A (try_endpoints Connection connect eps legacy n idxs err)"
proof -
  show e: "emits A (emit (Connection ev))" for ev
    by (intro emits_emit) (simp_all add: assms)
  show c: "emits A (try_connect Connection connect uri legacy)" for uri
    unfolding try_connect_def by (intro safe_intros conjI allI) (auto simp: assms intro!: safe_intros)
  show t: "emits A (try_endpoint Connection connect uri legacy n)" for uri
    by (induction n) (auto intro!: emits_bind emits_try e c safe_ret split: sum.split)
  show "emits A (try_endpoints Connection connect eps legacy n idxs err)"
    by (induction idxs arbitrary: err) (auto intro!: emits_bind t safe_ret safe_throw split: sum.split)
qed

lemma frames_try_connect [frames_intros]: "frames (try_connect ev connect uri legacy)"
  unfolding try_connect_def by (intro frames_intros)

lemma frames_try_endpoint [frames_intros]: "frames (try_endpoint ev connect uri legacy n)"
  by (induction n) (auto intro!: frames_intros)

lemma frames_try_endpoints [frames_intros]: "frames (try_endpoints ev connect eps legacy n idxs err)"
  by (induction idxs arbitrary: err) (auto intro!: frames_intros)

lemma frames_connect_with_failover [frames_intros]: "frames (connect_with_failover ev connect eps k legacy)"
  unfolding connect_with_failover_def Let_def by (intro frames_intros)

lemma silent_client_steps:
  "silent get_client" "silent (put_client c)" "silent read_guard" "silent drop_guard" "silent write_guard"
  by (simp_all add: silent_def get_client_def put_client_def read_guard_def drop_guard_def write_guard_def
      io_get_def io_modify_def)

lemmas emits_client_steps = silent_client_steps [THEN safe_silent]

lemma frames_client_steps [frames_intros]: "frames get_client" "frames (put_client c)" "frames write_guard"
  by (simp_all add: frames_def get_client_def put_client_def write_guard_def io_get_def io_modify_def)

lemma frames_reconnect [frames_intros]: "frames (reconnect ev connect)"
  unfolding reconnect_def by (intro frames_intros)

lemma emits_stream_blocks: "emits A (stream_blocks env)"
  unfolding stream_blocks_def by (auto intro!: emits_bind emits_client_steps emits_try safe_await)

lemma emits_recreate_subscription:
  assumes "\<And>ev. A (Connection ev)"
  shows "emits A (recreate_subscription_with_failover env)"
proof -
  have "emits A (reconnect Connection connect)" for connect
    unfolding reconnect_def connect_with_failover_def Let_def
    by (auto intro!: emits_bind emits_client_steps emits_connection assms safe_ret split: prod.split)
  then show ?thesis
    unfolding recreate_subscription_with_failover_def
    by (auto intro!: emits_bind emits_client_steps emits_try emits_stream_blocks safe_ret safe_throw
        split: sum.split)
qed

text \<open>Invariants that do not mention the guards survive a new subscription.\<close>

definition guard_free :: "(('w, 'v, 'm) client_sys_scheme \<Rightarrow> bool) \<Rightarrow> bool" where
  "guard_free I \<longleftrightarrow> independent I \<and> (\<forall>s n. I s \<longrightarrow> I (s\<lparr>held_guards := n\<rparr>))"

lemma guard_free_independent: "guard_free I \<Longrightarrow> independent I"
  by (simp add: guard_free_def)

lemma preserves_guards:
  "guard_free I \<Longrightarrow> preserves I read_guard" "guard_free I \<Longrightarrow> preserves I drop_guard"
  by (simp_all add: read_guard_def drop_guard_def preserves_def io_modify_def guard_free_def)

lemma preserves_stream_blocks: "guard_free I \<Longrightarrow> preserves I (stream_blocks env)"
  unfolding stream_blocks_def
  by (intro preserves_intros preserves_guards preserves_frames [OF _ guard_free_independent] frames_intros)

lemma preserves_recreate_subscription: "guard_free I \<Longrightarrow> preserves I (recreate_subscription_with_failover env)"
  unfolding recreate_subscription_with_failover_def
  by (intro preserves_intros preserves_guards preserves_stream_blocks
      preserves_frames [OF _ guard_free_independent] frames_intros)

end
