(* ===== verification/Listener_Test.thy ===== *)
theory Listener_Test
  imports Listener_Rules Test_Node
begin

text \<open>
  A node, a block stream and channels to run the listener against, used by the
  concrete instances of its theorems.  The state of a block is a function of its
  hash; the items of the stream and the answers of the channels are scripts.
\<close>

record test_script =
  ts_items :: "(subxt_error + header) option option list"
  ts_room :: "bool list"

type_synonym test_listener_world = "(test_script, nat) client_world"

definition phase_node :: "(hash \<Rightarrow> phase \<times> u32) \<Rightarrow> ('w, nat) chain_api" where
  "phase_node st =
     \<lparr>api_at_current_block = \<lambda>w. (Ok test_block, w),
      api_at_block = \<lambda>h w. (Ok (test_block\<lparr>ab_hash := h\<rparr>), w),
      api_try_phase = \<lambda>b w. (Ok (Some (Decodes (fst (st (ab_hash b))))), w),
      api_phase = \<lambda>b w. (Ok (Decodes (fst (st (ab_hash b)))), w),
      api_round = \<lambda>b w. (Ok (Decodes (snd (st (ab_hash b)))), w),
      api_submission = \<lambda>b r who w. (Ok None, w),
      api_sorted_scores = \<lambda>b r w. (Ok (Decodes []), w),
      api_minimum_score = \<lambda>b w. (Ok None, w),
      api_desired_targets = \<lambda>b r w. (Ok (Some (Decodes 4)), w),
      api_voter_snapshot = \<lambda>b r p w. (Ok None, w),
      api_voter_snapshot_hash = \<lambda>b r p w. (Ok None, w),
      api_target_snapshot = \<lambda>b r p w. (Ok None, w),
      api_target_snapshot_hash = \<lambda>b r p w. (Ok None, w),
      api_account = \<lambda>b who w. (Ok None, w),
      api_nonce = \<lambda>who w. (Ok 0, w),
      api_restrict_origins = \<lambda>b. False,
      api_create_signed = \<lambda>x w. (Ok (), w),
      api_submit_and_watch = \<lambda>x w. (Ok 0, w),
      api_wait_finalized = \<lambda>tx w. (Ok tx, w),
      api_wait_success = \<lambda>tx w. (Ok [], w),
      api_next_ready = \<lambda>n w. (0, w),
      api_hash_order = id,
      api_debug_phase = \<lambda>p. ''phase'',
      api_encode_error = \<lambda>c. None,
      api_default_solution = 0\<rparr>"

text \<open>A channel with room, or with no room, for each message of the script; beyond
  it there is room.\<close>

definition take_room :: "test_listener_world \<Rightarrow> bool \<times> test_listener_world" where
  "take_room w =
     (case ts_room (outside w) of
        [] \<Rightarrow> (True, w)
      | b # bs \<Rightarrow> (b, w\<lparr>outside := (outside w)\<lparr>ts_room := bs\<rparr>\<rparr>))"

definition test_channel :: "(test_listener_world, 'msg) channel" where
  "test_channel =
     \<lparr>ch_try_send = \<lambda>msg w. (case take_room w of (b, w') \<Rightarrow> (if b then Sent else Full, w')),
      ch_send = \<lambda>msg w. (case take_room w of (b, w') \<Rightarrow> (if b then Ok () else Pending, w'))\<rparr>"

definition always_room :: "('w, 'msg) channel" where
  "always_room = \<lparr>ch_try_send = \<lambda>msg w. (Sent, w), ch_send = \<lambda>msg w. (Ok (), w)\<rparr>"

definition next_item :: "nat \<Rightarrow> test_listener_world \<Rightarrow>
    (subxt_error + header) option option \<times> test_listener_world" where
  "next_item sub w =
     (case ts_items (outside w) of
        [] \<Rightarrow> (Some None, w)
      | i # is \<Rightarrow> (i, w\<lparr>outside := (outside w)\<lparr>ts_items := is\<rparr>\<rparr>))"

text \<open>Client 0 refuses to stream, every other one streams under its own number.\<close>

definition test_listening :: "(hash \<Rightarrow> phase \<times> u32) \<Rightarrow> test_listener_world task_channels \<Rightarrow>
    (test_script, nat, nat, nat) listener_env" where
  "test_listening st chs =
     \<lparr>le_api = phase_node st,
      le_connect = \<lambda>uri legacy w. (Ok 2, w),
      le_stream_blocks = \<lambda>c w. (if c = 0 then Err (BackendError ''refused'') else Ok c, w),
      le_next = next_item,
      le_will_reconnect = \<lambda>e. False,
      le_channels = chs,
      le_n_pages = 4\<rparr>"

definition scripted :: "test_listener_world task_channels" where
  "scripted = \<lparr>miner_tx = test_channel, clear_old_rounds_tx = test_channel, era_pruning_tx = test_channel\<rparr>"

definition roomy :: "test_listener_world task_channels" where
  "roomy = \<lparr>miner_tx = always_room, clear_old_rounds_tx = always_room, era_pruning_tx = always_room\<rparr>"

definition test_outside :: "nat \<Rightarrow> (subxt_error + header) option option list \<Rightarrow> bool list \<Rightarrow> test_listener_world" where
  "test_outside c is bs =
     \<lparr>shared = \<lparr>chain_api = c, endpoints = [''a'', ''b''], current_endpoint_index = 0, reconnect_generation = 0\<rparr>,
      outside = \<lparr>ts_items = is, ts_room = bs\<rparr>\<rparr>"

definition test_listener :: "test_listener_world \<Rightarrow> u32 option \<Rightarrow> phase option \<Rightarrow> u32 \<Rightarrow>
    (test_listener_world, listener_event, nat) listener_state" where
  "test_listener w lr lp k =
     \<lparr>world = w, trace = [], held_guards = 0, prev_round = lr, prev_phase = lp,
      subscription_recreation_attempts = k, subscription = 1\<rparr>"

definition arrives :: "nat \<Rightarrow> (subxt_error + header) option option" where
  "arrives n = Some (Some (Inr \<lparr>hd_number = word_of_nat n, hd_hash = word_of_nat n\<rparr>))"

text \<open>Rounds of ten blocks: four of the snapshot, four to sign in, two off.\<close>

definition test_blocks :: "hash \<Rightarrow> phase \<times> u32" where
  "test_blocks h =
     (let i = unat h mod 10 in
      (if i < 4 then SnapshotPhase (word_of_nat i) else if i < 8 then Signed (word_of_nat (i - 4)) else Off,
       word_of_nat (unat h div 10)))"

lemma listener_loop_numeral:
  "listener_loop env (numeral k) = io_seq (listener_iteration env) (listener_loop env (pred_numeral k))"
  by (simp add: numeral_eq_Suc)

lemmas [run_defs] = phase_node_def take_room_def test_channel_def always_room_def next_item_def test_listening_def
  scripted_def roomy_def test_outside_def test_listener_def arrives_def test_blocks_def

end
