(* ===== verification/Listener_Properties.thy ===== *)
theory Listener_Properties
  imports Listener_Rules Listener_Test
begin

text \<open>
  What the listener tells the other tasks for a block, how often it resubscribes,
  and how it ends; and the runs in which its recovery does not do what it is for.
\<close>

subsection \<open>The messages of a block\<close>

text \<open>What the listener can ask of the other tasks, and the request of an event.\<close>

datatype request =
    Mine phase u32 u32
  | ForgetSnapshots
  | ScanRounds u32
  | Era era_pruning_message

fun asks :: "listener_event \<Rightarrow> request list" where
  "asks (ToMiner (ProcessBlock st)) = [Mine (bd_phase st) (bd_round st) (bd_block_number st)]"
| "asks (ToMiner ClearSnapshots) = [ForgetSnapshots]"
| "asks (ToClear (ClearOldRoundsTick rnd)) = [ScanRounds rnd]"
| "asks (ToEra msg) = [Era msg]"
| "asks _ = []"

text \<open>What a block calls for, given the round and phase of the block before.\<close>

definition round_requests :: "u32 option \<Rightarrow> phase \<Rightarrow> u32 \<Rightarrow> request list" where
  "round_requests last_round ph rnd =
     (case last_round of
        Some lr \<Rightarrow>
          if rnd > lr then ScanRounds rnd # (if ph = Off then [ForgetSnapshots] else [])
          else []
      | None \<Rightarrow> [])"

fun phase_requests :: "phase option \<Rightarrow> phase \<Rightarrow> u32 \<Rightarrow> u32 \<Rightarrow> request list" where
  "phase_requests last_phase Off rnd number =
     (if last_phase = Some Off then [] else [Era EnterOffPhase]) @ [Era (NewBlock number)]"
| "phase_requests last_phase (OtherPhase _) rnd number = []"
| "phase_requests last_phase ph rnd number =
     (if last_phase = Some Off then [Era ExitOffPhase] else []) @ [Mine ph rnd number]"

definition block_requests :: "u32 option \<Rightarrow> phase option \<Rightarrow> phase \<Rightarrow> u32 \<Rightarrow> u32 \<Rightarrow> request list" where
  "block_requests last_round last_phase ph rnd number =
     round_requests last_round ph rnd @ phase_requests last_phase ph rnd number"

text \<open>A monitor that accepts the events whose requests are some of a list, in its order.\<close>

definition some_of :: "request list \<Rightarrow> listener_event \<Rightarrow> request list option" where
  "some_of g ev =
     (case asks ev of
        [] \<Rightarrow> Some g
      | q # _ \<Rightarrow> (case dropWhile (\<lambda>x. x \<noteq> q) g of [] \<Rightarrow> None | _ # g' \<Rightarrow> Some g'))"

lemma asks_cases: "asks ev = [] \<or> (\<exists>q. asks ev = [q])"
  by (cases ev rule: asks.cases) simp_all

lemma some_of_subseq: "run_monitor some_of g evs = Some g' \<Longrightarrow> subseq (visible asks evs) g"
proof (induction evs arbitrary: g)
  case (Cons ev evs)
  from asks_cases [of ev] show ?case
  proof
    assume "\<exists>q. asks ev = [q]"
    then obtain q where q: "asks ev = [q]" ..
    with Cons.prems obtain x g1 where g1: "dropWhile (\<lambda>x. x \<noteq> q) g = x # g1"
      "run_monitor some_of g1 evs = Some g'"
      by (auto simp: some_of_def [of g ev] split: list.splits)
    have "x = q" using hd_dropWhile [of "\<lambda>x. x \<noteq> q" g] g1(1) by simp
    have "g = takeWhile (\<lambda>x. x \<noteq> q) g @ q # g1"
      using takeWhile_dropWhile_id [of "\<lambda>x. x \<noteq> q" g] g1(1) \<open>x = q\<close> by simp
    moreover have "subseq (q # visible asks evs) (takeWhile (\<lambda>x. x \<noteq> q) g @ q # g1)"
      using Cons.IH [OF g1(2)] by (simp add: list_emb_append2 subseq_Cons2)
    ultimately show ?thesis using q by simp
  qed (use Cons in \<open>simp add: some_of_def\<close>)
qed simp

text \<open>In terms of what may still be sent: \<open>h\<close> at least.\<close>

lemma some_of_suffix:
  assumes "suffix (q # h) g" "asks ev = [q]"
  obtains g' where "some_of g ev = Some g'" and "suffix h g'"
proof -
  from assms(1) obtain zs where g: "g = zs @ q # h" by (auto simp: suffix_def)
  show thesis
  proof (cases "q \<in> set zs")
    case True
    then obtain us vs where "zs = us @ q # vs" "q \<notin> set us" by (meson split_list_first)
    then have "some_of g ev = Some (vs @ q # h)"
      using g assms(2) by (auto simp: some_of_def dropWhile_append)
    then show thesis by (rule that) (simp add: suffix_def)
  next
    case False
    then have "dropWhile (\<lambda>x. x \<noteq> q) g = q # h" using g by (simp add: dropWhile_append)
    then have "some_of g ev = Some h" using assms(2) by (simp add: some_of_def)
    then show thesis by (rule that) simp
  qed
qed

lemma safe_send_some:
  assumes "suffix (q # h) g" "asks (ev msg) = [q]" "\<And>g. suffix h g \<Longrightarrow> Q () g" "E g"
  shows "safe some_of (send ev ch msg closed) Q E g"
proof -
  obtain g' where "some_of g (ev msg) = Some g'" "suffix h g'" using assms(1,2) by (rule some_of_suffix)
  with assms(3,4) show ?thesis by (intro safe_send) auto
qed

lemma safe_try_send_some:
  assumes "suffix (q # h) g" "asks (ev msg) = [q]" "\<And>r g. suffix h g \<Longrightarrow> Q r g" "E g"
  shows "safe some_of (try_send ev ch msg) Q E g"
proof -
  obtain g' where "some_of g (ev msg) = Some g'" "suffix h g'" using assms(1,2) by (rule some_of_suffix)
  moreover have "suffix h g" using assms(1) by (auto simp: suffix_def)
  ultimately show ?thesis using assms(3,4) by (intro safe_try_send) auto
qed

lemma safe_round_requests:
  "safe some_of (announce_round chs last_round ph rnd) (\<lambda>_. suffix h) (\<lambda>_. True) (round_requests last_round ph rnd @ h)"
proof (cases "\<exists>lr. last_round = Some lr \<and> rnd > lr")
  case True
  let ?rest = "(if ph = Off then [ForgetSnapshots] else []) @ h"
  have "safe some_of (on_round_increment chs rnd ph) (\<lambda>_. suffix h) (\<lambda>_. True) (ScanRounds rnd # ?rest)"
    unfolding on_round_increment_def
  proof (intro safe_bind, rule safe_try_send_some [where q = "ScanRounds rnd" and h = ?rest])
    fix r g
    assume g: "suffix ?rest g"
    then show "safe some_of (io_seq (if r = Closed then throw (ChannelFailure ClearOldRoundsChannel) else ret ())
        (if ph = Off then send ToMiner (miner_tx chs) ClearSnapshots
           (OtherError ''Failed to send clear snapshots signal: channel closed'') else ret ()))
        (\<lambda>_. suffix h) (\<lambda>_. True) g"
      by (intro safe_intros safe_send_some [where q = ForgetSnapshots and h = h] TrueI) simp_all
  qed simp_all
  with True show ?thesis by (auto simp: round_requests_def announce_round_def)
next
  case False
  then show ?thesis by (auto simp: round_requests_def announce_round_def intro!: safe_intros split: option.split)
qed

lemma safe_off_phase_block:
  assumes "suffix (phase_requests last_phase Off rnd number) g"
  shows "safe some_of (off_phase_block chs last_phase number) (\<lambda>_ _. True) (\<lambda>_. True) g"
  unfolding off_phase_block_def
proof (rule safe_bind_via)
  show "safe some_of (case last_phase of
          Some lp \<Rightarrow>
            if lp \<noteq> Off then send ToEra (era_pruning_tx chs) EnterOffPhase (ChannelFailure EraPruningChannel)
            else ret ()
        | None \<Rightarrow> send ToEra (era_pruning_tx chs) EnterOffPhase (ChannelFailure EraPruningChannel))
      (\<lambda>_. suffix [Era (NewBlock number)]) (\<lambda>_. True) g"
    using assms
    by (auto split: option.split if_splits intro!: safe_ret
        safe_send_some [where q = "Era EnterOffPhase" and h = "[Era (NewBlock number)]"])
qed (auto intro!: safe_bind safe_try_send_some [where q = "Era (NewBlock number)" and h = "[]"]
      simp: safe_emit_iff some_of_def)

lemma safe_mining_block:
  assumes "suffix ((if last_phase = Some Off then [Era ExitOffPhase] else []) @
      [Mine ph rnd (ucast (hd_number at))]) g"
  shows "safe some_of (mining_block api chs n last_phase at ph rnd) (\<lambda>_ _. True) (\<lambda>_. True) g"
  unfolding mining_block_def
proof (rule safe_bind_via)
  show "safe some_of (if last_phase = Some Off then
          send ToEra (era_pruning_tx chs) ExitOffPhase (ChannelFailure EraPruningChannel)
        else ret ()) (\<lambda>_. suffix [Mine ph rnd (ucast (hd_number at))]) (\<lambda>_. True) g"
    using assms
    by (auto split: if_splits intro!: safe_ret safe_send_some [where q = "Era ExitOffPhase"
        and h = "[Mine ph rnd (ucast (hd_number at))]"])
next
  fix x :: unit and g
  assume "suffix [Mine ph rnd (ucast (hd_number at))] g"
  then show "safe some_of (io_bind (block_details_new api n (ucast (hd_number at)) ph (hd_hash at) rnd) (\<lambda>st.
     io_bind (try_send ToMiner (miner_tx chs) (ProcessBlock st)) (\<lambda>r.
     case r of
       Sent \<Rightarrow> emit BlockProcessed
     | Full \<Rightarrow> ret ()
     | Closed \<Rightarrow> throw (ChannelFailure MinerChannel)))) (\<lambda>_ _. True) (\<lambda>_. True) g"
    by (intro safe_bind safe_block_details safe_try_send_some
        [where q = "Mine ph rnd (ucast (hd_number at))" and h = "[]"])
      (auto intro!: safe_intros simp: safe_emit_iff some_of_def split: send_result.split)
qed

lemma safe_announce_phase:
  assumes "suffix (phase_requests last_phase ph rnd (ucast (hd_number at))) g"
  shows "safe some_of (announce_phase api chs n last_phase at ph rnd) (\<lambda>_ _. True) (\<lambda>_. True) g"
  using assms
  by (cases ph) (auto simp: announce_phase_def safe_emit_iff some_of_def
      intro!: safe_off_phase_block safe_mining_block split: if_splits)

text \<open>The run of a block in its parts.\<close>

lemma block_run:
  assumes run: "process_block_internal env at s = (r, t)"
    and st: "get_block_state (le_api env) (hd_hash at) s = (Ok (b, ph, rnd), s1)"
  obtains rA sA where
    "announce_round (le_channels env) (prev_round s) ph rnd (s1\<lparr>prev_round := Some rnd\<rparr>) = (rA, sA)"
    and "prev_phase sA = prev_phase s" and "prev_round sA = Some rnd"
    and "if is_ok rA
         then \<exists>rB. announce_phase (le_api env) (le_channels env) (le_n_pages env) (prev_phase s) at ph rnd
             (sA\<lparr>prev_phase := Some ph\<rparr>) = (rB, t) \<and> (if is_ok rB then r = Ok Continue else \<not> is_ok r)
         else t = sA \<and> \<not> is_ok r"
proof -
  obtain rA sA where A: "announce_round (le_channels env) (prev_round s) ph rnd (s1\<lparr>prev_round := Some rnd\<rparr>) =
      (rA, sA)" by fastforce
  note keep = listener_framed [OF frames_get_block_state st] listener_framed [OF frames_announce_round A]
  obtain rB sB where B: "announce_phase (le_api env) (le_channels env) (le_n_pages env) (prev_phase s) at ph rnd
      (sA\<lparr>prev_phase := Some ph\<rparr>) = (rB, sB)" by fastforce
  show thesis
  proof (rule that [OF A])
    show "if is_ok rA
         then \<exists>rB. announce_phase (le_api env) (le_channels env) (le_n_pages env) (prev_phase s) at ph rnd
             (sA\<lparr>prev_phase := Some ph\<rparr>) = (rB, t) \<and> (if is_ok rB then r = Ok Continue else \<not> is_ok r)
         else t = sA \<and> \<not> is_ok r"
      using run A B keep st
      by (cases rA; cases rB) (auto simp: process_block_internal_def io_bind_def io_get_def io_modify_def ret_def)
  qed (use keep in simp_all)
qed

text \<open>C22. Whatever the node and the channels do, a block leads to no other request
  than those it calls for, in their order: a tick and the clearing of snapshots
  only when the round went up, the latter only in the off phase; entering and
  leaving the off phase only when the phase before differs; mining only in the
  snapshot and signed phases and for this very block.  Nothing is sent when the
  block's state cannot be read.\<close>

theorem block_asks_what_it_calls_for:
  assumes "process_block_internal env at s = (r, t)"
  shows "\<exists>evs. trace t = trace s @ evs \<and>
    (case fst (get_block_state (le_api env) (hd_hash at) s) of
       Ok (_, ph, rnd) \<Rightarrow>
         subseq (visible asks evs)
           (block_requests (prev_round s) (prev_phase s) ph rnd (ucast (hd_number at)))
     | _ \<Rightarrow> visible asks evs = [])"
proof -
  obtain r0 s1 where st: "get_block_state (le_api env) (hd_hash at) s = (r0, s1)" by fastforce
  note same = silent_run [OF silent_get_block_state st]
  show ?thesis
  proof (cases "is_ok r0")
    case False
    with assms st have "t = s1" by (cases r0) (auto simp: process_block_internal_def io_bind_def)
    with st same False show ?thesis by (cases r0) (auto intro!: exI [of _ "[]"])
  next
    case True
    then obtain b ph rnd where r0: "r0 = Ok (b, ph, rnd)" by (cases r0) auto
    let ?h = "phase_requests (prev_phase s) ph rnd (ucast (hd_number at))"
    obtain rA sA where A: "announce_round (le_channels env) (prev_round s) ph rnd (s1\<lparr>prev_round := Some rnd\<rparr>) =
        (rA, sA)" and B: "if is_ok rA
         then \<exists>rB. announce_phase (le_api env) (le_channels env) (le_n_pages env) (prev_phase s) at ph rnd
             (sA\<lparr>prev_phase := Some ph\<rparr>) = (rB, t) \<and> (if is_ok rB then r = Ok Continue else \<not> is_ok r)
         else t = sA \<and> \<not> is_ok r"
      by (rule block_run [OF assms st [unfolded r0]])
    obtain evs g where evs: "trace sA = trace s @ evs"
      "run_monitor some_of (block_requests (prev_round s) (prev_phase s) ph rnd (ucast (hd_number at))) evs = Some g"
      "case rA of Ok x \<Rightarrow> suffix ?h g | _ \<Rightarrow> True"
      by (rule safeD [OF safe_round_requests [where h = ?h] A]) (use same in \<open>auto simp: block_requests_def\<close>)
    have "\<exists>evs' g'. trace t = trace sA @ evs' \<and> run_monitor some_of g evs' = Some g'"
    proof (cases "is_ok rA")
      case True
      with evs(3) have "suffix ?h g" by (auto simp: is_ok_iff)
      from True B obtain rB where "announce_phase (le_api env) (le_channels env) (le_n_pages env) (prev_phase s)
          at ph rnd (sA\<lparr>prev_phase := Some ph\<rparr>) = (rB, t)" by auto
      from safeD [OF safe_announce_phase [OF \<open>suffix ?h g\<close>] this] obtain evs' g'
        where "trace t = trace (sA\<lparr>prev_phase := Some ph\<rparr>) @ evs'" "run_monitor some_of g evs' = Some g'" .
      then show ?thesis by simp
    next
      case False
      with B show ?thesis by (intro exI [of _ "[]"] exI [of _ g]) simp
    qed
    then obtain evs' g' where "trace t = trace sA @ evs'" "run_monitor some_of g evs' = Some g'" by blast
    with evs have "trace t = trace s @ (evs @ evs')"
      "run_monitor some_of (block_requests (prev_round s) (prev_phase s) ph rnd (ucast (hd_number at))) (evs @ evs') = Some g'"
      by (simp_all add: run_monitor_append)
    from this(1) some_of_subseq [OF this(2)] st r0 show ?thesis
      by (intro exI [of _ "evs @ evs'"]) (simp del: visible_simps)
  qed
qed

subsection \<open>With room in the channels\<close>

definition open_channel :: "('w, 'msg) channel \<Rightarrow> bool" where
  "open_channel ch \<longleftrightarrow>
     (\<forall>msg w. fst (ch_try_send ch msg w) = Sent \<and> fst (ch_send ch msg w) = Ok ())"

definition open_channels :: "'w task_channels \<Rightarrow> bool" where
  "open_channels chs \<longleftrightarrow>
     open_channel (miner_tx chs) \<and> open_channel (clear_old_rounds_tx chs) \<and> open_channel (era_pruning_tx chs)"

text \<open>The state of a block at the node.\<close>

definition block_at :: "('w, 'sol) chain_api \<Rightarrow> hash \<Rightarrow> phase \<Rightarrow> u32 \<Rightarrow> bool" where
  "block_at api h ph rnd \<longleftrightarrow>
     (\<exists>b targets. yields (api_at_block api h) b \<and> yields (api_phase api b) (Decodes ph) \<and>
        yields (api_round api b) (Decodes rnd) \<and>
        yields (api_desired_targets api b rnd) (map_option Decodes targets))"

lemma returns_send:
  assumes "open_channel ch"
  shows "returns asks (send ev ch msg closed :: ('w, listener_event, 'm, unit) prog) (asks (ev msg))"
  unfolding returns_def
proof
  fix s :: "('w, listener_event, 'm) sys_scheme"
  obtain r w where f: "ch_send ch msg (world s) = (r, w)" by fastforce
  with assms have "r = Ok ()" unfolding open_channel_def by (metis fst_conv)
  with f show "\<exists>x t. send ev ch msg closed s = (Ok x, t) \<and> shows_only asks s t (asks (ev msg))"
    by (simp add: send_def io_bind_def io_map_err_def call_def emit_def shows_only_def)
qed

lemma gives_try_send:
  assumes "open_channel ch"
  shows "gives asks (try_send ev ch msg :: ('w, listener_event, 'm, send_result) prog) Sent (asks (ev msg))"
  unfolding gives_def
proof
  fix s :: "('w, listener_event, 'm) sys_scheme"
  obtain r w where f: "ch_try_send ch msg (world s) = (r, w)" by fastforce
  with assms have "r = Sent" unfolding open_channel_def by (metis fst_conv)
  with f show "\<exists>t. try_send ev ch msg s = (Ok Sent, t) \<and> shows_only asks s t (asks (ev msg))"
    by (simp add: try_send_def io_bind_def poll_def emit_def ret_def shows_only_def)
qed

lemma returns_processed: "returns asks (emit BlockProcessed) []"
  using returns_emit [of asks BlockProcessed] by simp

lemma returns_announce_round:
  assumes "open_channels chs"
  shows "returns asks (announce_round chs last_round ph rnd) (round_requests last_round ph rnd)"
proof -
  from assms have chs: "open_channel (clear_old_rounds_tx chs)" "open_channel (miner_tx chs)"
    by (simp_all add: open_channels_def)
  note tick = gives_try_send [OF chs(1), of ToClear "ClearOldRoundsTick rnd", simplified]
  note forget = returns_send [OF chs(2), of ToMiner ClearSnapshots, simplified]
  have "returns asks (on_round_increment chs rnd ph)
      ([ScanRounds rnd] @ (if ph = Off then [ForgetSnapshots] else []))"
    unfolding on_round_increment_def
    by (rule returns_bind_gives [OF tick]) (auto intro: returns_ret forget)
  then show ?thesis
    by (auto simp: announce_round_def round_requests_def split: option.split intro: returns_ret)
qed

lemma gives_storage_at: "yields (api_at_block api h) b \<Longrightarrow> gives P (storage_at api (Some h)) b []"
  by (simp add: storage_at_def gives_await)

lemma gives_decode_value: "gives P (decode_value (Decodes v)) v []"
  by (simp add: gives_ret)

lemma gives_block_state:
  assumes "yields (api_at_block api h) b" "yields (api_phase api b) (Decodes ph)"
    "yields (api_round api b) (Decodes rnd)"
  shows "gives P (get_block_state api h) (b, ph, rnd) []"
  unfolding get_block_state_def
  by (rule gives_quiet [OF gives_storage_at [OF assms(1)]], rule gives_quiet [OF gives_await [OF assms(2)]],
      rule gives_quiet [OF gives_decode_value], rule gives_quiet [OF gives_await [OF assms(3)]],
      rule gives_quiet [OF gives_decode_value]) (rule gives_ret)

lemma gives_block_details:
  assumes "yields (api_at_block api h) b" "yields (api_desired_targets api b rnd) (map_option Decodes d)"
  shows "gives P (block_details_new api n number ph h rnd)
    \<lparr>bd_at_block = b, bd_phase = ph, bd_n_pages = n, bd_round = rnd,
      bd_desired_targets = (case d of Some d \<Rightarrow> d | None \<Rightarrow> 0), bd_block_number = number\<rparr> []"
  unfolding block_details_new_def
  by (rule gives_quiet [OF gives_storage_at [OF assms(1)]], rule gives_quiet [OF gives_await [OF assms(2)]])
    (simp add: gives_ret)

lemma returns_announce_phase:
  assumes "open_channels chs" "block_at api (hd_hash at) ph rnd"
  shows "returns asks (announce_phase api chs n last_phase at ph rnd)
    (phase_requests last_phase ph rnd (ucast (hd_number at)))"
proof -
  from assms(1) have era: "open_channel (era_pruning_tx chs)" and miner: "open_channel (miner_tx chs)"
    by (simp_all add: open_channels_def)
  let ?number = "ucast (hd_number at)"
  have off: "returns asks (off_phase_block chs last_phase ?number)
      ((if last_phase = Some Off then [] else [Era EnterOffPhase]) @ [Era (NewBlock ?number)])"
    unfolding off_phase_block_def
  proof (rule returns_bind)
    show "returns asks (io_seq (try_send ToEra (era_pruning_tx chs) (NewBlock ?number)) (emit BlockProcessed))
        [Era (NewBlock ?number)]" for x :: unit
      using returns_bind_gives [OF gives_try_send [OF era, of ToEra "NewBlock ?number", simplified] returns_processed]
      by simp
  qed (use returns_send [OF era, of ToEra EnterOffPhase, simplified] in
      \<open>auto split: option.split intro: returns_ret\<close>)
  have mine: "returns asks (mining_block api chs n last_phase at ph rnd)
      ((if last_phase = Some Off then [Era ExitOffPhase] else []) @ [Mine ph rnd ?number])"
    unfolding mining_block_def
  proof (rule returns_bind)
    fix x :: unit
    obtain b d where b: "yields (api_at_block api (hd_hash at)) b"
      "yields (api_desired_targets api b rnd) (map_option Decodes d)"
      using assms(2) by (auto simp: block_at_def)
    let ?st = "\<lparr>bd_at_block = b, bd_phase = ph, bd_n_pages = n, bd_round = rnd,
      bd_desired_targets = (case d of Some d \<Rightarrow> d | None \<Rightarrow> 0), bd_block_number = ?number\<rparr>"
    have asked: "asks (ToMiner (ProcessBlock ?st)) = [Mine ph rnd ?number]" by simp
    show "returns asks (io_bind (block_details_new api n ?number ph (hd_hash at) rnd) (\<lambda>st.
        io_bind (try_send ToMiner (miner_tx chs) (ProcessBlock st)) (\<lambda>r.
        case r of Sent \<Rightarrow> emit BlockProcessed | Full \<Rightarrow> ret ()
          | Closed \<Rightarrow> throw (ChannelFailure MinerChannel)))) [Mine ph rnd ?number]"
      by (rule returns_bind_gives [OF gives_block_details [OF b], where rs' = "[Mine ph rnd ?number]", unfolded append_Nil],
          rule returns_bind_gives [OF gives_try_send [OF miner, of ToMiner "ProcessBlock ?st"], where rs' = "[]",
            unfolded append_Nil2 asked]) (simp add: returns_processed)
  qed (use returns_send [OF era, of ToEra ExitOffPhase, simplified] in \<open>auto intro: returns_ret\<close>)
  show ?thesis
    using off mine by (cases ph) (simp_all add: announce_phase_def returns_processed)
qed

lemma process_block_delivers:
  assumes chs: "open_channels (le_channels env)" and block: "block_at (le_api env) (hd_hash at) ph rnd"
  shows "\<exists>t evs. process_block_internal env at s = (Ok Continue, t) \<and> trace t = trace s @ evs \<and>
    visible asks evs = block_requests (prev_round s) (prev_phase s) ph rnd (ucast (hd_number at)) \<and>
    prev_round t = Some rnd \<and> prev_phase t = Some ph"
proof -
  obtain r t where run: "process_block_internal env at s = (r, t)" by fastforce
  from block obtain b where "yields (api_at_block (le_api env) (hd_hash at)) b"
    "yields (api_phase (le_api env) b) (Decodes ph)" "yields (api_round (le_api env) b) (Decodes rnd)"
    by (auto simp: block_at_def)
  from gives_block_state [OF this] obtain s1
    where st: "get_block_state (le_api env) (hd_hash at) s = (Ok (b, ph, rnd), s1)" "shows_only asks s s1 []"
    unfolding gives_def by blast
  obtain rA sA where A: "announce_round (le_channels env) (prev_round s) ph rnd (s1\<lparr>prev_round := Some rnd\<rparr>) =
        (rA, sA)" and keep: "prev_round sA = Some rnd" and B: "if is_ok rA
         then \<exists>rB. announce_phase (le_api env) (le_channels env) (le_n_pages env) (prev_phase s) at ph rnd
             (sA\<lparr>prev_phase := Some ph\<rparr>) = (rB, t) \<and> (if is_ok rB then r = Ok Continue else \<not> is_ok r)
         else t = sA \<and> \<not> is_ok r"
    by (rule block_run [OF run st(1)])
  from returns_announce_round [OF chs] obtain x t1
    where "announce_round (le_channels env) (prev_round s) ph rnd (s1\<lparr>prev_round := Some rnd\<rparr>) = (Ok x, t1)"
      "shows_only asks (s1\<lparr>prev_round := Some rnd\<rparr>) t1 (round_requests (prev_round s) ph rnd)"
    by (rule returnsE)
  with A have "is_ok rA" and A': "shows_only asks (s1\<lparr>prev_round := Some rnd\<rparr>) sA (round_requests (prev_round s) ph rnd)"
    by auto
  with B obtain rB where B': "announce_phase (le_api env) (le_channels env) (le_n_pages env) (prev_phase s) at ph rnd
      (sA\<lparr>prev_phase := Some ph\<rparr>) = (rB, t)" "if is_ok rB then r = Ok Continue else \<not> is_ok r" by auto
  from returns_announce_phase [OF chs block] obtain y t2
    where "announce_phase (le_api env) (le_channels env) (le_n_pages env) (prev_phase s) at ph rnd
      (sA\<lparr>prev_phase := Some ph\<rparr>) = (Ok y, t2)" "shows_only asks (sA\<lparr>prev_phase := Some ph\<rparr>) t2
      (phase_requests (prev_phase s) ph rnd (ucast (hd_number at)))"
    by (rule returnsE)
  with B' have "r = Ok Continue" and "shows_only asks (sA\<lparr>prev_phase := Some ph\<rparr>) t
      (phase_requests (prev_phase s) ph rnd (ucast (hd_number at)))"
    by auto
  moreover have "prev_round t = Some rnd" "prev_phase t = Some ph"
    using listener_framed [OF frames_announce_phase B'(1)] keep by simp_all
  ultimately show ?thesis
    using run st(2) A' by (auto simp: shows_only_def block_requests_def)
qed

text \<open>Recreating the subscription asks nothing and leaves the previous round and
  phase alone.\<close>

fun got :: "listener_event \<Rightarrow> header list" where
  "got (GotBlock at) = [at]"
| "got _ = []"

definition quiet :: "listener_event \<Rightarrow> bool" where
  "quiet ev \<longleftrightarrow> asks ev = [] \<and> got ev = []"

lemma quiet_visible: "list_all quiet evs \<Longrightarrow> visible asks evs = [] \<and> visible got evs = []"
  by (induction evs) (auto simp: quiet_def)

definition same_past :: "u32 option \<Rightarrow> phase option \<Rightarrow> ('w, 'v, 'str, 'm) listener_state_scheme \<Rightarrow> bool" where
  "same_past lr lp s \<longleftrightarrow> prev_round s = lr \<and> prev_phase s = lp"

lemma guard_free_same_past: "guard_free (same_past lr lp)"
  by (simp add: guard_free_def independent_def same_past_def)

lemma emits_recreate: "emits quiet (recreate_or_give_up env action)"
  unfolding recreate_or_give_up_def
  by (auto intro!: emits_bind emits_recreate_subscription safe_ret safe_throw safe_modify safe_get emits_emit
      simp: quiet_def)

lemma past_recreate: "preserves (same_past lr lp) (recreate_or_give_up env action)"
  unfolding recreate_or_give_up_def
  by (intro preserves_intros preserves_recreate_subscription guard_free_same_past
      preserves_frames [OF frames_emit guard_free_independent [OF guard_free_same_past]])
    (simp_all add: same_past_def)

subsection \<open>The whole run\<close>

text \<open>What a sequence of blocks (phase, round, number) calls for.\<close>

fun requests_for :: "u32 option \<times> phase option \<Rightarrow> (phase \<times> u32 \<times> u32) list \<Rightarrow> request list" where
  "requests_for past [] = []"
| "requests_for past ((ph, rnd, number) # bs) =
     block_requests (fst past) (snd past) ph rnd number @ requests_for (Some rnd, Some ph) bs"

fun past_after :: "u32 option \<times> phase option \<Rightarrow> (phase \<times> u32 \<times> u32) list \<Rightarrow> u32 option \<times> phase option" where
  "past_after past [] = past"
| "past_after past ((ph, rnd, number) # bs) = past_after (Some rnd, Some ph) bs"

lemma requests_for_append:
  "requests_for past (bs @ cs) = requests_for past bs @ requests_for (past_after past bs) cs"
  by (induction past bs rule: requests_for.induct) simp_all

lemma past_after_append: "past_after past (bs @ cs) = past_after (past_after past bs) cs"
  by (induction past bs rule: past_after.induct) simp_all

text \<open>A run that saw the blocks \<open>bs\<close> asked what they call for.\<close>

definition asked_for ::
  "(header \<Rightarrow> phase \<times> u32) \<Rightarrow> ('w, listener_event, 'str, 'm) listener_state_scheme \<Rightarrow>
     ('w, listener_event, 'str, 'm) listener_state_scheme \<Rightarrow> bool" where
  "asked_for st s t \<longleftrightarrow>
     (\<exists>evs. trace t = trace s @ evs \<and>
        (let bs = List.map (\<lambda>at. (fst (st at), snd (st at), ucast (hd_number at))) (visible got evs) in
         visible asks evs = requests_for (prev_round s, prev_phase s) bs \<and>
         (prev_round t, prev_phase t) = past_after (prev_round s, prev_phase s) bs))"

lemma asked_for_trans: "asked_for st s t \<Longrightarrow> asked_for st t u \<Longrightarrow> asked_for st s u"
proof -
  assume "asked_for st s t" "asked_for st t u"
  then obtain evs evs' where "trace t = trace s @ evs" "trace u = trace t @ evs'"
    "visible asks evs = requests_for (prev_round s, prev_phase s)
       (List.map (\<lambda>at. (fst (st at), snd (st at), ucast (hd_number at))) (visible got evs))"
    "(prev_round t, prev_phase t) = past_after (prev_round s, prev_phase s)
       (List.map (\<lambda>at. (fst (st at), snd (st at), ucast (hd_number at))) (visible got evs))"
    "visible asks evs' = requests_for (prev_round t, prev_phase t)
       (List.map (\<lambda>at. (fst (st at), snd (st at), ucast (hd_number at))) (visible got evs'))"
    "(prev_round u, prev_phase u) = past_after (prev_round t, prev_phase t)
       (List.map (\<lambda>at. (fst (st at), snd (st at), ucast (hd_number at))) (visible got evs'))"
    unfolding asked_for_def Let_def by blast
  then show ?thesis
    unfolding asked_for_def Let_def
    by (intro exI [of _ "evs @ evs'"]) (simp add: requests_for_append past_after_append)
qed

lemma asked_for_quiet:
  assumes "emits quiet m" "\<And>lr lp. preserves (same_past lr lp) m" "m s = (r, t)"
  shows "asked_for st s t"
proof -
  from safeD [OF assms(1,3)] obtain evs where evs: "trace t = trace s @ evs" "list_all quiet evs"
    by (metis run_within)
  moreover have "prev_round t = prev_round s" "prev_phase t = prev_phase s"
    using preservesD [OF assms(2) [of "prev_round s" "prev_phase s"] _ assms(3)] by (simp_all add: same_past_def)
  ultimately show ?thesis
    using quiet_visible [of evs] by (auto simp: asked_for_def Let_def)
qed

text \<open>Processing a block receives no other.\<close>

definition no_block :: "listener_event \<Rightarrow> bool" where
  "no_block ev \<longleftrightarrow> got ev = []"

lemma emits_no_block: "emits no_block (process_block_internal env at)"
  by (rule emits_process_block) (simp_all add: no_block_def)

lemma no_block_visible: "list_all no_block evs \<Longrightarrow> visible got evs = []"
  by (induction evs) (auto simp: no_block_def)

lemma asked_for_block:
  assumes "open_channels (le_channels env)" "block_at (le_api env) (hd_hash at) (fst (st at)) (snd (st at))"
  shows "\<exists>t. process_block_internal env at (s\<lparr>trace := trace s @ [GotBlock at], subscription_recreation_attempts := 0\<rparr>) =
      (Ok Continue, t) \<and> asked_for st s t"
proof -
  let ?s = "s\<lparr>trace := trace s @ [GotBlock at], subscription_recreation_attempts := 0\<rparr>"
  from process_block_delivers [OF assms, of ?s] obtain t evs
    where run: "process_block_internal env at ?s = (Ok Continue, t)" and t: "trace t = trace ?s @ evs"
      "visible asks evs = block_requests (prev_round s) (prev_phase s) (fst (st at)) (snd (st at)) (ucast (hd_number at))"
      "prev_round t = Some (snd (st at))" "prev_phase t = Some (fst (st at))" by auto
  from safeD [OF emits_no_block run] t(1) have "list_all no_block evs"
    by (metis run_within same_append_eq)
  from no_block_visible [OF this] run t show ?thesis
    by (auto simp: asked_for_def Let_def intro!: exI [of _ "GotBlock at # evs"])
qed

lemma emits_stall: "emits quiet (emit SubscriptionStall)"
  by (intro emits_emit) (simp_all add: quiet_def)

lemma asked_for_process:
  assumes chs: "open_channels (le_channels env)"
    and blocks: "\<And>at. block_at (le_api env) (hd_hash at) (fst (st at)) (snd (st at))"
    and run: "process_listener_iteration env s = (r, t)"
  shows "asked_for st s t"
proof -
  obtain item w where item: "le_next env (subscription s) (world s) = (item, w)" by fastforce
  have "asked_for st (s\<lparr>world := w\<rparr>) t"
  proof (cases "\<exists>at. item = Some (Some (Inr at))")
    case True
    then obtain at where at: "item = Some (Some (Inr at))" ..
    from asked_for_block [where st = st, OF chs blocks [of at]] obtain t'
      where "process_block_internal env at ((s\<lparr>world := w\<rparr>)\<lparr>trace := trace (s\<lparr>world := w\<rparr>) @ [GotBlock at],
          subscription_recreation_attempts := 0\<rparr>) = (Ok Continue, t')" "asked_for st (s\<lparr>world := w\<rparr>) t'"
      by blast
    with run item at show ?thesis
      by (simp add: process_listener_iteration_def io_bind_def io_get_def poll_def emit_def io_modify_def
          io_timeout_def ret_def)
  next
    case False
    note stall = emits_bind [OF emits_stall emits_recreate] preserves_bind [OF preserves_frames [OF frames_emit guard_free_independent [OF guard_free_same_past]] past_recreate]
    show ?thesis
    proof (cases "item = None \<or> item = Some None")
      case True
      with run item have "io_seq (emit SubscriptionStall) (recreate_or_give_up env SubscriptionRecreated)
          (s\<lparr>world := w\<rparr>) = (r, t)"
        by (auto simp: process_listener_iteration_def io_bind_def io_get_def poll_def)
      then show ?thesis by (rule asked_for_quiet [OF stall])
    next
      assume "\<not> (item = None \<or> item = Some None)"
      with False obtain e where "item = Some (Some (Inl e))" by (metis not_None_eq sum.exhaust)
      with run item have "t = s\<lparr>world := w\<rparr>"
        by (auto simp: process_listener_iteration_def io_bind_def io_get_def poll_def ret_def throw_def
            split: if_splits)
      then show ?thesis by (simp add: asked_for_def Let_def)
    qed
  qed
  then show ?thesis by (simp add: asked_for_def)
qed

lemma asked_for_iteration:
  assumes "open_channels (le_channels env)"
    and "\<And>at. block_at (le_api env) (hd_hash at) (fst (st at)) (snd (st at))"
    and run: "listener_iteration env s = (r, t)"
  shows "asked_for st s t"
proof -
  obtain r1 t1 where "process_listener_iteration env s = (r1, t1)" by fastforce
  note one = asked_for_process [OF assms(1,2) this] this
  have "asked_for st t1 (t1\<lparr>trace := trace t1 @ [SleptMs 100]\<rparr>)"
    by (auto simp: asked_for_def Let_def)
  then have "asked_for st s (t1\<lparr>trace := trace t1 @ [SleptMs 100]\<rparr>)" by (rule asked_for_trans [OF one(1)])
  with one run show ?thesis
    by (cases r1) (auto simp: listener_iteration_def io_bind_def io_try_def emit_def ret_def throw_def split: if_splits)
qed

lemma asked_for_loop:
  assumes "open_channels (le_channels env)"
    and "\<And>at. block_at (le_api env) (hd_hash at) (fst (st at)) (snd (st at))"
    and "listener_loop env n s = (r, t)"
  shows "asked_for st s t"
  using assms(3)
proof (induction n arbitrary: s)
  case 0
  then show ?case by (auto simp: ret_def asked_for_def Let_def)
next
  case (Suc n)
  obtain r1 t1 where one: "listener_iteration env s = (r1, t1)" by fastforce
  note step = asked_for_iteration [OF assms(1,2) one]
  show ?case
    using Suc one step asked_for_trans [OF step] by (cases r1) (auto simp: io_bind_def)
qed

text \<open>C14. With room in the channels and a node that answers for its blocks, the
  listener asks exactly what the blocks it received call for, in order, however
  the stream stalls, ends or fails in between and however the run ends.\<close>

theorem listener_asks_for_every_block:
  assumes "open_channels (le_channels env)"
    and "\<And>at. block_at (le_api env) (hd_hash at) (fst (st at)) (snd (st at))"
    and "listener_loop env n s = (r, t)"
  shows "\<exists>evs. trace t = trace s @ evs \<and>
    visible asks evs = requests_for (prev_round s, prev_phase s)
      (List.map (\<lambda>at. (fst (st at), snd (st at), ucast (hd_number at))) (visible got evs))"
  using asked_for_loop [OF assms] by (auto simp: asked_for_def Let_def)

lemma roomy_open [simp]: "open_channels (le_channels (test_listening st roomy))"
  by (simp add: open_channels_def open_channel_def test_listening_def roomy_def always_room_def)

lemma phase_node_block [simp]: "block_at (le_api (test_listening st chs)) h (fst (st h)) (snd (st h))"
  unfolding block_at_def
  by (rule exI [of _ "test_block\<lparr>ab_hash := h\<rparr>"], rule exI [of _ "Some 4"])
    (simp add: yields_def test_listening_def phase_node_def)

theorem listener_asks_for_every_block_witness:
  "visible asks (trace (snd (listener_loop (test_listening test_blocks roomy) 4
      (test_listener (test_outside 1 [arrives 27, None, arrives 28, arrives 30] []) None None 0)))) =
    [Mine (Signed 3) 2 27, Era EnterOffPhase, Era (NewBlock 28), ScanRounds 3, Era ExitOffPhase,
     Mine (SnapshotPhase 0) 3 30]"
proof -
  let ?s = "test_listener (test_outside 1 [arrives 27, None, arrives 28, arrives 30] []) None None 0"
  obtain r t where run: "listener_loop (test_listening test_blocks roomy) 4 ?s = (r, t)" by fastforce
  then have got: "visible got (trace t) = List.map (\<lambda>n. \<lparr>hd_number = n, hd_hash = ucast n\<rparr>) [27, 28, 30]"
    by (simp add: run_defs io_defs listener_loop_numeral) auto
  obtain evs where "trace t = trace ?s @ evs" "visible asks evs = requests_for (prev_round ?s, prev_phase ?s)
      (List.map (\<lambda>at. (fst (test_blocks (hd_hash at)), snd (test_blocks (hd_hash at)), ucast (hd_number at)))
        (visible got evs))"
    using listener_asks_for_every_block [OF _ _ run, where st = "\<lambda>at. test_blocks (hd_hash at)"] by auto
  with got run show ?thesis
    by (simp add: test_listener_def test_blocks_def block_requests_def round_requests_def)
qed

theorem block_asks_what_it_calls_for_witness:
  "\<exists>evs. trace (snd (process_block_internal (test_listening test_blocks scripted) \<lparr>hd_number = 38, hd_hash = 38\<rparr>
      (test_listener (test_outside 1 [] [True, True, True, False]) (Some 2) (Some (Signed 3)) 0))) = evs \<and>
    subseq (visible asks evs) [ScanRounds 3, ForgetSnapshots, Era EnterOffPhase, Era (NewBlock 38)] \<and>
    visible asks evs = [ScanRounds 3, ForgetSnapshots, Era EnterOffPhase]"
proof -
  let ?env = "test_listening test_blocks scripted"
  let ?at = "\<lparr>hd_number = 38, hd_hash = 38\<rparr>"
  let ?s = "test_listener (test_outside 1 [] [True, True, True, False]) (Some 2) (Some (Signed 3)) 0"
  obtain r t where run: "process_block_internal ?env ?at ?s = (r, t)" by fastforce
  have st: "fst (get_block_state (le_api ?env) (hd_hash ?at) ?s) = Ok (test_block\<lparr>ab_hash := 38\<rparr>, Off, 3)"
    by (simp add: run_defs io_defs)
  have "visible asks (trace t) = [ScanRounds 3, ForgetSnapshots, Era EnterOffPhase]"
    using run by (simp add: run_defs io_defs) auto
  with block_asks_what_it_calls_for [OF run] run show ?thesis
    unfolding st by (simp add: test_listener_def block_requests_def round_requests_def)
qed

end
