(* ===== verification/Listener_Recovery.thy ===== *)
theory Listener_Recovery
  imports Listener_Properties
begin

text \<open>
  The listener's recovery from stalled subscriptions: how often it resubscribes,
  which errors end it, and the runs in which failover, giving up and the
  announcement of the off phase do not do what they are for.
\<close>

subsection \<open>How the listener ends\<close>

lemma listener_loop_critical:
  "listener_loop env n s = (Err e, t) \<Longrightarrow> is_critical_listener_error e"
proof (induction n arbitrary: s)
  case (Suc n)
  obtain r u where one: "listener_iteration env s = (r, u)" by fastforce
  have "is_critical_listener_error e'" if "r = Err e'" for e'
    using one that
    by (auto simp: listener_iteration_def io_bind_def io_try_def ret_def throw_def emit_def
        split: prod.splits outcome.splits sum.splits if_splits)
  with Suc one show ?case by (cases r) (auto simp: io_bind_def)
qed (simp add: ret_def)

text \<open>The listener ends with an error only if the error is critical, or is the
  failure of its first subscription.\<close>

theorem listener_task_ends_critically:
  assumes "listener_task env n s = (Err e, t)"
  shows "is_critical_listener_error e \<or> (\<exists>u. stream_blocks env s = (Ok (Inl e), u))"
proof -
  obtain r u where one: "stream_blocks env s = (r, u)" by fastforce
  show ?thesis
  proof (cases r)
    case (Ok x)
    with assms one show ?thesis
      by (cases x) (auto simp: listener_task_def io_bind_def drop_guard_def io_modify_def throw_def ret_def
          dest: listener_loop_critical)
  next
    case (Err e')
    with one show ?thesis
      by (auto simp: stream_blocks_def io_bind_def io_try_def read_guard_def get_client_def io_get_def io_modify_def
          split: prod.splits outcome.splits)
  qed (use assms one in \<open>auto simp: listener_task_def io_bind_def\<close>)
qed

subsection \<open>Resubscriptions between blocks\<close>

text \<open>A monitor that allows three resubscriptions until the next block.\<close>

definition three_between_blocks :: "nat \<Rightarrow> listener_event \<Rightarrow> nat option" where
  "three_between_blocks k ev =
     (case ev of
        GotBlock _ \<Rightarrow> Some 0
      | Subscribed \<Rightarrow> if k < 3 then Some (k + 1) else None
      | _ \<Rightarrow> Some k)"

definition neutral :: "listener_event \<Rightarrow> bool" where
  "neutral ev \<longleftrightarrow> ev \<noteq> Subscribed \<and> got ev = []"

lemma run_neutral: "list_all neutral evs \<Longrightarrow> run_monitor three_between_blocks k evs = Some k"
proof (induction evs)
  case (Cons ev evs)
  then show ?case by (cases ev) (auto simp: three_between_blocks_def neutral_def)
qed simp

definition attempts_are :: "u32 \<Rightarrow> ('w, 'v, 'str, 'm) listener_state_scheme \<Rightarrow> bool" where
  "attempts_are a s \<longleftrightarrow> subscription_recreation_attempts s = a"

lemma guard_free_attempts: "guard_free (attempts_are a)"
  by (simp add: guard_free_def independent_def attempts_are_def)

text \<open>From \<open>s\<close> to \<open>t\<close> the monitor's count stays below the listener's own.\<close>

definition counted :: "('w, listener_event, 'str, 'm) listener_state_scheme \<Rightarrow>
    ('w, listener_event, 'str, 'm) listener_state_scheme \<Rightarrow> bool" where
  "counted s t \<longleftrightarrow>
     (\<forall>k \<le> unat (subscription_recreation_attempts s). \<exists>evs k'. trace t = trace s @ evs \<and>
        run_monitor three_between_blocks k evs = Some k' \<and> k' \<le> unat (subscription_recreation_attempts t)) \<and>
     unat (subscription_recreation_attempts t) \<le> unat (subscription_recreation_attempts s) + 1"

lemma recreate_counted:
  assumes run: "recreate_or_give_up env action s = (r, t)"
    and bound: "unat (subscription_recreation_attempts s) + 1 < 2 ^ 32"
  shows "counted s t"
proof -
  let ?a = "subscription_recreation_attempts s + 1"
  let ?s = "s\<lparr>subscription_recreation_attempts := ?a\<rparr>"
  have a: "unat ?a = unat (subscription_recreation_attempts s) + 1"
    using bound by (simp add: unat_word_ariths)
  show ?thesis
  proof (cases "?a > 3")
    case True
    with run have "t = ?s" by (auto simp: recreate_or_give_up_def io_bind_def io_get_def io_modify_def throw_def)
    with a show ?thesis by (auto simp: counted_def)
  next
    case False
    obtain r1 t1 where one: "recreate_subscription_with_failover env ?s = (r1, t1)" by fastforce
    have "subscription_recreation_attempts t1 = ?a"
      using preservesD [OF preserves_recreate_subscription [OF guard_free_attempts] _ one, of ?a]
      by (simp add: attempts_are_def)
    moreover obtain evs where evs: "trace t1 = trace s @ evs" "list_all neutral evs"
      by (rule safeD [OF emits_recreate_subscription [where A = neutral] one])
        (simp_all add: neutral_def run_within)
    moreover have "trace t = trace t1 \<or> trace t = trace t1 @ [Subscribed]"
      "subscription_recreation_attempts t = subscription_recreation_attempts t1"
      using run one False
      by (cases r1; auto simp: recreate_or_give_up_def io_bind_def io_get_def io_modify_def emit_def ret_def)+
    moreover have "unat ?a \<le> 3" using False by (simp add: word_le_nat_alt not_less)
    ultimately show ?thesis
      using a run_neutral [OF evs(2)]
      by (auto simp: counted_def run_monitor_append three_between_blocks_def)
  qed
qed

lemma counted_trans:
  assumes "counted s t" "counted t u"
    "unat (subscription_recreation_attempts u) \<le> unat (subscription_recreation_attempts s) + 1"
  shows "counted s u"
proof -
  have "\<exists>evs k'. trace u = trace s @ evs \<and> run_monitor three_between_blocks k evs = Some k' \<and>
      k' \<le> unat (subscription_recreation_attempts u)" if "k \<le> unat (subscription_recreation_attempts s)" for k
  proof -
    from assms(1) that obtain evs k1 where 1: "trace t = trace s @ evs"
      "run_monitor three_between_blocks k evs = Some k1" "k1 \<le> unat (subscription_recreation_attempts t)"
      unfolding counted_def by blast
    from assms(2) 1(3) obtain evs' k2 where "trace u = trace t @ evs'"
      "run_monitor three_between_blocks k1 evs' = Some k2" "k2 \<le> unat (subscription_recreation_attempts u)"
      unfolding counted_def by blast
    with 1 show ?thesis by (intro exI [of _ "evs @ evs'"] exI [of _ k2]) (simp add: run_monitor_append)
  qed
  with assms(3) show ?thesis by (simp add: counted_def)
qed

lemma counted_neutral:
  assumes "trace t = trace s @ evs" "list_all neutral evs"
    "subscription_recreation_attempts t = subscription_recreation_attempts s"
  shows "counted s t"
  using assms run_neutral [OF assms(2)] by (auto simp: counted_def)

lemma attempts_kept_by_block: "preserves (attempts_are a) (process_block_internal env at)"
  unfolding process_block_internal_def
  by (intro preserves_intros preserves_frames [OF frames_get_block_state guard_free_independent [OF guard_free_attempts]]
      preserves_frames [OF frames_announce_round guard_free_independent [OF guard_free_attempts]]
      preserves_frames [OF frames_announce_phase guard_free_independent [OF guard_free_attempts]])
    (simp_all add: attempts_are_def)

lemma emits_neutral_block: "emits neutral (process_block_internal env at)"
  by (rule emits_process_block) (simp_all add: neutral_def)

lemma stall_counted:
  assumes run: "recreate_or_give_up env action (s\<lparr>world := w, trace := trace s @ [ev]\<rparr>) = (r, t)"
    and "neutral ev" and "unat (subscription_recreation_attempts s) + 1 < 2 ^ 32"
  shows "counted s t"
proof -
  let ?s = "s\<lparr>world := w, trace := trace s @ [ev]\<rparr>"
  have stall: "counted s ?s" using assms(2) by (intro counted_neutral [where evs = "[ev]"]) simp_all
  have step: "counted ?s t" by (rule recreate_counted [OF run]) (use assms(3) in simp)
  then have "unat (subscription_recreation_attempts t) \<le> unat (subscription_recreation_attempts s) + 1"
    by (simp add: counted_def)
  then show ?thesis by (rule counted_trans [OF stall step])
qed

lemma process_counted:
  assumes run: "process_listener_iteration env s = (r, t)"
    and bound: "unat (subscription_recreation_attempts s) + 1 < 2 ^ 32"
  shows "counted s t"
proof -
  obtain item w where item: "le_next env (subscription s) (world s) = (item, w)" by fastforce
  show ?thesis
  proof (cases "\<exists>at. item = Some (Some (Inr at))")
    case True
    then obtain at where at: "item = Some (Some (Inr at))" ..
    let ?s = "s\<lparr>world := w, trace := trace s @ [GotBlock at], subscription_recreation_attempts := 0\<rparr>"
    obtain r1 t1 where one: "process_block_internal env at ?s = (r1, t1)" by fastforce
    obtain evs where evs: "trace t1 = trace ?s @ evs" "list_all neutral evs"
      by (rule safeD [OF emits_neutral_block one]) (simp_all add: run_within)
    have a1: "subscription_recreation_attempts t1 = 0"
      using preservesD [OF attempts_kept_by_block _ one, of 0] by (simp add: attempts_are_def)
    have start: "counted s ?s" by (auto simp: counted_def three_between_blocks_def)
    have block: "counted ?s t1" using evs a1 by (intro counted_neutral) simp_all
    have "counted t1 t"
    proof (cases r1)
      case Pending
      with run item at one have "recreate_or_give_up env BlockProcessingTimeout
          (t1\<lparr>world := world t1, trace := trace t1 @ [BlockProcessingStall]\<rparr>) = (r, t)"
        by (simp add: process_listener_iteration_def io_bind_def io_get_def poll_def emit_def io_modify_def io_timeout_def)
      then show ?thesis by (rule stall_counted) (simp_all add: neutral_def a1)
    qed (use run item at one in \<open>auto simp: process_listener_iteration_def io_bind_def io_get_def poll_def emit_def
          io_modify_def io_timeout_def ret_def throw_def intro!: counted_neutral [where evs = "[]"]\<close>)
    then have "unat (subscription_recreation_attempts t) \<le> 1" using a1 by (simp add: counted_def)
    with start block \<open>counted t1 t\<close> a1 show ?thesis by (intro counted_trans [OF counted_trans [OF start block]]) auto
  next
    case False
    show ?thesis
    proof (cases "item = None \<or> item = Some None")
      case True
      with run item have "recreate_or_give_up env SubscriptionRecreated
          (s\<lparr>world := w, trace := trace s @ [SubscriptionStall]\<rparr>) = (r, t)"
        by (auto simp: process_listener_iteration_def io_bind_def io_get_def poll_def emit_def)
      then show ?thesis by (rule stall_counted) (use bound in \<open>simp_all add: neutral_def\<close>)
    next
      assume "\<not> (item = None \<or> item = Some None)"
      with False obtain e where "item = Some (Some (Inl e))" by (metis not_None_eq sum.exhaust)
      with run item have "t = s\<lparr>world := w\<rparr>"
        by (auto simp: process_listener_iteration_def io_bind_def io_get_def poll_def ret_def throw_def
            split: if_splits)
      then show ?thesis by (intro counted_neutral [where evs = "[]"]) simp_all
    qed
  qed
qed

lemma iteration_counted:
  assumes run: "listener_iteration env s = (r, t)"
    and bound: "unat (subscription_recreation_attempts s) + 1 < 2 ^ 32"
  shows "counted s t"
proof -
  obtain r1 t1 where one: "process_listener_iteration env s = (r1, t1)" by fastforce
  have "\<exists>evs. trace t = trace t1 @ evs \<and> list_all neutral evs"
    "subscription_recreation_attempts t = subscription_recreation_attempts t1"
    using one run
    by (cases r1; auto simp: listener_iteration_def io_bind_def io_try_def ret_def throw_def emit_def neutral_def
        split: if_splits)+
  then have "counted t1 t" by (auto intro: counted_neutral)
  moreover have "counted s t1" by (rule process_counted [OF one bound])
  ultimately show ?thesis
    using \<open>subscription_recreation_attempts t = subscription_recreation_attempts t1\<close>
    by (intro counted_trans [of s t1 t]) (simp_all add: counted_def)
qed

lemma loop_counted:
  assumes "listener_loop env n s = (r, t)" "unat (subscription_recreation_attempts s) + n < 2 ^ 32"
    "k \<le> unat (subscription_recreation_attempts s)"
  shows "\<exists>evs k'. trace t = trace s @ evs \<and> run_monitor three_between_blocks k evs = Some k'"
  using assms
proof (induction n arbitrary: k s)
  case 0
  then show ?case by (auto simp: ret_def intro!: exI [of _ "[]"])
next
  case (Suc n)
  obtain r1 t1 where one: "listener_iteration env s = (r1, t1)" by fastforce
  have "counted s t1" by (rule iteration_counted [OF one]) (use Suc.prems in simp)
  with Suc.prems(3) obtain evs k1 where 1: "trace t1 = trace s @ evs"
    "run_monitor three_between_blocks k evs = Some k1" "k1 \<le> unat (subscription_recreation_attempts t1)"
    "unat (subscription_recreation_attempts t1) \<le> unat (subscription_recreation_attempts s) + 1"
    unfolding counted_def by blast
  show ?case
  proof (cases "is_ok r1")
    case True
    with Suc.prems(1) one have "listener_loop env n t1 = (r, t)" by (cases r1) (auto simp: io_bind_def)
    from Suc.IH [OF this, of k1] 1 Suc.prems(2) obtain evs' k2 where "trace t = trace t1 @ evs'"
      "run_monitor three_between_blocks k1 evs' = Some k2" by auto
    with 1 show ?thesis by (intro exI [of _ "evs @ evs'"]) (simp add: run_monitor_append)
  next
    case False
    with Suc.prems(1) one have "t = t1" by (cases r1) (auto simp: io_bind_def)
    with 1 show ?thesis by blast
  qed
qed

text \<open>C26. Between two received blocks the listener resubscribes at most three
  times, over any number of iterations below \<open>2 ^ 32\<close> after its start.\<close>

theorem listener_resubscribes_thrice:
  assumes "listener_loop env n s = (r, t)" "n < 2 ^ 32" "subscription_recreation_attempts s = 0"
  shows "\<exists>evs. trace t = trace s @ evs \<and> run_monitor three_between_blocks 0 evs \<noteq> None"
  using loop_counted [OF assms(1), of 0] assms(2,3) by auto

subsection \<open>Recovery\<close>

text \<open>
  A node that grants subscriptions and whose stream gives the block \<open>at\<close> after
  \<open>stalls w\<close> more stalls, counted over all subscriptions.
\<close>

definition stream_resumes :: "('w, 'c, 'str, 'sol) listener_env \<Rightarrow> (('w, 'c) client_world \<Rightarrow> nat) \<Rightarrow> header \<Rightarrow> bool" where
  "stream_resumes env stalls at \<longleftrightarrow>
     (\<forall>c w. \<exists>sub w'. le_stream_blocks env c w = (Ok sub, w') \<and> stalls w' = stalls w) \<and>
     (\<forall>sub w. if stalls w = 0 then fst (le_next env sub w) = Some (Some (Inr at))
        else fst (le_next env sub w) \<in> {None, Some None} \<and> Suc (stalls (snd (le_next env sub w))) = stalls w)"

lemma granted_subscription:
  assumes "stream_resumes env stalls at"
  obtains sub w where "recreate_subscription_with_failover env s = (Ok sub, s\<lparr>world := w\<rparr>)"
    and "stalls w = stalls (world s)"
proof -
  from assms obtain sub w where "le_stream_blocks env (chain_api (shared (world s))) (world s) = (Ok sub, w)"
    "stalls w = stalls (world s)" unfolding stream_resumes_def by blast
  then show thesis
    by (intro that [of sub w]) (simp_all add: recreate_subscription_with_failover_def stream_blocks_def io_defs
      read_guard_def drop_guard_def get_client_def)
qed

text \<open>A stall is answered with a new subscription while attempts are left.\<close>

lemma stall_iteration:
  assumes resumes: "stream_resumes env stalls at" and "stalls (world s) = Suc k"
    and "unat (subscription_recreation_attempts s) < 3"
  obtains t where "listener_iteration env s = (Ok (), t)" and "stalls (world t) = k"
    and "trace t = trace s @ [SubscriptionStall, Subscribed]"
    and "unat (subscription_recreation_attempts t) = Suc (unat (subscription_recreation_attempts s))"
    and "prev_round t = prev_round s" and "prev_phase t = prev_phase s"
proof -
  obtain item w where item: "le_next env (subscription s) (world s) = (item, w)" by fastforce
  with resumes assms(2) have stall: "item = None \<or> item = Some None" and k: "stalls w = k"
    unfolding stream_resumes_def by (metis fst_conv insert_iff singletonD nat.distinct(1), metis snd_conv nat.distinct(1) nat.inject)
  let ?a = "subscription_recreation_attempts s + 1"
  let ?s = "s\<lparr>world := w, trace := trace s @ [SubscriptionStall], subscription_recreation_attempts := ?a\<rparr>"
  have a: "unat ?a = Suc (unat (subscription_recreation_attempts s))"
    using assms(3) by (simp add: unat_word_ariths)
  then have few: "\<not> ?a > 3" using assms(3) by (simp add: word_less_nat_alt)
  obtain sub w' where sub: "recreate_subscription_with_failover env ?s = (Ok sub, ?s\<lparr>world := w'\<rparr>)"
    "stalls w' = stalls (world ?s)"
    by (rule granted_subscription [OF resumes])
  show thesis
  proof (rule that)
    show "listener_iteration env s = (Ok (), ?s\<lparr>world := w', trace := trace s @ [SubscriptionStall, Subscribed],
        subscription := sub\<rparr>)"
      using item stall few sub(1)
      by (auto simp: listener_iteration_def process_listener_iteration_def recreate_or_give_up_def io_defs)
  qed (use a k sub(2) in simp_all)
qed

lemma block_iteration:
  assumes resumes: "stream_resumes env stalls at" and "stalls (world s) = 0"
    and chs: "open_channels (le_channels env)" and block: "block_at (le_api env) (hd_hash at) ph rnd"
  shows "\<exists>t evs. listener_iteration env s = (Ok (), t) \<and> trace t = trace s @ evs \<and> visible got evs = [at] \<and>
    visible asks evs = block_requests (prev_round s) (prev_phase s) ph rnd (ucast (hd_number at))"
proof -
  obtain item w where item: "le_next env (subscription s) (world s) = (item, w)" by fastforce
  with resumes assms(2) have "item = Some (Some (Inr at))" unfolding stream_resumes_def by (metis fst_conv)
  let ?s = "s\<lparr>world := w, trace := trace s @ [GotBlock at], subscription_recreation_attempts := 0\<rparr>"
  obtain t evs where run: "process_block_internal env at ?s = (Ok Continue, t)" and t: "trace t = trace ?s @ evs"
      "visible asks evs = block_requests (prev_round s) (prev_phase s) ph rnd (ucast (hd_number at))"
    using process_block_delivers [OF chs block, of ?s] by auto
  from safeD [OF emits_no_block run] t(1) have "list_all no_block evs" by (metis run_within same_append_eq)
  moreover have "listener_iteration env s = (Ok (), t)"
    using item run \<open>item = _\<close>
    by (simp add: listener_iteration_def process_listener_iteration_def io_defs)
  ultimately show ?thesis
    using t no_block_visible by (intro exI [of _ t] exI [of _ "GotBlock at # evs"]) simp
qed


text \<open>A stream that stalls for every item of the script and then gives block 25, of the
  signed phase of round 2.\<close>

definition stalling :: "(test_script, nat, nat, nat) listener_env" where
  "stalling = (test_listening test_blocks roomy)\<lparr>
     le_stream_blocks := \<lambda>c w. (Ok c, w),
     le_next := \<lambda>sub w. (case ts_items (outside w) of
        [] \<Rightarrow> (arrives 25, w)
      | _ # is \<Rightarrow> (None, w\<lparr>outside := (outside w)\<lparr>ts_items := is\<rparr>\<rparr>))\<rparr>"


subsection \<open>Failover waits for itself\<close>

text \<open>
  A defect: when the node refuses a new subscription and another endpoint is
  reachable, the failover never returns.  The guard of the failed attempt is
  still held while the reconnect waits for the write lock.  Without a reachable
  endpoint it fails; in no case does it come back with a subscription.
\<close>

lemma failed_stream_blocks:
  assumes "le_stream_blocks env (chain_api (shared (world s))) (world s) = (Err e, w)"
  shows "stream_blocks env s = (Ok (Inl (from_subxt e)), s\<lparr>held_guards := held_guards s + 1, world := w\<rparr>)"
  using assms by (simp add: stream_blocks_def io_defs read_guard_def get_client_def)

text \<open>With a guard held, the reconnect fails or waits for ever.\<close>

lemma reconnect_guarded:
  assumes "0 < held_guards s"
  shows "fst (reconnect ev connect s) =
    (case fst (connect_with_failover ev connect (endpoints (shared (world s)))
        ((current_endpoint_index (shared (world s)) + 1) mod length (endpoints (shared (world s)))) False s) of
       Ok _ \<Rightarrow> Pending | Err e \<Rightarrow> Err e | Panic msg \<Rightarrow> Panic msg | Pending \<Rightarrow> Pending)"
proof -
  let ?m = "connect_with_failover ev connect (endpoints (shared (world s)))
    ((current_endpoint_index (shared (world s)) + 1) mod length (endpoints (shared (world s)))) False"
  obtain r t where run: "?m s = (r, t)" by fastforce
  have "sys.more t = sys.more s" by (rule framesD [OF frames_connect_with_failover run])
  then have "held_guards t = held_guards s" by (cases s; cases t) simp
  with assms run show ?thesis
    by (cases r) (auto simp: reconnect_def get_client_def io_get_def io_bind_def write_guard_def)
qed

theorem failover_waits_for_itself:
  assumes refused: "le_stream_blocks env (chain_api (shared (world s))) (world s) = (Err e, w)"
  shows "(\<forall>sub. fst (recreate_subscription_with_failover env s) \<noteq> Ok sub) \<and>
    (\<forall>up uri. reachable (le_connect env) up \<and> uri \<in> set (endpoints (shared w)) \<and> up uri \<noteq> None \<longrightarrow>
      fst (recreate_subscription_with_failover env s) = Pending)"
proof (intro conjI allI impI)
  let ?s = "s\<lparr>held_guards := held_guards s + 1, world := w\<rparr>"
  obtain r t where run: "reconnect Connection (le_connect env) ?s = (r, t)" by fastforce
  have guarded: "fst (reconnect Connection (le_connect env) ?s) = (case fst (connect_with_failover Connection
      (le_connect env) (endpoints (shared w))
      ((current_endpoint_index (shared w) + 1) mod length (endpoints (shared w))) False ?s) of
       Ok _ \<Rightarrow> Pending | Err e \<Rightarrow> Err e | Panic msg \<Rightarrow> Panic msg | Pending \<Rightarrow> Pending)"
    by (subst reconnect_guarded) simp_all
  have whole: "fst (recreate_subscription_with_failover env s) =
      (case r of Err _ \<Rightarrow> Err (from_subxt e) | Panic msg \<Rightarrow> Panic msg | _ \<Rightarrow> Pending)"
    using run guarded
    by (cases r) (auto simp: recreate_subscription_with_failover_def failed_stream_blocks [OF refused] io_defs
        drop_guard_def split: outcome.splits)
  show "fst (recreate_subscription_with_failover env s) \<noteq> Ok sub" for sub
    unfolding whole by (cases r) simp_all
  fix up uri
  assume "reachable (le_connect env) up \<and> uri \<in> set (endpoints (shared w)) \<and> up uri \<noteq> None"
  then have "\<exists>c. fst (connect_with_failover Connection (le_connect env) (endpoints (shared w))
      ((current_endpoint_index (shared w) + 1) mod length (endpoints (shared w))) False ?s) = Ok c"
    using connect_with_failover_reachable [where connect = "le_connect env" and up = up and ev = Connection
        and eps = "endpoints (shared w)" and legacy = False and s = ?s
        and k = "(current_endpoint_index (shared w) + 1) mod length (endpoints (shared w))"]
      find_rotation [where P = "\<lambda>uri. up uri \<noteq> None" and eps = "endpoints (shared w)"
        and k = "(current_endpoint_index (shared w) + 1) mod length (endpoints (shared w))"]
    by (fastforce split: option.splits)
  then have "r = Pending" using run guarded by auto
  then show "fst (recreate_subscription_with_failover env s) = Pending" by (simp add: whole)
qed

subsection \<open>Giving up does not end the listener\<close>

text \<open>
  A defect: once the block stream has ended and three attempts are used up, the
  listener neither resubscribes nor ends.  It reports the exceeded limit, which
  is not critical, sleeps and starts over.
\<close>

theorem exceeded_limit_spins:
  assumes ended: "\<And>sub w. fst (le_next env sub w) = Some None"
    and "3 \<le> subscription_recreation_attempts s"
    and "unat (subscription_recreation_attempts s) + n < 2 ^ 32"
  shows "\<exists>t. listener_loop env n s = (Ok (), t) \<and>
    trace t = trace s @ concat (replicate n [SubscriptionStall, SleptMs 100])"
  using assms(2,3)
proof (induction n arbitrary: s)
  case (Suc n)
  let ?a = "subscription_recreation_attempts s + 1"
  have a: "unat ?a = unat (subscription_recreation_attempts s) + 1"
    using Suc.prems(2) by (simp add: unat_word_ariths)
  then have "3 < ?a" using Suc.prems(1) by (simp add: word_less_nat_alt word_le_nat_alt)
  obtain w where w: "le_next env (subscription s) (world s) = (Some None, w)"
    using ended by (metis prod.collapse)
  let ?t = "s\<lparr>world := w, trace := trace s @ [SubscriptionStall, SleptMs 100],
    subscription_recreation_attempts := ?a\<rparr>"
  have "listener_iteration env s = (Ok (), ?t)"
    using w \<open>3 < ?a\<close>
    by (simp add: listener_iteration_def process_listener_iteration_def recreate_or_give_up_def io_defs
        is_critical_listener_error_def)
  moreover have "3 \<le> subscription_recreation_attempts ?t" using \<open>3 < ?a\<close> by simp
  moreover have "unat (subscription_recreation_attempts ?t) + n < 2 ^ 32" using a Suc.prems(2) by simp
  ultimately show ?case using Suc.IH [of ?t] by (auto simp: io_bind_def)
qed (simp add: ret_def)

subsection \<open>A lost announcement\<close>

text \<open>
  A defect: entering the off phase is announced to the era pruning task once,
  and the announcement is given up when it does not fit into the channel before
  the block's deadline.  The listener has by then noted the phase, so that the
  following blocks do not announce it again.
\<close>

theorem off_phase_announcement_lost:
  "visible asks (trace (snd (listener_loop (test_listening test_blocks scripted) 2
      (test_listener (test_outside 1 [arrives 28, arrives 29] [False]) (Some 2) (Some (Signed 3)) 0)))) =
    [Era (NewBlock 29)]"
  by (simp add: run_defs io_defs listener_loop_numeral)

subsection \<open>Instances\<close>

theorem listener_task_ends_critically_witness:
  "fst (listener_task (test_listening test_blocks roomy) 2 (test_listener (test_outside 0 [] []) None None 0)) =
     Err (from_subxt (BackendError ''refused'')) \<and>
   (is_critical_listener_error (from_subxt (BackendError ''refused'')) \<or>
    (\<exists>u. stream_blocks (test_listening test_blocks roomy) (test_listener (test_outside 0 [] []) None None 0) =
      (Ok (Inl (from_subxt (BackendError ''refused''))), u)))"
proof -
  obtain r t where run: "listener_task (test_listening test_blocks roomy) 2
      (test_listener (test_outside 0 [] []) None None 0) = (r, t)" by fastforce
  then have "r = Err (from_subxt (BackendError ''refused''))"
    by (simp add: run_defs io_defs)
  with listener_task_ends_critically run show ?thesis by fastforce
qed

theorem listener_resubscribes_thrice_witness:
  "\<exists>evs. trace (snd (listener_loop (test_listening test_blocks roomy) 5 (test_listener (test_outside 1 [] []) None None 0)))
      = evs \<and>
    run_monitor three_between_blocks 0 evs \<noteq> None \<and> count_list evs Subscribed = 3"
proof -
  let ?s = "test_listener (test_outside 1 [] []) None None 0"
  obtain r t where run: "listener_loop (test_listening test_blocks roomy) 5 ?s = (r, t)" by fastforce
  then have "count_list (trace t) Subscribed = 3"
    by (simp add: run_defs io_defs listener_loop_numeral is_critical_listener_error_def) auto
  with listener_resubscribes_thrice [OF run] run show ?thesis by (auto simp: test_listener_def)
qed

theorem failover_waits_for_itself_witness:
  "fst (recreate_subscription_with_failover (test_listening test_blocks roomy)
      (test_listener (test_outside 0 [] []) None None 0)) = Pending"
proof -
  let ?env = "test_listening test_blocks roomy"
  let ?s = "test_listener (test_outside 0 [] []) None None 0"
  have refused: "le_stream_blocks ?env (chain_api (shared (world ?s))) (world ?s) =
      (Err (BackendError ''refused''), test_outside 0 [] [])"
    by (simp add: test_listening_def test_listener_def test_outside_def)
  have "reachable (le_connect ?env) (\<lambda>uri. Some 2)"
    by (simp add: reachable_def test_listening_def)
  moreover have "''a'' \<in> set (endpoints (shared (test_outside 0 [] [])))" by (simp add: test_outside_def)
  ultimately show ?thesis using failover_waits_for_itself [OF refused] by blast
qed

theorem exceeded_limit_spins_witness:
  "trace (snd (listener_loop ((test_listening test_blocks roomy)\<lparr>le_next := \<lambda>sub w. (Some None, w)\<rparr>) 2
      (test_listener (test_outside 1 [] []) None None 3))) =
     [SubscriptionStall, SleptMs 100, SubscriptionStall, SleptMs 100]"
proof -
  let ?env = "(test_listening test_blocks roomy)\<lparr>le_next := \<lambda>sub w. (Some None, w)\<rparr>"
  let ?s = "test_listener (test_outside 1 [] []) None None 3"
  have "fst (le_next ?env sub w) = Some None" for sub w by simp
  moreover have "3 \<le> subscription_recreation_attempts ?s"
    "unat (subscription_recreation_attempts ?s) + 2 < 2 ^ 32"
    by (simp_all add: test_listener_def)
  ultimately obtain t where "listener_loop ?env 2 ?s = (Ok (), t)"
    "trace t = trace ?s @ concat (replicate 2 [SubscriptionStall, SleptMs 100])"
    using exceeded_limit_spins [of ?env ?s 2] by blast
  moreover have "replicate 2 x = [x, x]" for x :: "listener_event list" by (simp add: numeral_2_eq_2)
  ultimately show ?thesis by (simp add: test_listener_def)
qed

end
