(* ===== verification/Miner_Properties.thy ===== *)
theory Miner_Properties
  imports Miner Submission_Safety
begin

text \<open>
  Properties of the miner task: what it registers has passed the on-chain
  checks just read, what it caches is a validated solution, and a round is not
  mined again once it has a solution.
\<close>

subsection \<open>A concrete environment\<close>

text \<open>A miner that finds \<open>test_solution\<close> for every input, with four winners.\<close>

definition test_env :: "(test_world, nat) chain_api \<Rightarrow> (test_world, nat) miner_env" where
  "test_env api =
     \<lparr>env_api = api, env_scores = test_score_ops,
      env_miner = \<lparr>mo_mine = \<lambda>i. Inr (test_solution\<lparr>round := mi_round i\<rparr>),
                   mo_infeasible = \<lambda>sol v t d. None, mo_winner_count = \<lambda>sol. 4,
                   mo_join = \<lambda>w. (Ok (), w)\<rparr>,
      env_pages = 2, env_account = test_account,
      env_config = \<lparr>submission_strategy = IfLeading, do_reduce = False, chunk_size = 0,
                    min_signed_phase_blocks = 3, shady = False\<rparr>\<rparr>"

definition test_details :: block_details where
  "test_details =
     \<lparr>bd_at_block = test_block, bd_phase = Signed 10, bd_n_pages = 2, bd_round = 1,
      bd_desired_targets = 4, bd_block_number = 40\<rparr>"

text \<open>A node on which another account leads with a better score.\<close>

definition rival_node :: "(test_world, nat) chain_api" where
  "rival_node = (test_node [] (Signed 10) None)
     \<lparr>api_sorted_scores := \<lambda>b r w. (Ok (Decodes [(AccountId [9], max_score)]), w)\<rparr>"

definition run_events :: "(('w, 'v, 'm) sys_scheme, 'e, 'a) io \<Rightarrow> ('w, 'v, 'm) sys_scheme \<Rightarrow> 'v list" where
  "run_events m s = trace (snd (m s))"

lemmas [run_defs] = test_env_def test_details_def test_miner_def test_score_ops_def rival_node_def
  lex_better_def max_score_def

subsection \<open>The score monitor\<close>

record score_seen =
  seen_minimum :: "election_score option option"
  seen_scores :: "election_score list option"

definition nothing_seen :: score_seen where
  "nothing_seen = \<lparr>seen_minimum = None, seen_scores = None\<rparr>"

text \<open>
  A score may be registered only when it clears the last minimum read and
  passes the strategy against every score last read.
\<close>

definition score_allowed :: "score_ops \<Rightarrow> submission_strategy \<Rightarrow> score_seen \<Rightarrow> election_score \<Rightarrow> bool" where
  "score_allowed ops strategy g sc =
     ((case seen_minimum g of Some mn \<Rightarrow> meets_minimum_score ops sc mn | None \<Rightarrow> False) \<and>
      (case seen_scores g of
         Some scs \<Rightarrow> list_all (\<lambda>other. score_passes_strategy ops sc other strategy) scs
       | None \<Rightarrow> False))"

definition score_guard ::
  "score_ops \<Rightarrow> submission_strategy \<Rightarrow> score_seen \<Rightarrow> 'sol event \<Rightarrow> score_seen option" where
  "score_guard ops strategy g ev =
     (case ev of
        ReadMinimum mn \<Rightarrow> Some (g\<lparr>seen_minimum := Some mn\<rparr>)
      | ReadScores scs \<Rightarrow> Some (g\<lparr>seen_scores := Some scs\<rparr>)
      | SentTx x \<Rightarrow>
          (case ext_call x of
             Register sc \<Rightarrow> if score_allowed ops strategy g sc then Some g else None
           | SubmitPage _ _ \<Rightarrow> Some g
           | Bail \<Rightarrow> Some g
           | _ \<Rightarrow> None)
      | _ \<Rightarrow> Some g)"

text \<open>Events on which the monitor does not move.\<close>

definition quiet :: "'sol event \<Rightarrow> bool" where
  "quiet ev =
     (case ev of
        ReadMinimum _ \<Rightarrow> False
      | ReadScores _ \<Rightarrow> False
      | SentTx x \<Rightarrow> (case ext_call x of SubmitPage _ _ \<Rightarrow> True | Bail \<Rightarrow> True | _ \<Rightarrow> False)
      | _ \<Rightarrow> True)"

lemma quiet_simps [simp]:
  "quiet (ReadPhase p)" "quiet (ReadSubmission m)" "quiet (Mined r)" "quiet (Metric c)"
  by (simp_all add: quiet_def)

lemma submission_event_quiet: "submission_event {} ev \<Longrightarrow> quiet ev"
  by (auto simp: submission_event_def quiet_def split: event.splits runtime_call.splits metric.splits)

lemma score_guard_quiet: "quiet ev \<Longrightarrow> score_guard ops strategy g ev = Some g"
  by (auto simp: score_guard_def quiet_def split: event.splits runtime_call.splits)

text \<open>A quiet program leaves the monitor where it is.\<close>

lemma score_quiet:
  assumes "emits quiet m" and "\<And>x. Q x g" and "E g"
  shows "safe (score_guard ops strategy) m Q E g"
  by (rule safe_emits [OF assms(1), where P = "\<lambda>h. h = g"])
    (use assms(2,3) in \<open>auto simp: score_guard_quiet\<close>)

lemma score_emit:
  "quiet ev \<Longrightarrow> Q () g \<Longrightarrow> safe (score_guard ops strategy) (emit ev) Q E g"
  by (rule safe_emit [where g' = g]) (simp_all add: score_guard_quiet)

subsection \<open>Quiet programs\<close>

named_theorems quiet_intros \<open>quiet parts of the miner\<close>

lemma safe_decode_value [safe_intros]:
  "(\<And>x. Q x g) \<Longrightarrow> E g \<Longrightarrow> safe d (decode_value v) Q E g"
  by (rule safe_silent) (cases v; simp add: silent_intros)+

lemma safe_decode_raw [safe_intros]:
  "(\<And>x. Q x g) \<Longrightarrow> E g \<Longrightarrow> safe d (decode_raw v) Q E g"
  by (rule safe_silent) (cases v; simp add: silent_intros)+

lemma safe_fetch_raw [safe_intros]: "(\<And>x. Q x g) \<Longrightarrow> E g \<Longrightarrow> safe d (fetch_raw f) Q E g"
  unfolding fetch_raw_def by (intro safe_intros)

lemma quiet_check_voter [quiet_intros]:
  "Q () () \<Longrightarrow> E () \<Longrightarrow> safe (within quiet) (check_and_update_voter_snapshot api p rnd at) Q E ()"
  unfolding check_and_update_voter_snapshot_def paged_voter_snapshot_def paged_voter_snapshot_hash_def
  by (intro safe_intros) auto

lemma quiet_check_target [quiet_intros]:
  "Q () () \<Longrightarrow> E () \<Longrightarrow> safe (within quiet) (check_and_update_target_snapshot api p rnd at) Q E ()"
  unfolding check_and_update_target_snapshot_def target_snapshot_def target_snapshot_hash_def
  by (intro safe_intros) auto

lemma quiet_update_pages [quiet_intros]:
  "Q () () \<Longrightarrow> E () \<Longrightarrow> safe (within quiet) (update_voter_pages api rnd at ps) Q E ()"
  by (induction ps) (auto intro!: safe_intros quiet_intros)

lemma quiet_update_pages_lossy [quiet_intros]:
  "Q () () \<Longrightarrow> E () \<Longrightarrow> safe (within quiet) (update_voter_pages_lossy api rnd at ps) Q E ()"
  by (induction ps) (auto intro!: safe_intros quiet_intros)

lemma quiet_fetch [quiet_intros]:
  "Q () () \<Longrightarrow> E () \<Longrightarrow> safe (within quiet) (fetch_missing_snapshots api at rnd) Q E ()"
  unfolding fetch_missing_snapshots_def by (intro safe_intros quiet_intros)

lemma quiet_fetch_lossy [quiet_intros]:
  "Q () () \<Longrightarrow> E () \<Longrightarrow> safe (within quiet) (fetch_missing_snapshots_lossy api at rnd) Q E ()"
  unfolding fetch_missing_snapshots_lossy_def by (intro safe_intros quiet_intros conjI allI)

lemma quiet_mine_solution [quiet_intros]:
  "(\<And>x. Q x ()) \<Longrightarrow> E () \<Longrightarrow> safe (within quiet) (mine_solution (env_miner env) (env_pages env) t v n rnd desired red) Q E ()"
  unfolding mine_solution_def Let_def by (intro safe_intros quiet_intros) auto

lemma safe_validate_solution [safe_intros]:
  "(\<And>x. Q x g) \<Longrightarrow> E g \<Longrightarrow> safe d (validate_solution env rnd desired sol) Q E g"
  unfolding validate_solution_def Let_def by (intro safe_intros)

lemma quiet_mine_and_validate [quiet_intros]:
  "(\<And>x. Q x ()) \<Longrightarrow> E () \<Longrightarrow> safe (within quiet) (mine_and_validate env at rnd n desired) Q E ()"
  unfolding mine_and_validate_def mine_with_timeout_def
  by (intro safe_intros quiet_intros conjI allI) auto

lemma quiet_solution_for_round [quiet_intros]:
  "(\<And>x. Q x ()) \<Longrightarrow> E () \<Longrightarrow> safe (within quiet) (solution_for_round env st) Q E ()"
  unfolding solution_for_round_def by (intro safe_intros quiet_intros) auto

lemma quiet_get_submission [quiet_intros]:
  "(\<And>x. Q x ()) \<Longrightarrow> E () \<Longrightarrow> safe (within quiet) (get_submission api at rnd who n) Q E ()"
  unfolding get_submission_def by (intro safe_intros) auto

lemma quiet_has_submitted [quiet_intros]:
  "(\<And>x. Q x ()) \<Longrightarrow> E () \<Longrightarrow> safe (within quiet) (has_submitted api at rnd who n) Q E ()"
  unfolding has_submitted_def by (intro safe_intros quiet_intros)

lemma quiet_signed_phase [quiet_intros]:
  "(\<And>x. Q x ()) \<Longrightarrow> E () \<Longrightarrow> safe (within quiet) (signed_phase api) Q E ()"
  unfolding signed_phase_def by (intro safe_intros) auto

lemma quiet_bail_existing [quiet_intros]:
  "(\<And>x. Q x ()) \<Longrightarrow> E () \<Longrightarrow> safe (within quiet) (bail_existing api who) Q E ()"
  unfolding bail_existing_def
  by (intro safe_intros quiet_intros emits_bail conjI allI) (auto simp: quiet_def)

lemma quiet_submit_pages [quiet_intros]:
  assumes "\<And>x. Q x ()" and "E ()"
  shows "safe (within quiet) (submit_pages api who ps c rnd m) Q E ()"
proof (rule safe_emits [where P = "\<lambda>_. True"])
  show "emits (submission_event {}) (submit_pages api who ps c rnd m)"
    by (intro emits_submit_pages) simp_all
qed (simp_all add: assms within_def submission_event_quiet)

lemma quiet_submit_missing [quiet_intros]:
  "Q () () \<Longrightarrow> E () \<Longrightarrow> safe (within quiet) (submit_missing env rnd sol inc) Q E ()"
  unfolding submit_missing_def by (intro safe_intros quiet_intros conjI allI) auto

subsection \<open>Registered scores\<close>

named_theorems score_intros \<open>rules for the score monitor\<close>

lemma score_solution_for_round [score_intros]:
  "(\<And>x. Q x g) \<Longrightarrow> E g \<Longrightarrow> safe (score_guard ops strategy) (solution_for_round env st) Q E g"
  by (rule score_quiet) (auto intro: quiet_intros)

lemma score_bail_existing [score_intros]:
  "(\<And>x. Q x g) \<Longrightarrow> E g \<Longrightarrow> safe (score_guard ops strategy) (bail_existing api who) Q E g"
  by (rule score_quiet) (auto intro: quiet_intros)

lemma score_has_submitted [score_intros]:
  "(\<And>x. Q x g) \<Longrightarrow> E g \<Longrightarrow> safe (score_guard ops strategy) (has_submitted api at rnd who n) Q E g"
  by (rule score_quiet) (auto intro: quiet_intros)

lemma score_get_submission [score_intros]:
  "(\<And>x. Q x g) \<Longrightarrow> E g \<Longrightarrow> safe (score_guard ops strategy) (get_submission api at rnd who n) Q E g"
  by (rule score_quiet) (auto intro: quiet_intros)

lemma score_submit_missing [score_intros]:
  "(\<And>x. Q x g) \<Longrightarrow> E g \<Longrightarrow> safe (score_guard ops strategy) (submit_missing env rnd sol inc) Q E g"
  by (rule score_quiet) (auto intro: quiet_intros)

lemma score_fetch_lossy [score_intros]:
  "(\<And>x. Q x g) \<Longrightarrow> E g \<Longrightarrow> safe (score_guard ops strategy) (fetch_missing_snapshots_lossy api at rnd) Q E g"
  by (rule score_quiet) (auto intro: quiet_intros)

lemma score_fetch_minimum [score_intros]:
  "(\<And>mn. Q mn (g\<lparr>seen_minimum := Some mn\<rparr>)) \<Longrightarrow> E g \<Longrightarrow>
   safe (score_guard ops strategy) (fetch_minimum_score api at) Q E g"
  unfolding fetch_minimum_score_def
  by (intro safe_intros) (auto simp: safe_emit_iff score_guard_def intro: safe_ret)

lemma no_rejection: "(\<not> list_ex (\<lambda>(_, other). \<not> P other) scs) = list_all P (List.map snd scs)"
  by (induction scs) auto

lemma score_score_better [score_intros]:
  assumes "\<And>b scs. b = list_all (\<lambda>other. score_passes_strategy ops sc other strategy) scs \<Longrightarrow>
      Q b (g\<lparr>seen_scores := Some scs\<rparr>)" and "E g"
  shows "safe (score_guard ops strategy) (score_better api ops at sc rnd strategy) Q E g"
  unfolding score_better_def
  by (intro safe_intros assms(2))
    (auto simp: safe_emit_iff score_guard_def no_rejection intro!: safe_ret assms(1))

lemma score_submit [score_intros]:
  assumes "score_allowed ops strategy g (score sol)" and "\<And>x. Q x g" and "E g"
  shows "safe (score_guard ops strategy) (submit api who sol c rnd m) Q E g"
proof (rule safe_emits [OF emits_submit, where P = "\<lambda>h. h = g"])
  show "\<exists>g'. score_guard ops strategy h ev = Some g' \<and> g' = g"
    if "h = g" and "submission_event {score sol} ev" for h ev
    using that assms(1)
    by (auto simp: submission_event_def score_guard_def
        split: event.splits runtime_call.splits metric.splits)
qed (use assms in auto)

lemma score_emits [score_intros]:
  "Q () g \<Longrightarrow> safe (score_guard ops strategy) (emit (Metric c)) Q E g"
  by (rule score_emit) simp_all

lemma score_submit_solution [score_intros]:
  "score_allowed ops strategy g (score sol) \<Longrightarrow> E g \<Longrightarrow> (\<And>x. Q x g) \<Longrightarrow>
   safe (score_guard ops strategy) (submit_solution env rnd sol) Q E g"
  unfolding submit_solution_def by (intro safe_intros score_intros conjI allI) auto

lemma score_record_outcompeted [score_intros]:
  "Q () g \<Longrightarrow> E g \<Longrightarrow> safe (score_guard ops strategy) (record_outcompeted rnd) Q E g"
  unfolding record_outcompeted_def by (intro safe_intros score_emit) simp_all

lemma score_compete [score_intros]:
  assumes "seen_minimum g = Some mn" and "meets_minimum_score (env_scores env) (score sol) mn"
    and "\<not> shady (env_config env)"
  shows "safe (score_guard (env_scores env) (submission_strategy (env_config env)))
    (compete_and_submit env at rnd sol) (\<lambda>_ _. True) (\<lambda>_. True) g"
  unfolding compete_and_submit_def should_bypass_competitive_check_def
  by (intro safe_intros score_intros conjI allI) (use assms in \<open>auto simp: score_allowed_def\<close>)

lemma score_handle_existing [score_intros]:
  assumes "seen_minimum g = Some mn" and "meets_minimum_score (env_scores env) (score sol) mn"
    and "\<not> shady (env_config env)"
  shows "safe (score_guard (env_scores env) (submission_strategy (env_config env)))
    (handle_existing env st sol) (\<lambda>_ _. True) (\<lambda>_. True) g"
  unfolding handle_existing_def
  by (intro safe_intros score_intros conjI allI)
    (use assms in \<open>auto split: current_submission.split intro!: safe_intros score_intros\<close>)

lemma score_process_block:
  assumes "\<not> shady (env_config env)"
  shows "safe (score_guard (env_scores env) (submission_strategy (env_config env)))
    (process_block env st) (\<lambda>_ _. True) (\<lambda>_. True) g"
proof -
  have "safe (score_guard (env_scores env) (submission_strategy (env_config env)))
      (process_signed env st) (\<lambda>_ _. True) (\<lambda>_. True) g" for g
    unfolding process_signed_def using assms
    by (intro safe_intros score_intros conjI allI) auto
  then show ?thesis
    unfolding process_block_def
    by (intro safe_intros score_intros conjI allI)
      (auto split: phase.split intro!: safe_intros score_intros)
qed



subsection \<open>Programs that leave the miner's variables alone\<close>

lemma frames_get_submission [frames_intros]: "frames (get_submission api at rnd who n)"
  unfolding get_submission_def by (intro frames_intros)

lemma frames_has_submitted [frames_intros]: "frames (has_submitted api at rnd who n)"
  unfolding has_submitted_def by (intro frames_intros)

lemma frames_signed_phase [frames_intros]: "frames (signed_phase api)"
  unfolding signed_phase_def by (intro frames_intros)

lemma frames_fetch_minimum [frames_intros]: "frames (fetch_minimum_score api at)"
  unfolding fetch_minimum_score_def by (intro frames_intros)

lemma frames_score_better [frames_intros]: "frames (score_better api ops at sc rnd strategy)"
  unfolding score_better_def by (intro frames_intros)

lemma frames_mine_solution [frames_intros]: "frames (mine_solution (env_miner env) (env_pages env) t v n rnd desired red)"
  unfolding mine_solution_def Let_def by (intro frames_intros)

lemma frames_validate_solution [frames_intros]: "frames (validate_solution env rnd desired sol)"
  unfolding validate_solution_def Let_def by (intro frames_intros)

lemma frames_bail_existing [frames_intros]: "frames (bail_existing api who)"
  unfolding bail_existing_def by (intro frames_intros)

lemma frames_submit_missing [frames_intros]: "frames (submit_missing env rnd sol inc)"
  unfolding submit_missing_def by (intro frames_intros)

lemma frames_submit_solution [frames_intros]: "frames (submit_solution env rnd sol)"
  unfolding submit_solution_def by (intro frames_intros)

lemma frames_shady_register_loop [frames_intros]: "frames (shady_register_loop n api who k)"
  by (induction n) (auto split: sum.split error.split subxt_error.split intro!: frames_intros)

lemma frames_shady [frames_intros]: "frames (execute_shady_behavior api who ph)"
  by (cases ph) (auto simp: execute_shady_behavior_def intro!: frames_intros)

lemma frames_decode_raw [frames_intros]: "frames (decode_raw v)"
  by (cases v) (simp_all add: frames_intros)

lemma frames_fetch_raw [frames_intros]: "frames (fetch_raw f)"
  unfolding fetch_raw_def by (intro frames_intros)

subsection \<open>Plain programs\<close>

text \<open>Events other than the start of mining and the lost competition.\<close>

definition plain :: "'sol event \<Rightarrow> bool" where
  "plain ev = (case ev of Mined _ \<Rightarrow> False | Metric c \<Rightarrow> c \<noteq> SubmissionSkippedNotCompetitive | _ \<Rightarrow> True)"

lemma submission_event_plain: "submission_event S ev \<Longrightarrow> plain ev"
  by (auto simp: submission_event_def plain_def split: event.splits metric.splits)

named_theorems plain_intros \<open>plain parts of the miner\<close>

lemma plain_emit [plain_intros]:
  "plain ev \<Longrightarrow> Q () () \<Longrightarrow> safe (within plain) (emit ev) Q E ()"
  by (rule emits_emit)

lemma plain_submit [plain_intros]:
  assumes "\<And>x. Q x ()" and "E ()"
  shows "safe (within plain) (submit api who sol c rnd m) Q E ()"
  by (rule safe_emits [OF emits_submit, where P = "\<lambda>_. True"])
    (simp_all add: assms within_def submission_event_plain)

lemma plain_submit_pages [plain_intros]:
  assumes "\<And>x. Q x ()" and "E ()"
  shows "safe (within plain) (submit_pages api who ps c rnd m) Q E ()"
proof (rule safe_emits [where P = "\<lambda>_. True"])
  show "emits (submission_event {}) (submit_pages api who ps c rnd m)"
    by (intro emits_submit_pages) simp_all
qed (simp_all add: assms within_def submission_event_plain)

lemma plain_register_attempt [plain_intros]:
  assumes "\<And>x. Q x ()" and "E ()"
  shows "safe (within plain) (register_attempt api who sc k) Q E ()"
proof (rule safe_emits [where P = "\<lambda>_. True"])
  show "emits (submission_event {sc}) (register_attempt api who sc k)"
    by (intro emits_register_attempt) simp_all
qed (simp_all add: assms within_def submission_event_plain)

lemma plain_bail [plain_intros]:
  "Q () () \<Longrightarrow> E () \<Longrightarrow> safe (within plain) (bail api who) Q E ()"
  by (rule emits_bail) (simp_all add: plain_def)

lemma emits_plain:
  "emits plain (get_submission api at rnd who n)" "emits plain (has_submitted api at rnd who n)"
  "emits plain (signed_phase api)" "emits plain (fetch_minimum_score api at)"
  "emits plain (score_better api ops at sc rnd strategy)"
  unfolding has_submitted_def get_submission_def signed_phase_def fetch_minimum_score_def
    score_better_def
  by (intro safe_intros; simp add: plain_def)+

lemma emits_plain_bail_existing: "emits plain (bail_existing api who)"
  unfolding bail_existing_def signed_phase_def
  by (intro safe_intros plain_intros conjI allI) (auto simp: plain_def)

lemma emits_plain_submissions:
  "emits plain (submit_missing env rnd sol inc)" "emits plain (submit_solution env rnd sol)"
  unfolding submit_missing_def submit_solution_def
  by ((intro safe_intros plain_intros conjI allI; simp add: plain_def)+)

lemma plain_shady_loop [plain_intros]:
  assumes "\<And>x. Q x ()" and "E ()"
  shows "safe (within plain) (shady_register_loop n api who k) Q E ()"
proof (induction n)
  case 0
  then show ?case
    unfolding shady_register_loop.simps by (intro safe_intros plain_intros) (simp_all add: assms)
next
  case (Suc n)
  then show ?case
    unfolding shady_register_loop.simps
    by (intro safe_bind plain_intros)
      (auto split: sum.split error.split subxt_error.split simp: plain_def
        intro!: safe_intros plain_intros assms)
qed

lemma emits_plain_shady: "emits plain (execute_shady_behavior api who ph)"
  by (cases ph)
    (auto simp: execute_shady_behavior_def plain_def intro!: safe_intros plain_intros)

text \<open>Task invariants closed under plain events.\<close>

definition plain_closed :: "(('w, 'sol, 'm) miner_sys_scheme \<Rightarrow> bool) \<Rightarrow> bool" where
  "plain_closed I \<longleftrightarrow>
     (\<forall>s w evs. I s \<longrightarrow> list_all plain evs \<longrightarrow> I (s\<lparr>world := w, trace := trace s @ evs\<rparr>))"

lemma preserves_plain:
  "emits plain m \<Longrightarrow> frames m \<Longrightarrow> plain_closed I \<Longrightarrow> preserves I m"
  by (rule preserves_within) (auto simp: plain_closed_def)

lemmas preserves_plain_steps =
  preserves_plain [OF emits_plain(1) frames_get_submission]
  preserves_plain [OF emits_plain(2) frames_has_submitted]
  preserves_plain [OF emits_plain(4) frames_fetch_minimum]
  preserves_plain [OF emits_plain(5) frames_score_better]
  preserves_plain [OF emits_plain_bail_existing frames_bail_existing]
  preserves_plain [OF emits_plain_submissions(1) frames_submit_missing]
  preserves_plain [OF emits_plain_submissions(2) frames_submit_solution]
  preserves_plain [OF emits_plain_shady frames_shady]

lemma preserves_storage_at_head: "plain_closed I \<Longrightarrow> preserves I (storage_at_head api)"
  by (rule preserves_plain [OF safe_silent [OF silent_storage_at_head] frames_storage_at_head]) simp_all

lemma preserves_metric:
  "plain_closed I \<Longrightarrow> c \<noteq> SubmissionSkippedNotCompetitive \<Longrightarrow> preserves I (emit (Metric c))"
  by (rule preserves_plain [OF plain_emit frames_emit]) (simp_all add: plain_def)

lemma preserves_await: "plain_closed I \<Longrightarrow> preserves I (await f)"
  by (rule preserves_plain [OF safe_silent [OF silent_await] frames_await]) simp_all

lemma preserves_decode_storage_opt: "plain_closed I \<Longrightarrow> preserves I (decode_storage_opt v)"
  by (rule preserves_plain [OF safe_silent [OF silent_decode_storage_opt] frames_decode_storage_opt])
    simp_all

lemma preserves_fetch_raw: "plain_closed I \<Longrightarrow> preserves I (fetch_raw f)"
  by (rule preserves_plain [OF safe_fetch_raw frames_fetch_raw]) simp_all

lemmas preserves_miner_steps = preserves_intros preserves_plain_steps preserves_storage_at_head
  preserves_metric preserves_await preserves_decode_storage_opt preserves_fetch_raw

text \<open>Invariants that do not look at the snapshot cache.\<close>

definition snap_closed :: "(('w, 'sol, 'm) miner_sys_scheme \<Rightarrow> bool) \<Rightarrow> bool" where
  "snap_closed I \<longleftrightarrow> (\<forall>s sn. I s \<longrightarrow> I (s\<lparr>snap := sn\<rparr>))"

lemma preserves_check_voter:
  "plain_closed I \<Longrightarrow> snap_closed I \<Longrightarrow> preserves I (check_and_update_voter_snapshot api p rnd at)"
  unfolding check_and_update_voter_snapshot_def paged_voter_snapshot_def paged_voter_snapshot_hash_def
  by (intro preserves_miner_steps) (simp_all add: snap_closed_def)

lemma preserves_check_target:
  "plain_closed I \<Longrightarrow> snap_closed I \<Longrightarrow> preserves I (check_and_update_target_snapshot api p rnd at)"
  unfolding check_and_update_target_snapshot_def target_snapshot_def target_snapshot_hash_def
  by (intro preserves_miner_steps) (simp_all add: snap_closed_def)

lemma preserves_update_pages:
  "plain_closed I \<Longrightarrow> snap_closed I \<Longrightarrow> preserves I (update_voter_pages api rnd at ps)"
  by (induction ps) (auto intro!: preserves_miner_steps preserves_check_voter)

lemma preserves_update_pages_lossy:
  "plain_closed I \<Longrightarrow> snap_closed I \<Longrightarrow> preserves I (update_voter_pages_lossy api rnd at ps)"
  by (induction ps) (auto intro!: preserves_miner_steps preserves_check_voter)

lemma preserves_fetch_missing:
  "plain_closed I \<Longrightarrow> snap_closed I \<Longrightarrow> preserves I (fetch_missing_snapshots api at rnd)"
  unfolding fetch_missing_snapshots_def
  by (intro preserves_miner_steps preserves_update_pages preserves_check_target)

lemma preserves_fetch_missing_lossy:
  "plain_closed I \<Longrightarrow> snap_closed I \<Longrightarrow> preserves I (fetch_missing_snapshots_lossy api at rnd)"
  unfolding fetch_missing_snapshots_lossy_def
  by (intro preserves_miner_steps preserves_update_pages_lossy preserves_check_target)

text \<open>
  Such an invariant is preserved by a block when the two places that write the
  miner's other variables preserve it.
\<close>

lemma preserves_handle_existing:
  assumes "plain_closed I" and "preserves I (record_outcompeted (bd_round st))"
  shows "preserves I (handle_existing env st sol)"
proof -
  have compete: "preserves I (compete_and_submit env at (bd_round st) sol)" for at
    unfolding compete_and_submit_def
    by (intro preserves_miner_steps assms) simp_all
  show ?thesis
    unfolding handle_existing_def
    by (intro preserves_miner_steps assms)
      (auto split: current_submission.split intro!: preserves_miner_steps assms compete)
qed

lemma preserves_process_block:
  assumes "plain_closed I" and "snap_closed I"
    and "preserves I (record_outcompeted (bd_round st))" and "preserves I (solution_for_round env st)"
  shows "preserves I (process_block env st)"
proof -
  have signed: "preserves I (process_signed env st)"
    unfolding process_signed_def
    by (intro preserves_miner_steps preserves_handle_existing assms) simp_all
  show ?thesis
    unfolding process_block_def
    by (intro preserves_miner_steps assms(1))
      (auto split: phase.split
        intro!: preserves_miner_steps preserves_fetch_missing_lossy signed assms(1,2))
qed

subsection \<open>Mining once per round\<close>

fun is_mined :: "'sol event \<Rightarrow> bool" where
  "is_mined (Mined r) = True"
| "is_mined _ = False"

lemma plain_not_mined: "list_all plain evs \<Longrightarrow> filter is_mined evs = []"
  by (induction evs) (auto simp: plain_def split: event.splits)

definition has_solution :: "'sol paged_raw_solution \<Rightarrow> 'sol event list \<Rightarrow>
    ('w, 'sol, 'm) miner_sys_scheme \<Rightarrow> bool" where
  "has_solution sol mined s \<longleftrightarrow> cached_solution s = Some sol \<and> filter is_mined (trace s) = mined"

lemma has_solution_plain [simp]: "plain_closed (has_solution sol mined)"
  by (auto simp: plain_closed_def has_solution_def plain_not_mined)

lemma has_solution_record_outcompeted: "preserves (has_solution sol mined) (record_outcompeted rnd)"
  by (auto simp: preserves_def has_solution_def record_outcompeted_def io_defs)

lemma has_solution_reused:
  "round sol = bd_round st \<Longrightarrow> preserves (has_solution sol mined) (solution_for_round env st)"
  by (auto simp: preserves_def has_solution_def solution_for_round_def io_defs)

lemma has_solution_snap [simp]: "snap_closed (has_solution sol mined)"
  by (simp add: snap_closed_def has_solution_def)

text \<open>C27. While the miner holds a solution for the round of a block, processing
  the block mines nothing and keeps the solution, whatever the outcome.\<close>

theorem process_block_reuses_solution:
  assumes "cached_solution s = Some sol" and "round sol = bd_round st"
    and "process_block env st s = (r, t)"
  shows "cached_solution t = Some sol \<and> filter is_mined (trace t) = filter is_mined (trace s)"
proof -
  have "preserves (has_solution sol (filter is_mined (trace s))) (process_block env st)"
    by (intro preserves_process_block has_solution_record_outcompeted has_solution_reused assms(2))
      simp_all
  from preservesD [OF this _ assms(3)] assms(1) show ?thesis by (simp add: has_solution_def)
qed

theorem process_block_reuses_solution_witness:
  "filter is_mined (run_events (process_block (test_env rival_node) test_details)
     (test_miner\<lparr>cached_solution := Some test_solution\<rparr>)) = [] \<and>
   SentTx \<lparr>ext_call = Register (score test_solution), ext_nonce = 0, ext_mortal = Some 11,
     ext_restrict = False\<rparr> \<notin> set (run_events (process_block (test_env rival_node) test_details)
     (test_miner\<lparr>cached_solution := Some test_solution\<rparr>))"
proof -
  let ?s = "test_miner\<lparr>cached_solution := Some test_solution\<rparr>"
  let ?run = "process_block (test_env rival_node) test_details ?s"
  have "round test_solution = bd_round test_details"
    by (simp add: test_solution_def test_details_def)
  then have "filter is_mined (trace (snd ?run)) = []"
    using process_block_reuses_solution [of ?s test_solution test_details "test_env rival_node" "fst ?run" "snd ?run"]
    by (simp add: test_miner_def)
  then show ?thesis by (simp add: run_events_def run_defs io_defs upt_rec)
qed

subsection \<open>Only validated solutions are cached\<close>

text \<open>
  A solution of the election miner for its round that is feasible, has no more
  pages than the chain, and as many winners as the chain asks for.
\<close>

definition valid_solution :: "('w, 'sol) miner_env \<Rightarrow> 'sol paged_raw_solution \<Rightarrow> bool" where
  "valid_solution env sol \<longleftrightarrow>
     (word_of_nat (length (solution_pages sol)) :: u32) \<le> env_pages env \<and>
     (\<exists>input. mo_mine (env_miner env) input = Inr sol \<and> mi_round input = round sol \<and>
        mo_infeasible (env_miner env) sol (mi_voter_pages input) (mi_all_targets input)
          (mi_desired_targets input) = None \<and>
        mi_desired_targets input = word_of_nat (mo_winner_count (env_miner env) sol))"

definition cache_valid :: "('w, 'sol) miner_env \<Rightarrow> ('w, 'sol, 'm) miner_sys_scheme \<Rightarrow> bool" where
  "cache_valid env s \<longleftrightarrow> (\<forall>sol. cached_solution s = Some sol \<longrightarrow> valid_solution env sol)"

lemma cache_valid_closed [simp]: "plain_closed (cache_valid env)" "snap_closed (cache_valid env)"
  by (simp_all add: plain_closed_def snap_closed_def cache_valid_def)

lemma io_timeout_Ok: "io_timeout m s = (Ok (Some (Inr x)), t) \<longleftrightarrow> m s = (Ok x, t)"
  by (auto simp: io_timeout_def split: prod.splits outcome.splits)

lemma mine_solution_Ok:
  "mine_solution (env_miner env) (env_pages env) tg v n rnd desired red s = (Ok sol, t) \<Longrightarrow>
   \<exists>input. mo_mine (env_miner env) input = Inr sol \<and> mi_round input = rnd \<and>
     mi_desired_targets input = desired \<and>
     mo_infeasible (env_miner env) sol (mi_voter_pages input) (mi_all_targets input) desired = None"
  unfolding mine_solution_def Let_def
  by (auto simp: io_bind_eq_Ok throw_def ret_def split: sum.splits option.splits
      intro!: exI [of _ "\<lparr>mi_desired_targets = desired, mi_all_targets = tg,
        mi_voter_pages = take (unat (env_pages env)) v, mi_pages = n, mi_do_reduce = red,
        mi_round = rnd\<rparr>"])

lemma mine_with_timeout_Ok:
  assumes "mine_with_timeout env tg v n rnd desired s = (Ok sol, t)"
  shows "valid_solution env sol \<and> round sol = rnd"
proof -
  from assms obtain r s2 where
    mining: "io_timeout (mine_solution (env_miner env) (env_pages env) tg v n rnd desired (do_reduce (env_config env))) s
      = (Ok r :: (error, _) outcome, s2)" and
    cont: "(case r of
        Some (Inr sol) \<Rightarrow> validate_solution env rnd desired sol
      | Some (Inl e) \<Rightarrow> throw e
      | None \<Rightarrow> io_seq (emit (Metric MiningTimeoutM)) (throw (Timeout (MiningTimeout 600)))) s2
      = (Ok sol, t)"
    unfolding mine_with_timeout_def io_bind_eq_Ok by blast
  from cont obtain sol' where r: "r = Some (Inr sol')"
    and validated: "validate_solution env rnd desired sol' s2 = (Ok sol, t)"
    by (auto simp: io_bind_eq_Ok throw_def split: option.splits sum.splits)
  from mining r have
    mined: "mine_solution (env_miner env) (env_pages env) tg v n rnd desired (do_reduce (env_config env)) s = (Ok sol', s2)"
    by (simp add: io_timeout_Ok)
  from validated have "sol' = sol" "round sol = rnd"
    "(word_of_nat (length (solution_pages sol)) :: u32) \<le> env_pages env"
    "desired = word_of_nat (mo_winner_count (env_miner env) sol)"
    by (auto simp: validate_solution_def throw_def ret_def Let_def split: if_splits)
  with mine_solution_Ok [OF mined] show ?thesis by (auto simp: valid_solution_def)
qed

lemma mine_and_validate_Ok:
  "mine_and_validate env at rnd n desired s = (Ok sol, t) \<Longrightarrow>
   valid_solution env sol \<and> round sol = rnd"
  unfolding mine_and_validate_def
  by (auto simp: io_bind_eq_Ok io_get_def panic_def split: option.splits dest: mine_with_timeout_Ok)

lemma preserves_mine_and_validate: "preserves (cache_valid env) (mine_and_validate env at rnd n desired)"
  unfolding mine_and_validate_def mine_with_timeout_def
  by (intro preserves_miner_steps preserves_fetch_missing
      preserves_frames [OF frames_mine_solution] preserves_frames [OF frames_validate_solution])
    (simp_all add: independent_def cache_valid_def)

lemma preserves_mine_step:
  "preserves (cache_valid env) (io_bind (mine_and_validate env at rnd n desired)
     (\<lambda>sol. io_modify (\<lambda>s. s\<lparr>cached_solution := Some sol\<rparr>)))"
  unfolding preserves_def
proof (intro allI impI)
  fix s :: "('a, 'b, 'c) miner_sys_scheme"
  assume "cache_valid env s"
  obtain r t where run: "mine_and_validate env at rnd n desired s = (r, t)" by fastforce
  from preservesD [OF preserves_mine_and_validate \<open>cache_valid env s\<close> run] have "cache_valid env t" .
  then show "cache_valid env (snd (io_bind (mine_and_validate env at rnd n desired)
     (\<lambda>sol. io_modify (\<lambda>s. s\<lparr>cached_solution := Some sol\<rparr>)) s))"
    using run mine_and_validate_Ok [of env at rnd n desired s]
    by (cases r) (auto simp: io_bind_def io_modify_def cache_valid_def)
qed

lemma preserves_solution_for_round: "preserves (cache_valid env) (solution_for_round env st)"
  unfolding solution_for_round_def by (intro preserves_intros preserves_mine_step)

lemma preserves_handle_message:
  assumes "\<And>st. msg = ProcessBlock st \<Longrightarrow> preserves I (process_block env st)"
    and "preserves I clear_snapshots"
  shows "preserves I (handle_message env msg)"
  by (cases msg) (auto simp: handle_message_def intro!: preserves_intros assms)

lemma preserves_miner_loop:
  assumes "\<And>msg. msg \<in> set msgs \<Longrightarrow> preserves I (handle_message env msg)"
  shows "preserves I (miner_loop env msgs)"
  using assms by (induction msgs) (auto intro!: preserves_intros)

lemma cache_valid_miner_loop: "preserves (cache_valid env) (miner_loop env msgs)"
proof (intro preserves_miner_loop preserves_handle_message preserves_process_block
    preserves_solution_for_round)
  show "preserves (cache_valid env) (record_outcompeted rnd)" for rnd
    by (auto simp: preserves_def cache_valid_def record_outcompeted_def io_defs)
  show "preserves (cache_valid env) clear_snapshots"
    by (simp add: preserves_def clear_snapshots_def cache_valid_def io_modify_def)
qed simp_all

text \<open>C7. Whatever blocks and clear signals the miner task receives and whatever
  the node answers, the solution it holds is a validated one: mined for its own
  round, feasible, with at most the chain's number of pages and exactly the
  desired number of winners.\<close>

theorem miner_task_caches_validated:
  "cache_valid env (snd (miner_task env msgs s))"
proof -
  let ?s = "s\<lparr>snap := snapshot_new (env_pages env), cached_solution := None,
      last_outcompeted_round := None\<rparr>"
  obtain r t where run: "miner_loop env msgs ?s = (r, t)" by fastforce
  have "cache_valid env ?s" by (simp add: cache_valid_def)
  from preservesD [OF cache_valid_miner_loop this run] run show ?thesis
    by (simp add: miner_task_def io_bind_def io_modify_def)
qed

subsection \<open>A lost round is counted once\<close>

fun is_skip :: "'sol event \<Rightarrow> bool" where
  "is_skip (Metric c) = (c = SubmissionSkippedNotCompetitive)"
| "is_skip _ = False"

definition skips :: "'sol event list \<Rightarrow> nat" where
  "skips evs = length (filter is_skip evs)"

lemma skips_append [simp]: "skips (evs @ evs') = skips evs + skips evs'"
  by (simp add: skips_def)

lemma plain_skips: "list_all plain evs \<Longrightarrow> skips evs = 0"
  unfolding skips_def by (induction evs) (auto simp: plain_def split: event.splits)

lemma no_skips: "list_all (\<lambda>ev. \<not> is_skip ev) evs \<Longrightarrow> skips evs = 0"
  by (simp add: skips_def list_all_iff)

text \<open>
  At most \<open>k\<close> lost rounds were counted so far, or one more, which is then the
  current one.
\<close>

definition counted_once :: "u32 \<Rightarrow> nat \<Rightarrow> ('w, 'sol, 'm) miner_sys_scheme \<Rightarrow> bool" where
  "counted_once rnd k s \<longleftrightarrow>
     skips (trace s) \<le> k \<or> skips (trace s) \<le> Suc k \<and> last_outcompeted_round s = Some rnd"

lemma counted_once_closed [simp]: "plain_closed (counted_once rnd k)" "snap_closed (counted_once rnd k)"
  by (auto simp: plain_closed_def snap_closed_def counted_once_def plain_skips)

lemma counted_once_record: "preserves (counted_once rnd k) (record_outcompeted rnd)"
  by (auto simp: preserves_def counted_once_def record_outcompeted_def io_defs)
    (auto simp: skips_def)

lemma mined_skips: "emits (\<lambda>ev. \<not> is_skip ev) (mine_with_timeout env t v n rnd desired)"
  unfolding mine_with_timeout_def mine_solution_def Let_def
  by (intro safe_intros conjI allI) auto

lemma counted_once_mining:
  "preserves (counted_once rnd k) (mine_with_timeout env t v n rnd' desired)"
proof (rule preserves_within [OF mined_skips])
  show "frames (mine_with_timeout env t v n rnd' desired)"
    unfolding mine_with_timeout_def by (intro frames_intros)
qed (auto simp: counted_once_def no_skips)

lemma counted_once_solution: "preserves (counted_once rnd k) (solution_for_round env st)"
  unfolding solution_for_round_def mine_and_validate_def
  by (intro preserves_intros preserves_fetch_missing counted_once_mining)
    (simp_all add: counted_once_def)

lemma counted_once_loop:
  assumes "\<forall>st. ProcessBlock st \<in> set msgs \<longrightarrow> bd_round st = rnd"
  shows "preserves (counted_once rnd k) (miner_loop env msgs)"
proof (intro preserves_miner_loop preserves_handle_message preserves_process_block
    counted_once_solution counted_once_closed)
  show "preserves (counted_once rnd k) (record_outcompeted (bd_round st))"
    if "msg \<in> set msgs" and "msg = ProcessBlock st" for msg st
    using that assms counted_once_record by auto
  show "preserves (counted_once rnd k) clear_snapshots"
    by (simp add: preserves_def clear_snapshots_def counted_once_def io_modify_def)
qed

text \<open>C32. Over all the blocks of one round, in any number and with clear signals
  among them, the metric for a solution that lost the competition is recorded at
  most once.\<close>

theorem outcompeted_once_per_round:
  assumes "\<forall>st. ProcessBlock st \<in> set msgs \<longrightarrow> bd_round st = rnd"
    and "miner_loop env msgs s = (r, t)"
  shows "skips (trace t) \<le> Suc (skips (trace s))"
proof -
  have "counted_once rnd (skips (trace s)) s" by (simp add: counted_once_def)
  from preservesD [OF counted_once_loop [OF assms(1)] this assms(2)] show ?thesis
    by (auto simp: counted_once_def)
qed

theorem outcompeted_once_per_round_witness:
  "skips (run_events (miner_loop (test_env rival_node)
     [ProcessBlock test_details, ProcessBlock test_details]) test_miner) = 1"
proof -
  let ?msgs = "[ProcessBlock test_details, ProcessBlock test_details]"
  let ?run = "miner_loop (test_env rival_node) ?msgs test_miner"
  have "skips (trace (snd ?run)) \<le> 1"
    using outcompeted_once_per_round [of ?msgs 1 "test_env rival_node" test_miner "fst ?run" "snd ?run"]
    by (simp add: test_details_def test_miner_def skips_def)
  moreover have "Metric SubmissionSkippedNotCompetitive \<in> set (trace (snd ?run))"
    by (simp add: run_defs io_defs upt_rec)
  then have "0 < skips (trace (snd ?run))" by (force simp: skips_def filter_empty_conv)
  ultimately show ?thesis by (simp add: run_events_def)
qed

subsection \<open>Existing submissions\<close>

lemma hs_extend_distinct: "distinct (xs @ ys) \<Longrightarrow> hs_extend xs ys = xs @ ys"
proof (induction ys arbitrary: xs)
  case (Cons y ys)
  from Cons.prems have "hs_extend xs (y # ys) = hs_extend (xs @ [y]) ys"
    by (simp add: hs_extend_def hs_insert_def)
  with Cons show ?case by simp
qed (simp add: hs_extend_def)

lemma enumerate_eq_map: "enumerate 0 xs = List.map (\<lambda>i. (i, xs ! i)) [0 ..< length xs]"
  by (rule nth_equalityI) (simp_all add: nth_enumerate_eq)

lemma submitted_set_eq:
  assumes "length bits \<le> 2 ^ 32"
  shows "submitted_set bits = List.map word_of_nat (filter (\<lambda>i. bits ! i) [0 ..< length bits])"
proof -
  let ?xs = "List.map word_of_nat (filter (\<lambda>i. bits ! i) [0 ..< length bits]) :: u32 list"
  have "inj_on (word_of_nat :: nat \<Rightarrow> u32) {0 ..< length bits}"
    by (rule inj_on_inverseI [where g = unat]) (use assms in \<open>simp add: unat_u32\<close>)
  then have "distinct ?xs" by (auto simp: distinct_map intro: inj_on_subset)
  moreover have "submitted_set bits = hs_of ?xs"
    by (simp add: submitted_set_def enumerate_eq_map filter_map comp_def)
  ultimately show ?thesis by (simp add: hs_extend_distinct)
qed

lemma all_marked: "length (filter (\<lambda>i. bits ! i) [0 ..< length bits]) = length bits \<longleftrightarrow> list_all id bits"
proof -
  have "length (filter (\<lambda>i. bits ! i) [0 ..< length bits]) = length bits \<longleftrightarrow>
      (\<forall>i \<in> set [0 ..< length bits]. bits ! i)"
    by (metis filter_True filter_id_conv length_filter_less length_upt diff_zero less_irrefl)
  then show ?thesis by (auto simp: list_all_length)
qed

text \<open>C35. A submission counts as done exactly when every page is marked, and the
  pages reported missing of an incomplete one are exactly the unmarked ones, in
  order.\<close>

theorem classify_submission_pages:
  assumes "length bits = unat n"
  shows "classify_submission (Some \<lparr>claimed_score = sc, pages = bits\<rparr>) n =
    (if list_all id bits then Done sc
     else Incomplete \<lparr>inc_score = sc, inc_pages = submitted_set bits, inc_n_pages = n\<rparr>) \<and>
    get_missing_pages \<lparr>inc_score = sc, inc_pages = submitted_set bits, inc_n_pages = n\<rparr> =
      filter (\<lambda>p. \<not> bits ! unat p) (u32_range n)"
proof
  have "length bits \<le> 2 ^ 32"
    using assms unsigned_less [of n, where ?'a = nat] by simp
  note eq = submitted_set_eq [OF this]
  show "classify_submission (Some \<lparr>claimed_score = sc, pages = bits\<rparr>) n =
    (if list_all id bits then Done sc
     else Incomplete \<lparr>inc_score = sc, inc_pages = submitted_set bits, inc_n_pages = n\<rparr>)"
    using all_marked [of bits] by (simp add: classify_submission_def Let_def eq assms)
  have "p \<in> set (submitted_set bits) \<longleftrightarrow> bits ! unat p" if "p < n" for p
    using that by (auto simp: eq assms unat_in_range word_less_nat_alt intro!: image_eqI [of _ _ "unat p"])
  then show "get_missing_pages \<lparr>inc_score = sc, inc_pages = submitted_set bits, inc_n_pages = n\<rparr> =
      filter (\<lambda>p. \<not> bits ! unat p) (u32_range n)"
    by (auto simp: get_missing_pages_def intro: filter_cong)
qed

theorem classify_submission_pages_witness:
  "classify_submission (Some \<lparr>claimed_score = max_score, pages = [True, False, True]\<rparr>) 3 =
     Incomplete \<lparr>inc_score = max_score, inc_pages = submitted_set [True, False, True], inc_n_pages = 3\<rparr> \<and>
   get_missing_pages \<lparr>inc_score = max_score, inc_pages = submitted_set [True, False, True],
     inc_n_pages = 3\<rparr> = [1]"
  using classify_submission_pages [of "[True, False, True]" 3 max_score]
  by (simp add: u32_range_def upt_rec)

subsection \<open>Errors\<close>

lemma handle_message_critical: "handle_message env msg s = (Err e, t) \<Longrightarrow> is_critical_miner_error e"
  by (auto simp: handle_message_def clear_snapshots_def io_modify_def io_bind_def io_try_def
      throw_def ret_def split: miner_message.splits prod.splits outcome.splits sum.splits if_splits)

text \<open>The miner task ends with an error only when it is critical; every other
  error of a block is absorbed and the next message is processed.\<close>

theorem miner_task_ends_critically:
  assumes "miner_task env msgs s = (Err e, t)"
  shows "is_critical_miner_error e"
proof -
  from assms obtain s1 where "miner_loop env msgs s1 = (Err e, t)"
    by (auto simp: miner_task_def io_bind_def io_modify_def)
  from miner.failure_cause [OF this] show ?thesis
    by (auto simp: is_critical_miner_error_def [of "TaskFailure MinerTask"] dest: handle_message_critical)
qed

theorem miner_task_ends_critically_witness:
  "fst (miner_task (test_env rival_node) [ClearSnapshots] test_miner) = Err (TaskFailure MinerTask) \<and>
   is_critical_miner_error (TaskFailure MinerTask)"
proof -
  let ?run = "miner_task (test_env rival_node) [ClearSnapshots] test_miner"
  have "fst ?run = Err (TaskFailure MinerTask)" by (simp add: run_defs io_defs)
  with miner_task_ends_critically [of "test_env rival_node" "[ClearSnapshots]" test_miner
      "TaskFailure MinerTask" "snd ?run"]
  show ?thesis by (metis prod.collapse)
qed

text \<open>
  A defect: completing an incomplete submission reports success although the
  page it sent was not stored.
\<close>

theorem missing_pages_success_without_storage:
  "let evs = run_events (process_block
       (test_env (test_node [0] (Signed 10) (Some \<lparr>claimed_score = score test_solution, pages = [True, False]\<rparr>)))
       test_details) test_miner
   in Metric SubmissionSuccess \<in> set evs \<and> PageStored 1 \<notin> set evs"
  by (simp add: run_events_def run_defs io_defs upt_rec)

end
