(* ===== verification/Runtime_Params.thy ===== *)
theory Runtime_Params
  imports Election_Snapshots Options Node_Runs Keyed_Lists
begin

text \<open>
  The parameters of the election miner that follow the chain's metadata: the cells
  that the macros of \<open>src/src/macros.rs\<close> declare in
  \<open>src/src/static_types/multi_block.rs\<close>, reading pallet constants
  (\<open>src/src/dynamic/pallet_api.rs\<close>) into them
  (\<open>update_metadata_constants\<close> of \<open>src/src/dynamic/mod.rs\<close>), and the task of
  \<open>src/src/main.rs\<close> that repeats this at a runtime upgrade.  The metadata of a block
  and the arithmetic of \<open>Percent\<close> are parameters.
\<close>

subsection \<open>Cells\<close>

record runtime_params =
  rp_pages :: u32
  rp_target_snapshot_per_block :: u32
  rp_voter_snapshot_per_block :: u32
  rp_max_winners_per_page :: u32
  rp_max_backers_per_winner :: u32
  rp_max_length :: u32
  rp_balancing :: nat
  rp_algorithm :: u8

definition initial_params :: runtime_params where
  "initial_params =
     \<lparr>rp_pages = 0, rp_target_snapshot_per_block = 0, rp_voter_snapshot_per_block = 0, rp_max_winners_per_page = 0,
      rp_max_backers_per_winner = 0, rp_max_length = 0, rp_balancing = 10, rp_algorithm = 0\<rparr>"

text \<open>The algorithm is stored as a byte; no other byte may be read (\<open>unreachable!\<close>).\<close>

definition algorithm_get :: "runtime_params \<Rightarrow> election_algorithm option" where
  "algorithm_get p =
     (if rp_algorithm p = 0 then Some SeqPhragmen else if rp_algorithm p = 1 then Some Phragmms else None)"

definition algorithm_set :: "election_algorithm \<Rightarrow> runtime_params \<Rightarrow> runtime_params" where
  "algorithm_set a p = p\<lparr>rp_algorithm := (case a of SeqPhragmen \<Rightarrow> 0 | Phragmms \<Rightarrow> 1)\<rparr>"

record balancing_config =
  bal_iterations :: nat
  bal_tolerance :: nat

definition balancing_get :: "runtime_params \<Rightarrow> balancing_config option" where
  "balancing_get p = Some \<lparr>bal_iterations = rp_balancing p, bal_tolerance = 0\<rparr>"

definition balancing_set :: "nat \<Rightarrow> runtime_params \<Rightarrow> runtime_params" where
  "balancing_set iterations p = p\<lparr>rp_balancing := iterations\<rparr>"

text \<open>\<open>DynamicSolver::solve\<close>: the solver the algorithm names, or a panic; the solvers
  are the SDK's.\<close>

definition dynamic_solve :: "(balancing_config option \<Rightarrow> 'r) \<Rightarrow> (balancing_config option \<Rightarrow> 'r) \<Rightarrow> runtime_params \<Rightarrow> 'r option" where
  "dynamic_solve sequential_phragmen phragmms p =
     map_option (\<lambda>a. case a of
        SeqPhragmen \<Rightarrow> sequential_phragmen (balancing_get p)
      | Phragmms \<Rightarrow> phragmms (balancing_get p)) (algorithm_get p)"

text \<open>The votes of a voter per chain, and the bounds of its \<open>MinerConfig\<close>.\<close>

fun max_votes_per_voter :: "chain \<Rightarrow> u32" where
  "max_votes_per_voter Polkadot = 16"
| "max_votes_per_voter Kusama = 24"
| "max_votes_per_voter Westend = 16"
| "max_votes_per_voter StakingAsync = 16"
| "max_votes_per_voter SubstrateNode = 16"

definition miner_config :: "chain \<Rightarrow> runtime_params \<Rightarrow> miner_bounds" where
  "miner_config c p =
     \<lparr>mb_pages = rp_pages p, mb_voters_per_page = rp_voter_snapshot_per_block p,
      mb_targets_per_page = rp_target_snapshot_per_block p, mb_max_votes = max_votes_per_voter c\<rparr>"

subsection \<open>Pallet constants\<close>

record pallet_item =
  pi_pallet :: string
  pi_variant :: string

record block_length =
  bl_normal :: u32
  bl_operational :: u32
  bl_mandatory :: u32

definition block_length_total :: "block_length \<Rightarrow> u32" where
  "block_length_total bl =
     saturating_add (saturating_add (saturating_add 0 (bl_normal bl)) (bl_operational bl)) (bl_mandatory bl)"

text \<open>The metadata of a block: the value of a constant, and reading it at a type, with
  the printed errors; and a percentage of a number.\<close>

record 'x constants_api =
  ca_entry :: "at_block \<Rightarrow> pallet_item \<Rightarrow> string + 'x"
  ca_u32 :: "'x \<Rightarrow> string + u32"
  ca_u16 :: "'x \<Rightarrow> string + u16"
  ca_block_length :: "'x \<Rightarrow> string + block_length"
  ca_u32_name :: string
  ca_u16_name :: string
  ca_block_length_name :: string
  ca_percent :: "nat \<Rightarrow> u32 \<Rightarrow> u32"

definition fetch_constant ::
  "'x constants_api \<Rightarrow> ('x \<Rightarrow> string + 'a) \<Rightarrow> string \<Rightarrow> pallet_item \<Rightarrow> at_block \<Rightarrow> error + 'a" where
  "fetch_constant ca from_value type_name item at =
     (case ca_entry ca at item of
        Inl e \<Rightarrow> Inl (InvalidMetadata (pi_variant item @ '' failed: '' @ e))
      | Inr val \<Rightarrow>
          (case from_value val of
             Inl e \<Rightarrow> Inl (InvalidMetadata (''Decoding constant '' @ pi_pallet item @ '':'' @ pi_variant item @
               '' type: '' @ [CHR 0x60] @ type_name @ [CHR 0x60] @ '' couldn'' @ [CHR 0x27] @ ''t be decoded '' @ e))
           | Inr v \<Rightarrow> Inr v))"

definition item :: "string \<Rightarrow> string \<Rightarrow> pallet_item" where
  "item pallet variant = \<lparr>pi_pallet = pallet, pi_variant = variant\<rparr>"

definition fetch_u32 :: "'x constants_api \<Rightarrow> string \<Rightarrow> string \<Rightarrow> at_block \<Rightarrow> error + u32" where
  "fetch_u32 ca pallet variant at = fetch_constant ca (ca_u32 ca) (ca_u32_name ca) (item pallet variant) at"

record ('w, 'v) params_sys = "('w, 'v) sys" +
  params :: runtime_params

type_synonym ('w, 'v, 'm, 'a) params_prog = "(('w, 'v, 'm) params_sys_scheme, error, 'a) io"

definition store :: "(runtime_params \<Rightarrow> runtime_params) \<Rightarrow> ('w, 'v, 'm, unit) params_prog" where
  "store f = io_modify (\<lambda>s. s\<lparr>params := f (params s)\<rparr>)"

text \<open>The cells are set one by one; a constant that cannot be read leaves those before
  it set.\<close>

definition update_metadata_constants :: "'x constants_api \<Rightarrow> at_block \<Rightarrow> ('w, 'v, 'm, unit) params_prog" where
  "update_metadata_constants ca at =
     io_bind (io_result (fetch_u32 ca ''MultiBlockElection'' ''Pages'' at)) (\<lambda>pgs.
     io_seq (store (\<lambda>p. p\<lparr>rp_pages := pgs\<rparr>))
    (io_bind (io_result (fetch_u32 ca ''MultiBlockElection'' ''TargetSnapshotPerBlock'' at)) (\<lambda>x.
     io_seq (store (\<lambda>p. p\<lparr>rp_target_snapshot_per_block := x\<rparr>))
    (io_bind (io_result (fetch_u32 ca ''MultiBlockElection'' ''VoterSnapshotPerBlock'' at)) (\<lambda>x.
     io_seq (store (\<lambda>p. p\<lparr>rp_voter_snapshot_per_block := x\<rparr>))
    (io_bind (io_result (fetch_constant ca (ca_block_length ca) (ca_block_length_name ca) (item ''System'' ''BlockLength'') at)) (\<lambda>block_len.
     io_seq (store (\<lambda>p. p\<lparr>rp_max_length := ca_percent ca 75 (block_length_total block_len)\<rparr>))
    (io_bind (io_result (fetch_u32 ca ''MultiBlockElectionVerifier'' ''MaxWinnersPerPage'' at)) (\<lambda>x.
     io_seq (store (\<lambda>p. p\<lparr>rp_max_winners_per_page := x\<rparr>))
    (io_bind (io_result (fetch_u32 ca ''MultiBlockElectionVerifier'' ''MaxBackersPerWinner'' at)) (\<lambda>x.
     store (\<lambda>p. p\<lparr>rp_max_backers_per_winner := x\<rparr>))))))))))))"

definition set_balancing_iterations :: "nat \<Rightarrow> ('w, 'v, 'm, unit) params_prog" where
  "set_balancing_iterations iterations = store (balancing_set iterations)"

definition set_algorithm :: "election_algorithm \<Rightarrow> ('w, 'v, 'm, unit) params_prog" where
  "set_algorithm a = store (algorithm_set a)"

subsection \<open>Runtime upgrades\<close>

datatype upgrade_event = RuntimeUpgraded

record ('w, 'v) upgrade_sys = "('w, 'v) params_sys" +
  last_spec_version :: "u32 option"

type_synonym ('w, 'v, 'm, 'a) upgrade_prog = "(('w, 'v, 'm) upgrade_sys_scheme, error, 'a) io"

text \<open>One tick of the hourly check.\<close>

definition upgrade_check ::
  "(upgrade_event \<Rightarrow> 'v) \<Rightarrow> 'x constants_api \<Rightarrow> ('w, at_block) ext \<Rightarrow> ('w, 'v, 'm, unit) upgrade_prog" where
  "upgrade_check ev ca at_current_block =
     io_bind (io_try (call at_current_block)) (\<lambda>r.
     case r of
       Inl e \<Rightarrow> ret ()
     | Inr at \<Rightarrow>
         let current_spec = ab_spec_version at in
         io_bind (io_get last_spec_version) (\<lambda>last.
         io_seq
           (case last of
              Some prev \<Rightarrow>
                if current_spec \<noteq> prev then
                  io_seq (update_metadata_constants ca at) (emit (ev RuntimeUpgraded))
                else ret ()
            | None \<Rightarrow> ret ())
           (io_modify (\<lambda>s. s\<lparr>last_spec_version := Some current_spec\<rparr>))))"

text \<open>The first \<open>n\<close> ticks of the task.  An error is the one sent to \<open>main\<close> as the
  task ends.\<close>

primrec upgrade_ticks ::
  "nat \<Rightarrow> (upgrade_event \<Rightarrow> 'v) \<Rightarrow> 'x constants_api \<Rightarrow> ('w, at_block) ext \<Rightarrow> ('w, 'v, 'm, unit) upgrade_prog" where
  "upgrade_ticks 0 ev ca at_current_block = ret ()"
| "upgrade_ticks (Suc n) ev ca at_current_block =
     io_seq (upgrade_check ev ca at_current_block) (upgrade_ticks n ev ca at_current_block)"

definition runtime_upgrade_task ::
  "nat \<Rightarrow> (upgrade_event \<Rightarrow> 'v) \<Rightarrow> 'x constants_api \<Rightarrow> ('w, at_block) ext \<Rightarrow> ('w, 'v, 'm, unit) upgrade_prog" where
  "runtime_upgrade_task n ev ca at_current_block =
     io_seq (io_modify (\<lambda>s. s\<lparr>last_spec_version := None\<rparr>)) (upgrade_ticks n ev ca at_current_block)"

subsection \<open>All constants at once\<close>

record chain_constants =
  cc_pages :: u32
  cc_targets :: u32
  cc_voters :: u32
  cc_max_length :: u32
  cc_max_winners :: u32
  cc_max_backers :: u32

definition read_constants :: "'x constants_api \<Rightarrow> at_block \<Rightarrow> error + chain_constants" where
  "read_constants ca at =
     and_then (fetch_u32 ca ''MultiBlockElection'' ''Pages'' at) (\<lambda>a.
     and_then (fetch_u32 ca ''MultiBlockElection'' ''TargetSnapshotPerBlock'' at) (\<lambda>b.
     and_then (fetch_u32 ca ''MultiBlockElection'' ''VoterSnapshotPerBlock'' at) (\<lambda>c.
     and_then (fetch_constant ca (ca_block_length ca) (ca_block_length_name ca) (item ''System'' ''BlockLength'') at) (\<lambda>l.
     and_then (fetch_u32 ca ''MultiBlockElectionVerifier'' ''MaxWinnersPerPage'' at) (\<lambda>d.
     and_then (fetch_u32 ca ''MultiBlockElectionVerifier'' ''MaxBackersPerWinner'' at) (\<lambda>e.
     Inr \<lparr>cc_pages = a, cc_targets = b, cc_voters = c, cc_max_length = ca_percent ca 75 (block_length_total l),
          cc_max_winners = d, cc_max_backers = e\<rparr>))))))"

definition with_constants :: "chain_constants \<Rightarrow> runtime_params \<Rightarrow> runtime_params" where
  "with_constants c p =
     p\<lparr>rp_pages := cc_pages c, rp_target_snapshot_per_block := cc_targets c, rp_voter_snapshot_per_block := cc_voters c,
       rp_max_length := cc_max_length c, rp_max_winners_per_page := cc_max_winners c,
       rp_max_backers_per_winner := cc_max_backers c\<rparr>"

lemma with_constants_again [simp]: "with_constants c (with_constants c' p) = with_constants c p"
  by (simp add: with_constants_def)

lemma and_then_Inr: "and_then r f = Inr y \<longleftrightarrow> (\<exists>x. r = Inr x \<and> f x = Inr y)"
  by (cases r) simp_all

text \<open>When every constant can be read, all cells are set.\<close>

lemma update_metadata_constants_Ok:
  assumes "read_constants ca at = Inr c"
  shows "update_metadata_constants ca at s = (Ok (), s\<lparr>params := with_constants c (params s)\<rparr>)"
proof -
  from assms obtain a b d e f g where
    "fetch_u32 ca ''MultiBlockElection'' ''Pages'' at = Inr a"
    "fetch_u32 ca ''MultiBlockElection'' ''TargetSnapshotPerBlock'' at = Inr b"
    "fetch_u32 ca ''MultiBlockElection'' ''VoterSnapshotPerBlock'' at = Inr d"
    "fetch_constant ca (ca_block_length ca) (ca_block_length_name ca) (item ''System'' ''BlockLength'') at = Inr e"
    "fetch_u32 ca ''MultiBlockElectionVerifier'' ''MaxWinnersPerPage'' at = Inr f"
    "fetch_u32 ca ''MultiBlockElectionVerifier'' ''MaxBackersPerWinner'' at = Inr g"
    "c = \<lparr>cc_pages = a, cc_targets = b, cc_voters = d, cc_max_length = ca_percent ca 75 (block_length_total e),
          cc_max_winners = f, cc_max_backers = g\<rparr>"
    unfolding read_constants_def and_then_Inr by (auto simp only: sum.inject)
  then show ?thesis
    by (simp add: update_metadata_constants_def store_def io_defs with_constants_def)
qed

subsection \<open>Following upgrades\<close>

text \<open>A node that answers from a list, in order; the versions it reported, and how often
  they changed.\<close>

fun next_answer :: "((subxt_error + at_block) list, at_block) ext" where
  "next_answer [] = (Pending, [])"
| "next_answer (Inl e # rs) = (Err e, rs)"
| "next_answer (Inr at # rs) = (Ok at, rs)"

fun answered :: "(subxt_error + at_block) list \<Rightarrow> u32 list" where
  "answered [] = []"
| "answered (Inl e # rs) = answered rs"
| "answered (Inr at # rs) = ab_spec_version at # answered rs"

fun spec_changes :: "u32 list \<Rightarrow> nat" where
  "spec_changes (v # v' # vs) = (if v = v' then 0 else 1) + spec_changes (v' # vs)"
| "spec_changes _ = 0"

lemma upgrade_ticks_follow:
  fixes s :: "((subxt_error + at_block) list, 'v, 'm) upgrade_sys_scheme"
  assumes K: "\<And>at. read_constants ca at = Inr (K (ab_spec_version at))"
    and "world s = rs" "last_spec_version s = Some v" "params s = with_constants c p"
    and c: "c = K v"
  shows "\<exists>t. upgrade_ticks (length rs) ev ca next_answer s = (Ok (), t) \<and>
    params t = with_constants (K (last (v # answered rs))) p \<and>
    trace t = trace s @ replicate (spec_changes (v # answered rs)) (ev RuntimeUpgraded)"
  using assms(2-)
proof (induction rs arbitrary: s v c)
  case (Cons r rs)
  show ?case
  proof (cases r)
    case (Inl e)
    have "upgrade_check ev ca next_answer s = (Ok (), s\<lparr>world := rs\<rparr>)"
      using Cons.prems Inl by (simp add: upgrade_check_def io_defs call_def)
    moreover note Cons.IH [of "s\<lparr>world := rs\<rparr>" v c]
    ultimately show ?thesis using Cons.prems Inl by (simp add: io_bind_def)
  next
    case (Inr at)
    let ?v = "ab_spec_version at"
    let ?t = "s\<lparr>world := rs, params := with_constants (K ?v) p, last_spec_version := Some ?v,
      trace := trace s @ (if ?v = v then [] else [ev RuntimeUpgraded])\<rparr>"
    have "upgrade_check ev ca next_answer s = (Ok (), ?t)"
      using Cons.prems Inr
      by (simp add: upgrade_check_def io_defs call_def update_metadata_constants_Ok [OF K] Let_def)
    moreover note Cons.IH [of ?t ?v "K ?v"]
    ultimately show ?thesis using Cons.prems Inr by (auto simp: io_bind_def replicate_append_same)
  qed
qed (simp add: ret_def)

text \<open>Before the first block nothing is compared: the first answer only sets the
  version.\<close>

lemma upgrade_ticks_first:
  fixes s :: "((subxt_error + at_block) list, 'v, 'm) upgrade_sys_scheme"
  assumes "world s = rs" "last_spec_version s = None"
  shows "answered rs = [] \<and> (\<exists>t. upgrade_ticks (length rs) ev ca next_answer s = (Ok (), t) \<and>
      params t = params s \<and> trace t = trace s) \<or>
    (\<exists>v rs' t. answered rs = v # answered rs' \<and> world t = rs' \<and> last_spec_version t = Some v \<and>
      params t = params s \<and> trace t = trace s \<and>
      upgrade_ticks (length rs) ev ca next_answer s = upgrade_ticks (length rs') ev ca next_answer t)"
  using assms
proof (induction rs arbitrary: s)
  case (Cons r rs)
  show ?case
  proof (cases r)
    case (Inl e)
    have "upgrade_check ev ca next_answer s = (Ok (), s\<lparr>world := rs\<rparr>)"
      using Cons.prems Inl by (simp add: upgrade_check_def io_defs call_def)
    with Cons.IH [of "s\<lparr>world := rs\<rparr>"] Cons.prems Inl show ?thesis by (simp add: io_bind_def)
  next
    case (Inr at)
    let ?t = "s\<lparr>world := rs, last_spec_version := Some (ab_spec_version at)\<rparr>"
    have "upgrade_check ev ca next_answer s = (Ok (), ?t)"
      using Cons.prems Inr by (simp add: upgrade_check_def io_defs call_def Let_def)
    then have "upgrade_ticks (length (r # rs)) ev ca next_answer s = upgrade_ticks (length rs) ev ca next_answer ?t"
      by (simp add: io_bind_def)
    with Inr show ?thesis by (intro disjI2 exI [of _ "ab_spec_version at"] exI [of _ rs] exI [of _ ?t]) simp
  qed
qed (simp add: ret_def)

text \<open>C18. Where the constants of a block are those of its runtime version, and the
  first block the task sees is of the version the constants were loaded at, the task
  stays alive through any sequence of answers and failures; the constants in force are
  those of the last version seen, and every change of version is reported once.\<close>

theorem runtime_upgrades_followed:
  fixes s :: "((subxt_error + at_block) list, 'v, 'm) upgrade_sys_scheme"
  assumes "\<And>at. read_constants ca at = Inr (K (ab_spec_version at))"
    and "world s = rs" "params s = with_constants (K loaded) p" "\<forall>v \<in> set (take 1 (answered rs)). v = loaded"
  shows "\<exists>t. runtime_upgrade_task (length rs) ev ca next_answer s = (Ok (), t) \<and>
    params t = with_constants (K (last (loaded # answered rs))) p \<and>
    trace t = trace s @ replicate (spec_changes (answered rs)) (ev RuntimeUpgraded)"
proof -
  let ?s = "s\<lparr>last_spec_version := None\<rparr>"
  have start: "runtime_upgrade_task (length rs) ev ca next_answer s = upgrade_ticks (length rs) ev ca next_answer ?s"
    by (simp add: runtime_upgrade_task_def io_defs)
  from upgrade_ticks_first [of ?s rs ev ca] assms(2)
  consider "answered rs = []" "\<exists>t. upgrade_ticks (length rs) ev ca next_answer ?s = (Ok (), t) \<and>
        params t = params s \<and> trace t = trace s"
    | v rs' t where "answered rs = v # answered rs'" "world t = rs'" "last_spec_version t = Some v"
      "params t = params s" "trace t = trace s"
      "upgrade_ticks (length rs) ev ca next_answer ?s = upgrade_ticks (length rs') ev ca next_answer t"
    by auto
  then show ?thesis
  proof cases
    case 1
    then show ?thesis using assms(3) by (auto simp: start)
  next
    case (2 v rs' t)
    from 2(1) assms(4) have v: "v = loaded" by simp
    have "params t = with_constants (K loaded) p" using 2(4) assms(3) by simp
    from upgrade_ticks_follow [OF assms(1) 2(2,3) this, of ev] v obtain t' where
      "upgrade_ticks (length rs') ev ca next_answer t = (Ok (), t')"
      "params t' = with_constants (K (last (loaded # answered rs'))) p"
      "trace t' = trace s @ replicate (spec_changes (loaded # answered rs')) (ev RuntimeUpgraded)"
      by (metis 2(5))
    then show ?thesis
      unfolding start 2(6) 2(1) v by (metis last_ConsR list.distinct(1))
  qed
qed

text \<open>If the first check comes after the upgrade, or fails, so that the first block it
  sees is of the new version, the constants stay at the old one as long as that version
  runs.\<close>

theorem upgrade_before_first_check_missed:
  fixes s :: "((subxt_error + at_block) list, 'v, 'm) upgrade_sys_scheme"
  assumes "\<And>at. Inr at \<in> set rs \<Longrightarrow> ab_spec_version at = new" "world s = rs"
  shows "\<exists>t. runtime_upgrade_task (length rs) ev ca next_answer s = (Ok (), t) \<and> params t = params s"
proof -
  have run: "\<exists>t. upgrade_ticks (length rs) ev ca next_answer s = (Ok (), t) \<and> params t = params s"
    if "world s = rs" "last_spec_version s \<in> {None, Some new}" "\<forall>at. Inr at \<in> set rs \<longrightarrow> ab_spec_version at = new"
    for s :: "((subxt_error + at_block) list, 'v, 'm) upgrade_sys_scheme"
    using that
  proof (induction rs arbitrary: s)
    case (Cons r rs)
    obtain t where "upgrade_check ev ca next_answer s = (Ok (), t)" "world t = rs" "params t = params s"
      "last_spec_version t \<in> {None, Some new}"
      using Cons.prems by (cases r) (auto simp: upgrade_check_def io_defs call_def Let_def)
    with Cons.IH [of t] Cons.prems(3) show ?case by (simp add: io_bind_def)
  qed (simp add: ret_def)
  from run [of "s\<lparr>last_spec_version := None\<rparr>"] assms show ?thesis
    by (auto simp: runtime_upgrade_task_def io_defs)
qed

subsection \<open>The solver\<close>

text \<open>What may happen to the cells.\<close>

datatype param_op = ConstantsRead chain_constants | BalancingSet nat | AlgorithmSet election_algorithm

fun apply_op :: "param_op \<Rightarrow> runtime_params \<Rightarrow> runtime_params" where
  "apply_op (ConstantsRead c) p = with_constants c p"
| "apply_op (BalancingSet n) p = balancing_set n p"
| "apply_op (AlgorithmSet a) p = algorithm_set a p"

fun last_algorithm :: "param_op list \<Rightarrow> election_algorithm \<Rightarrow> election_algorithm" where
  "last_algorithm [] a = a"
| "last_algorithm (AlgorithmSet a # ops) _ = last_algorithm ops a"
| "last_algorithm (_ # ops) a = last_algorithm ops a"

fun last_balancing :: "param_op list \<Rightarrow> nat \<Rightarrow> nat" where
  "last_balancing [] n = n"
| "last_balancing (BalancingSet n # ops) _ = last_balancing ops n"
| "last_balancing (_ # ops) n = last_balancing ops n"

lemma solver_cells:
  assumes "algorithm_get p = Some a"
  shows "algorithm_get (fold apply_op ops p) = Some (last_algorithm ops a) \<and>
    rp_balancing (fold apply_op ops p) = last_balancing ops (rp_balancing p)"
  using assms
proof (induction ops arbitrary: p a)
  case (Cons op ops)
  have "algorithm_get (with_constants c p) = algorithm_get p" "rp_balancing (with_constants c p) = rp_balancing p"
    "algorithm_get (balancing_set n p) = algorithm_get p" "rp_balancing (balancing_set n p) = n"
    "algorithm_get (algorithm_set b p) = Some b" "rp_balancing (algorithm_set b p) = rp_balancing p" for c n b
    by (simp_all add: algorithm_get_def with_constants_def balancing_set_def algorithm_set_def split: election_algorithm.split)
  note cells = this
  show ?case
  proof (cases op)
    case (ConstantsRead c)
    show ?thesis using Cons.IH [of "with_constants c p" a] Cons.prems by (simp add: ConstantsRead cells)
  next
    case (BalancingSet n)
    show ?thesis using Cons.IH [of "balancing_set n p" a] Cons.prems by (simp add: BalancingSet cells)
  next
    case (AlgorithmSet b)
    show ?thesis using Cons.IH [of "algorithm_set b p" b] by (simp add: AlgorithmSet cells)
  qed
qed simp

text \<open>C40. The cells always hold an algorithm: whatever is read and set, the solver never
  panics on the stored byte and runs the algorithm set last, \<open>seq-phragmen\<close> at first,
  with the iterations set last, ten at first.\<close>

theorem solver_always_selected:
  "dynamic_solve seq mms (fold apply_op ops initial_params) =
     Some ((case last_algorithm ops SeqPhragmen of SeqPhragmen \<Rightarrow> seq | Phragmms \<Rightarrow> mms)
       (Some \<lparr>bal_iterations = last_balancing ops 10, bal_tolerance = 0\<rparr>))"
proof -
  have "algorithm_get initial_params = Some SeqPhragmen" by (simp add: algorithm_get_def initial_params_def)
  note cells = solver_cells [OF this, of ops]
  have ten: "rp_balancing initial_params = 10" by (simp add: initial_params_def)
  show ?thesis
    unfolding dynamic_solve_def balancing_get_def conjunct1 [OF cells] conjunct2 [OF cells] ten
    by (simp split: election_algorithm.split)
qed

subsection \<open>Instances\<close>

text \<open>Metadata in which every number is the version of the runtime.\<close>

definition test_constants :: "u32 constants_api" where
  "test_constants =
     \<lparr>ca_entry = \<lambda>at i. Inr (ab_spec_version at), ca_u32 = Inr, ca_u16 = \<lambda>v. Inr (ucast v),
      ca_block_length = \<lambda>v. Inr \<lparr>bl_normal = v, bl_operational = 0, bl_mandatory = 0\<rparr>, ca_u32_name = ''u32'', ca_u16_name = ''u16'',
      ca_block_length_name = ''BlockLength'', ca_percent = \<lambda>n x. x\<rparr>"

definition test_version :: "u32 \<Rightarrow> chain_constants" where
  "test_version v =
     \<lparr>cc_pages = v, cc_targets = v, cc_voters = v, cc_max_length = v, cc_max_winners = v, cc_max_backers = v\<rparr>"

definition test_at :: "u32 \<Rightarrow> at_block" where
  "test_at v = \<lparr>ab_hash = 0, ab_number = 1, ab_spec_version = v\<rparr>"

lemma test_constants_version: "read_constants test_constants at = Inr (test_version (ab_spec_version at))"
  by (simp add: read_constants_def fetch_u32_def fetch_constant_def test_constants_def test_version_def
      block_length_total_def)

theorem runtime_upgrades_followed_witness:
  "\<exists>t. runtime_upgrade_task 4 id test_constants next_answer
       \<lparr>world = [Inl (BackendError ''closed''), Inr (test_at 5), Inr (test_at 5), Inr (test_at 6)], trace = [],
        params = with_constants (test_version 5) initial_params, last_spec_version = None\<rparr> = (Ok (), t) \<and>
     rp_pages (params t) = 6 \<and> trace t = [RuntimeUpgraded]"
  using runtime_upgrades_followed [OF test_constants_version, where loaded = 5 and p = initial_params and ev = id and
      rs = "[Inl (BackendError ''closed''), Inr (test_at 5), Inr (test_at 5), Inr (test_at 6)]" and
      s = "\<lparr>world = [Inl (BackendError ''closed''), Inr (test_at 5), Inr (test_at 5), Inr (test_at 6)], trace = [],
        params = with_constants (test_version 5) initial_params, last_spec_version = None\<rparr>"]
  by (auto simp: test_at_def with_constants_def test_version_def numeral_eq_Suc)

end
