(* ===== verification/Monitor.thy ===== *)
theory Monitor
  imports Listener_Recovery Miner_Properties Runtime_Params
begin

text \<open>
  The monitor command as a whole (\<open>monitor_cmd\<close> in
  \<open>src/src/commands/multi_block/monitor.rs\<close>, \<open>Signer::new\<close> in
  \<open>src/src/signer.rs\<close>): it loads the account, starts the listener and the three
  tasks it feeds, and ends with the first of them that does.  The properties are
  about the tasks together.
\<close>

subsection \<open>The signer\<close>

text \<open>
  Reading a file (its bytes are UTF-8, or the message why not) and
  \<open>Pair::from_string\<close>, which gives the account of the key pair.
\<close>

record 'w signer_ops =
  sg_read :: "string \<Rightarrow> 'w \<Rightarrow> (string, string raw_value) outcome \<times> 'w"
  sg_pair :: "string \<Rightarrow> string + account_id"

definition signer_new :: "'w signer_ops \<Rightarrow> string \<Rightarrow> ('w, 'v, 'm, account_id) prog" where
  "signer_new ops seed_or_path =
     (let path = trim seed_or_path in
      io_bind (io_try (io_map_err Io (call (sg_read ops path)))) (\<lambda>r.
      io_bind
        (case r of
           Inr (RawValue s) \<Rightarrow> ret s
         | Inr (RawMalformed e) \<Rightarrow> throw (OtherError e)
         | Inl _ \<Rightarrow> ret path) (\<lambda>seed.
      case sg_pair ops (trim seed) of
        Inl e \<Rightarrow> throw (Crypto e)
      | Inr who \<Rightarrow> ret who)))"

subsection \<open>The command\<close>

record monitor_config = process_config +
  seed_or_path :: string
  balancing_iterations :: nat
  algorithm :: election_algorithm

text \<open>
  What the command works with: the key store, the client for the account, and
  what the four tasks are started with, the account being that of the signer.
\<close>

record ('w, 'c, 'str, 'sol) monitor_env =
  mon_signer :: "('w, 'c) client_world signer_ops"
  mon_api :: "(('w, 'c) client_world, 'sol) chain_api"
  mon_listener :: "('w, 'c, 'str, 'sol) listener_env"
  mon_scores :: score_ops
  mon_miner :: "(('w, 'c) client_world, 'sol) miner_ops"
  mon_pages :: u32
  mon_eras :: "('w, 'c) client_world era_iter"

definition miner_env_of :: "('w, 'c, 'str, 'sol) monitor_env \<Rightarrow> monitor_config \<Rightarrow> account_id \<Rightarrow>
    (('w, 'c) client_world, 'sol) miner_env" where
  "miner_env_of env config who =
     \<lparr>env_api = mon_api env, env_scores = mon_scores env, env_miner = mon_miner env, env_pages = mon_pages env,
      env_account = who, env_config = process_config.truncate config\<rparr>"

text \<open>Everything before the tasks are started.\<close>

definition monitor_setup :: "('w, 'c, 'str, 'sol) monitor_env \<Rightarrow> monitor_config \<Rightarrow>
    (('w, 'c) client_world, 'sol event, 'm, account_id) params_prog" where
  "monitor_setup env config =
     io_seq (set_balancing_iterations (balancing_iterations config))
    (io_seq (set_algorithm (algorithm config))
    (io_bind (signer_new (mon_signer env) (seed_or_path config)) (\<lambda>who.
     io_bind (await (api_at_current_block (mon_api env))) (\<lambda>at.
     io_bind (await (api_account (mon_api env) at who)) (\<lambda>v.
     io_bind (decode_storage_opt v) (\<lambda>account_info.
     case account_info of
       None \<Rightarrow> throw AccountDoesNotExists
     | Some info \<Rightarrow> io_seq (emit (Metric (BalanceSet (free info)))) (ret who)))))))"

text \<open>
  The arm of \<open>select!\<close> for a task: a task that completes or panics is itself the
  failure, an error is passed on.
\<close>

definition task_exit :: "task_failure_error \<Rightarrow> (error, unit) outcome \<Rightarrow> (error, unit) outcome" where
  "task_exit task result =
     (case result of
        Ok _ \<Rightarrow> Err (TaskFailure task)
      | Err e \<Rightarrow> Err e
      | Panic _ \<Rightarrow> Err (TaskFailure task)
      | Pending \<Rightarrow> Pending)"

text \<open>
  Which task ends first, and how, is up to the node and the scheduler
  (\<open>first\<close>, \<open>None\<close> when none ever does).
\<close>

definition monitor_cmd :: "('w, 'c, 'str, 'sol) monitor_env \<Rightarrow> monitor_config \<Rightarrow>
    (account_id \<Rightarrow> (task_failure_error \<times> (error, unit) outcome) option) \<Rightarrow>
    (('w, 'c) client_world, 'sol event, 'm, unit) params_prog" where
  "monitor_cmd env config first =
     io_bind (monitor_setup env config) (\<lambda>who s.
       (case first who of Some (task, result) \<Rightarrow> task_exit task result | None \<Rightarrow> Pending, s))"

lemmas [run_defs] = signer_new_def miner_env_of_def monitor_setup_def task_exit_def monitor_cmd_def store_def
  set_balancing_iterations_def set_algorithm_def

text \<open>
  How a task may end: as a run of it does, from some state and, for the tasks that
  receive, on some messages.  The listener's loop has no end of its own; a run of
  it that is cut off after \<open>n\<close> iterations has not ended.
\<close>

inductive completes :: "('w, 'c, 'str, 'sol) monitor_env \<Rightarrow> monitor_config \<Rightarrow> account_id \<Rightarrow>
    task_failure_error \<Rightarrow> (error, unit) outcome \<Rightarrow> bool"
  for env config who where
  listener_ends: "listener_task (mon_listener env) n (s :: (('w, 'c) client_world, listener_event, 'str) listener_state) =
      (r, t) \<Longrightarrow> r \<noteq> Ok () \<Longrightarrow> completes env config who ListenerTask r"
| miner_ends: "miner_task (miner_env_of env config who) msgs (s :: (('w, 'c) client_world, 'sol) miner_sys) =
      (r, t) \<Longrightarrow> completes env config who MinerTask r"
| clear_ends: "clear_old_rounds_task (mon_api env) who msgs (s :: (('w, 'c) client_world, 'sol event) cleanup_sys) =
      (r, t) \<Longrightarrow> completes env config who ClearOldRoundsTask r"
| era_ends: "lazy_era_pruning_task (mon_api env) (mon_eras env) who msgs (s :: (('w, 'c) client_world, 'sol event) era_sys) =
      (r, t) \<Longrightarrow> completes env config who EraPruningTask r"

subsection \<open>How the command ends\<close>

lemma clear_tick_failure: "clear_old_rounds_tick api who c s = (Err e, t) \<Longrightarrow> is_critical_miner_error e"
  by (auto simp: clear_old_rounds_tick_def io_bind_def io_try_def emit_def throw_def ret_def
      split: prod.splits outcome.splits if_splits)

lemma clear_handle_failure:
  "(case msg of ClearOldRoundsTick c \<Rightarrow> clear_old_rounds_tick api who c) s = (Err e, t) \<Longrightarrow>
     is_critical_miner_error e"
  by (cases msg) (simp add: clear_tick_failure)

lemma clear_task_failure:
  assumes "clear_old_rounds_task api who msgs s = (Err e, t)"
  shows "is_critical_miner_error e"
proof -
  from assms obtain s1 where "clear_old_rounds_loop api who msgs s1 = (Err e, t)"
    by (auto simp: clear_old_rounds_task_def io_bind_def io_modify_def)
  from clear.failure_cause [OF this] show ?thesis
    by (auto simp: is_critical_miner_error_def [of "TaskFailure ClearOldRoundsTask"] dest: clear_handle_failure)
qed

lemma era_task_failure:
  assumes "lazy_era_pruning_task api iter who msgs s = (Err e, t)"
  shows "e = TaskFailure EraPruningTask"
proof -
  from assms obtain s1 where "era_pruning_loop api iter who msgs s1 = (Err e, t)"
    by (auto simp: lazy_era_pruning_task_def io_bind_def io_modify_def)
  from era.failure_cause [OF this] show ?thesis
    by (auto simp: infallible_handle_era [unfolded infallible_def])
qed

text \<open>The first subscription of the listener fails with \<open>e\<close>.\<close>

definition first_subscription_fails :: "('w, 'c, 'str, 'sol) listener_env \<Rightarrow> error \<Rightarrow> bool" where
  "first_subscription_fails env e \<longleftrightarrow>
     (\<exists>(s :: (('w, 'c) client_world, listener_event, 'str) listener_state) t. stream_blocks env s = (Ok (Inl e), t))"

lemma completes_failure:
  assumes "completes env config who task (Err e)"
  shows "is_critical_listener_error e \<or> is_critical_miner_error e \<or> first_subscription_fails (mon_listener env) e"
  using assms
  by cases (auto dest: listener_task_ends_critically miner_task_ends_critically clear_task_failure era_task_failure
      simp: first_subscription_fails_def is_critical_miner_error_def [of "TaskFailure EraPruningTask"])

lemma monitor_cmd_ends:
  assumes "monitor_cmd env config first s = (r, t)"
    and "\<And>who task out. first who = Some (task, out) \<Longrightarrow> completes env config who task out"
  shows "r \<noteq> Ok ()"
    and "r = Err e \<Longrightarrow> fst (monitor_setup env config s) = Err e \<or> is_critical_listener_error e \<or>
      is_critical_miner_error e \<or> first_subscription_fails (mon_listener env) e"
proof -
  obtain r1 s1 where start: "monitor_setup env config s = (r1, s1)" by fastforce
  note run = assms(1) [unfolded monitor_cmd_def io_bind_def start]
  show "r \<noteq> Ok ()"
    using run by (auto simp: task_exit_def split: outcome.splits option.splits)
  assume r: "r = Err e"
  show "fst (monitor_setup env config s) = Err e \<or> is_critical_listener_error e \<or>
      is_critical_miner_error e \<or> first_subscription_fails (mon_listener env) e"
  proof (cases r1)
    case (Ok who)
    with run r obtain task out where out: "first who = Some (task, out)" "task_exit task out = Err e"
      by (auto split: option.splits)
    from out(2) have "e = TaskFailure task \<or> out = Err e" by (auto simp: task_exit_def split: outcome.splits)
    then show ?thesis
      using completes_failure [of env config who task e] assms(2) [OF out(1)]
      by (auto simp: is_critical_miner_error_def)
  qed (use run r start in simp_all)
qed

subsection \<open>From a block to a pruning step\<close>

text \<open>The messages in the channel of the era pruning task.\<close>

fun era_messages :: "listener_event \<Rightarrow> era_pruning_message list" where
  "era_messages (ToEra msg) = [msg]"
| "era_messages _ = []"

fun era_request :: "request \<Rightarrow> era_pruning_message list" where
  "era_request (Era msg) = [msg]"
| "era_request _ = []"

lemma era_messages_asked: "visible era_messages evs = concat (List.map era_request (visible asks evs))"
proof (induction evs)
  case (Cons ev evs)
  then show ?case by (cases ev rule: asks.cases) simp_all
qed simp

lemma era_round_requests [simp]: "concat (List.map era_request (round_requests lr ph rnd)) = []"
  by (auto simp: round_requests_def split: option.splits)

lemma allowance_append:
  "allowance active (ms @ ns) = allowance active ms @ allowance (fold (\<lambda>m a. active_after a m) ms active) ns"
  by (induction ms arbitrary: active) simp_all

text \<open>Whatever the task knew before, a block in the off phase is one step.\<close>

lemma era_allowance:
  assumes "lp = Some Off \<Longrightarrow> active"
  shows "sum_list (allowance active (concat (List.map era_request (requests_for (lr, lp) bs)))) =
    length (filter (\<lambda>(ph, rnd, number). ph = Off) bs)"
  using assms
proof (induction bs arbitrary: lr lp active)
  case (Cons b bs)
  obtain ph rnd number where b: "b = (ph, rnd, number)" by (cases b)
  note ih = Cons.IH [where lr = "Some rnd" and lp = "Some ph"]
  show ?case
  proof (cases ph)
    case Off
    with b ih [of True] Cons.prems show ?thesis
      by (cases "lp = Some Off") (simp_all add: block_requests_def)
  next
    case (OtherPhase x)
    with b ih [of active] show ?thesis by (simp add: block_requests_def)
  qed (use b ih [of active] ih [of False] in \<open>auto simp: block_requests_def\<close>)
qed simp

lemma asked_for_task:
  assumes "open_channels (le_channels env)"
    and "\<And>at. block_at (le_api env) (hd_hash at) (fst (st at)) (snd (st at))"
    and run: "listener_task env n s = (r, t)"
  shows "\<exists>evs. trace t = trace s @ evs \<and> visible asks evs = requests_for (None, None)
    (List.map (\<lambda>at. (fst (st at), snd (st at), ucast (hd_number at))) (visible got evs))"
proof -
  obtain x u where one: "stream_blocks env s = (x, u)" by fastforce
  obtain evs0 where "trace u = trace s @ evs0" "list_all (\<lambda>_. False) evs0"
    by (rule safeD [OF emits_stream_blocks [where A = "\<lambda>_. False"] one]) (simp_all add: run_within)
  then have u: "trace u = trace s" by (cases evs0) simp_all
  show ?thesis
  proof (cases "\<exists>sub. x = Ok (Inr sub)")
    case True
    then obtain sub where "x = Ok (Inr sub)" ..
    let ?u = "u\<lparr>held_guards := held_guards u - 1, subscription := sub, prev_round := None, prev_phase := None,
      subscription_recreation_attempts := 0\<rparr>"
    have "listener_loop env n ?u = (r, t)"
      using run one \<open>x = Ok (Inr sub)\<close>
      by (simp add: listener_task_def io_bind_def drop_guard_def io_modify_def ret_def)
    from asked_for_loop [where st = st, OF assms(1,2) this] u show ?thesis by (auto simp: asked_for_def Let_def)
  next
    case False
    have "trace t = trace u"
    proof (cases x)
      case (Ok y)
      with False run one show ?thesis
        by (cases y) (auto simp: listener_task_def io_bind_def drop_guard_def io_modify_def throw_def)
    qed (use run one in \<open>auto simp: listener_task_def io_bind_def\<close>)
    with u show ?thesis by simp
  qed
qed



end
