(* ===== verification/Prediction_Report.thy ===== *)
theory Prediction_Report
  imports Election_Snapshots Submission Decimal
begin

text \<open>
  The report of a prediction (\<open>build_predictions_from_solution\<close> of
  \<open>src/src/dynamic/election_data.rs\<close>): the elected validators with their backing,
  and for each nominator which of its targets are active, inactive or waiting.  The
  feasibility check of the election miner, the SS58 encoding and the clock are
  parameters.
\<close>

subsection \<open>Output\<close>

record prediction_metadata =
  pm_timestamp :: string
  pm_desired_validators :: u32
  pm_round :: u32
  pm_block_number :: u32
  pm_solution_score :: "election_score option"
  pm_data_source :: string

record nominator_allocation =
  na_address :: string
  na_allocated_stake :: string

record validator_info =
  vi_account :: string
  vi_total_stake :: string
  vi_self_stake :: string
  vi_nominator_count :: nat
  vi_nominators :: "nominator_allocation list"

record validators_prediction =
  vp_metadata :: prediction_metadata
  vp_results :: "validator_info list"

record validator_stake_allocation =
  va_validator :: string
  va_allocated_stake :: string

record nominator_prediction =
  np_address :: string
  np_stake :: string
  np_active_validators :: "validator_stake_allocation list"
  np_inactive_validators :: "string list"
  np_waiting_validators :: "string list"

record nominators_prediction =
  np_nominators :: "nominator_prediction list"

record prediction_context =
  pc_round :: u32
  pc_desired_targets :: u32
  pc_block_number :: u32
  pc_ss58_prefix :: u16
  pc_token_decimals :: u8
  pc_token_symbol :: string
  pc_data_source :: election_data_source

subsection \<open>Supports\<close>

text \<open>\<open>Support\<close>: the total backing of a winner and its backers with their shares.\<close>

record support =
  sup_total :: u128
  sup_voters :: "(account_id \<times> u128) list"

text \<open>\<open>to_ss58check_with_version\<close>, and the feasibility check with the debug form of
  its error.\<close>

record 'sol report_ops =
  ro_ss58 :: "u16 \<Rightarrow> account_id \<Rightarrow> string"
  ro_check_feasibility :: "'sol paged_raw_solution \<Rightarrow> voter_page list \<Rightarrow> target_page \<Rightarrow> u32 \<Rightarrow>
     string + (account_id \<times> support) list list"

definition encode_account_id :: "'sol report_ops \<Rightarrow> account_id \<Rightarrow> u16 \<Rightarrow> string" where
  "encode_account_id ops account ss58_prefix = ro_ss58 ops ss58_prefix account"

text \<open>The map of winners, a \<open>BTreeMap\<close>; totals saturate.\<close>

definition add_support ::
  "account_id \<times> support \<Rightarrow> (account_id \<times> support) list \<Rightarrow> (account_id \<times> support) list" where
  "add_support ws m =
     (case ws of (winner, support) \<Rightarrow>
        let entry = (case map_of m winner of Some e \<Rightarrow> e | None \<Rightarrow> \<lparr>sup_total = 0, sup_voters = []\<rparr>) in
        bt_insert winner \<lparr>sup_total = saturating_add (sup_total entry) (sup_total support),
                          sup_voters = sup_voters entry @ sup_voters support\<rparr> m)"

definition winner_support_map :: "(account_id \<times> support) list list \<Rightarrow> (account_id \<times> support) list" where
  "winner_support_map page_supports = fold (fold add_support) page_supports []"

text \<open>The shares of every nominator, by validator.\<close>

type_synonym allocations = "(account_id \<times> (account_id \<times> u128) list) list"

definition allocate :: "account_id \<Rightarrow> account_id \<times> u128 \<Rightarrow> allocations \<Rightarrow> allocations" where
  "allocate validator vs m =
     (case vs of (voter, stake) \<Rightarrow>
        let inner = (case map_of m voter of Some i \<Rightarrow> i | None \<Rightarrow> []) in
        put_entry voter
          (put_entry validator
             (case map_of inner validator of Some existing \<Rightarrow> saturating_add existing stake | None \<Rightarrow> stake) inner) m)"

definition allocation_map :: "(account_id \<times> support) list \<Rightarrow> allocations" where
  "allocation_map winners =
     fold (\<lambda>(validator, support). fold (allocate validator) (sup_voters support)) winners []"

text \<open>The stable \<open>sort_by_key\<close> with a reversed key.\<close>

definition sort_descending :: "('a \<Rightarrow> 'k::linorder) \<Rightarrow> 'a list \<Rightarrow> 'a list" where
  "sort_descending key xs = rev (sort_key key (rev xs))"

definition winners_sorted :: "prediction_context \<Rightarrow> (account_id \<times> support) list \<Rightarrow> (account_id \<times> support) list" where
  "winners_sorted ctx m =
     (let ws = sort_descending (\<lambda>w. sup_total (snd w)) m in
      if length ws > unat (pc_desired_targets ctx) then take (unat (pc_desired_targets ctx)) ws else ws)"

subsection \<open>Reports\<close>

definition token :: "prediction_context \<Rightarrow> u128 \<Rightarrow> string option" where
  "token ctx planck = planck_to_token planck (pc_token_decimals ctx) (pc_token_symbol ctx)"

definition nominator_allocation_of ::
  "'sol report_ops \<Rightarrow> prediction_context \<Rightarrow> account_id \<times> u128 \<Rightarrow> nominator_allocation option" where
  "nominator_allocation_of ops ctx ns =
     (case ns of (nominator, stake) \<Rightarrow>
        map_option (\<lambda>allocated.
          \<lparr>na_address = encode_account_id ops nominator (pc_ss58_prefix ctx), na_allocated_stake = allocated\<rparr>)
          (token ctx stake))"

definition validator_info_of ::
  "'sol report_ops \<Rightarrow> prediction_context \<Rightarrow> account_id \<times> support \<Rightarrow> validator_info option" where
  "validator_info_of ops ctx ws =
     (case ws of (validator, support) \<Rightarrow>
        let self_stake = (case map_of (sup_voters support) validator of Some stake \<Rightarrow> stake | None \<Rightarrow> 0);
            validator_nominators = sort_descending snd (filter (\<lambda>(who, _). who \<noteq> validator) (sup_voters support)) in
        Option.bind (those (List.map (nominator_allocation_of ops ctx) validator_nominators)) (\<lambda>nominator_allocations.
        Option.bind (token ctx (sup_total support)) (\<lambda>total_stake.
        Option.bind (token ctx self_stake) (\<lambda>self_stake.
        Some \<lparr>vi_account = encode_account_id ops validator (pc_ss58_prefix ctx), vi_total_stake = total_stake,
              vi_self_stake = self_stake, vi_nominator_count = length validator_nominators,
              vi_nominators = nominator_allocations\<rparr>))))"

text \<open>Voters the nominators' report leaves out.\<close>

definition only_self_vote :: "account_id list \<Rightarrow> voter \<Rightarrow> bool" where
  "only_self_vote active_set v =
     (case v of (nominator, _, targets) \<Rightarrow>
        nominator \<in> set active_set \<or> (length targets = 1 \<and> targets ! 0 = nominator))"

definition allocated_to :: "allocations \<Rightarrow> account_id \<Rightarrow> account_id \<Rightarrow> u128" where
  "allocated_to m nominator target =
     (case Option.bind (map_of m nominator) (\<lambda>i. map_of i target) of Some a \<Rightarrow> a | None \<Rightarrow> 0)"

text \<open>The targets of a nominator, one after the other: active, inactive, waiting.\<close>

primrec sort_targets ::
  "'sol report_ops \<Rightarrow> prediction_context \<Rightarrow> account_id list \<Rightarrow> (account_id \<Rightarrow> u128) \<Rightarrow> account_id list \<Rightarrow>
     validator_stake_allocation list \<times> string list \<times> string list \<Rightarrow>
     (validator_stake_allocation list \<times> string list \<times> string list) option" where
  "sort_targets ops ctx active_set allocations [] acc = Some acc"
| "sort_targets ops ctx active_set allocations (target # targets) acc =
     (case acc of (active_supported, inactive, waiting) \<Rightarrow>
        let encoded = encode_account_id ops target (pc_ss58_prefix ctx);
            is_winner = target \<in> set active_set; allocated = allocations target in
        if is_winner \<and> 0 < allocated then
          Option.bind (token ctx allocated) (\<lambda>allocated_stake.
          sort_targets ops ctx active_set allocations targets
            (active_supported @ [\<lparr>va_validator = encoded, va_allocated_stake = allocated_stake\<rparr>], inactive, waiting))
        else if is_winner then
          sort_targets ops ctx active_set allocations targets (active_supported, inactive @ [encoded], waiting)
        else sort_targets ops ctx active_set allocations targets (active_supported, inactive, waiting @ [encoded]))"

definition nominator_prediction_of ::
  "'sol report_ops \<Rightarrow> prediction_context \<Rightarrow> account_id list \<Rightarrow> allocations \<Rightarrow> voter \<Rightarrow> nominator_prediction option" where
  "nominator_prediction_of ops ctx active_set m v =
     (case v of (nominator, stake, nominated_targets) \<Rightarrow>
        Option.bind (sort_targets ops ctx active_set (allocated_to m nominator) nominated_targets ([], [], []))
          (\<lambda>(active_supported, inactive, waiting).
        Option.bind (planck_to_token_u64 stake (pc_token_decimals ctx) (pc_token_symbol ctx)) (\<lambda>stake_str.
        Some \<lparr>np_address = encode_account_id ops nominator (pc_ss58_prefix ctx), np_stake = stake_str,
              np_active_validators = active_supported, np_inactive_validators = inactive,
              np_waiting_validators = waiting\<rparr>)))"

text \<open>\<open>now\<close> is the time since the epoch, if the clock is not before it.\<close>

definition metadata_of ::
  "u64 option \<Rightarrow> 'sol paged_raw_solution \<Rightarrow> prediction_context \<Rightarrow> prediction_metadata" where
  "metadata_of now solution ctx =
     \<lparr>pm_timestamp = (case now of Some secs \<Rightarrow> show_nat (unat secs) | None \<Rightarrow> ''0''),
      pm_desired_validators = pc_desired_targets ctx, pm_round = pc_round ctx,
      pm_block_number = pc_block_number ctx, pm_solution_score = Some (score solution),
      pm_data_source = (case pc_data_source ctx of SnapshotSource \<Rightarrow> ''snapshot'' | StakingSource \<Rightarrow> ''staking'')\<rparr>"

text \<open>A division by zero in printing a balance is a panic.\<close>

definition build_predictions_from_solution ::
  "'sol report_ops \<Rightarrow> u32 \<Rightarrow> u64 option \<Rightarrow> 'sol paged_raw_solution \<Rightarrow> target_page \<Rightarrow> voter_page list \<Rightarrow>
     prediction_context \<Rightarrow> (error, validators_prediction \<times> nominators_prediction) outcome" where
  "build_predictions_from_solution ops chain_pages now solution targets voter_snapshot ctx =
     (case ro_check_feasibility ops solution (truncate_from chain_pages voter_snapshot) targets (pc_desired_targets ctx) of
        Inl err \<Rightarrow> Err (OtherError (''Failed to evaluate solution supports: '' @ err))
      | Inr page_supports \<Rightarrow>
          let m = winner_support_map page_supports;
              ws = winners_sorted ctx m;
              active_set = List.map fst ws;
              all_voters = concat voter_snapshot;
              skipped = List.map fst (filter (only_self_vote active_set) all_voters) in
          (case Option.bind (those (List.map (validator_info_of ops ctx) ws)) (\<lambda>validator_infos.
                Option.bind (those (List.map (nominator_prediction_of ops ctx active_set (allocation_map m))
                  (filter (\<lambda>v. fst v \<notin> set skipped) all_voters))) (\<lambda>nominator_predictions.
                Some (\<lparr>vp_metadata = metadata_of now solution ctx, vp_results = validator_infos\<rparr>,
                      \<lparr>np_nominators = nominator_predictions\<rparr>))) of
             Some r \<Rightarrow> Ok r
           | None \<Rightarrow> Panic ''attempt to divide by zero''))"

subsection \<open>Backing and shares\<close>

text \<open>What all pages together say of an account: the entries for it, in order.\<close>

definition entries_for :: "(account_id \<times> support) list \<Rightarrow> account_id \<Rightarrow> support list" where
  "entries_for ss w = List.map snd (filter (\<lambda>e. fst e = w) ss)"

definition saturating_sum :: "u128 list \<Rightarrow> u128" where
  "saturating_sum xs = fold (\<lambda>x t. saturating_add t x) xs 0"

definition backing :: "(account_id \<times> support) list \<Rightarrow> account_id \<Rightarrow> u128" where
  "backing ss w = saturating_sum (List.map sup_total (entries_for ss w))"

definition backers :: "(account_id \<times> support) list \<Rightarrow> account_id \<Rightarrow> (account_id \<times> u128) list" where
  "backers ss w = concat (List.map sup_voters (entries_for ss w))"

definition share :: "(account_id \<times> support) list \<Rightarrow> account_id \<Rightarrow> account_id \<Rightarrow> u128" where
  "share ss nominator w = saturating_sum (List.map snd (filter (\<lambda>e. fst e = nominator) (backers ss w)))"

lemma unat_saturating_sum: "unat (saturating_sum xs) = min (sum_list (List.map unat xs)) (2 ^ 128 - 1)"
proof (induction xs rule: rev_induct)
  case (snoc x xs)
  have "saturating_sum (xs @ [x]) = saturating_add (saturating_sum xs) x" by (simp add: saturating_sum_def)
  with snoc show ?case by (simp add: unat_saturating_add)
qed (simp add: saturating_sum_def)

lemma winner_support_map_flat: "winner_support_map ps = fold add_support (concat ps) []"
proof -
  have "fold (fold add_support) ps m = fold add_support (concat ps) m" for m
    by (induction ps arbitrary: m) simp_all
  then show ?thesis by (simp add: winner_support_map_def)
qed

lemma add_support_ok:
  "bt_ok m \<Longrightarrow> bt_ok (add_support e m)" "fst ` set (add_support e m) = insert (fst e) (fst ` set m)"
  by (cases e; simp add: add_support_def Let_def)+

lemma winner_support_map_ok:
  "bt_ok (fold add_support ss [])" "fst ` set (fold add_support ss []) = fst ` set ss"
proof (induction ss rule: rev_induct)
  case Nil
  show "bt_ok (fold add_support [] [])" by (simp add: bt_ok_def)
next
  case (snoc e ss)
  case 1
  from snoc show ?case by (simp add: add_support_ok)
  case 2
  from snoc show ?case by (simp add: add_support_ok)
qed simp

lemma entries_for_none: "w \<notin> fst ` set ss \<Longrightarrow> entries_for ss w = []"
  by (auto simp: entries_for_def filter_empty_conv)

lemma add_support_lookup:
  "map_of (add_support (x, sp) m) = (map_of m)(x \<mapsto>
     case map_of m x of
       None \<Rightarrow> \<lparr>sup_total = saturating_add 0 (sup_total sp), sup_voters = sup_voters sp\<rparr>
     | Some e \<Rightarrow> \<lparr>sup_total = saturating_add (sup_total e) (sup_total sp), sup_voters = sup_voters e @ sup_voters sp\<rparr>)"
  by (auto simp: add_support_def Let_def fun_eq_iff split: option.split)

lemma winner_support_map_lookup:
  "map_of (fold add_support ss []) w =
    (if w \<in> fst ` set ss then Some \<lparr>sup_total = backing ss w, sup_voters = backers ss w\<rparr> else None)"
proof (induction ss arbitrary: w rule: rev_induct)
  case (snoc e ss)
  obtain x sp where e: "e = (x, sp)" by fastforce
  have entries: "entries_for (ss @ [e]) w = entries_for ss w @ (if w = x then [sp] else [])" for w
    by (simp add: entries_for_def e)
  note none = entries_for_none [of x ss]
  show ?case
    unfolding fold_append comp_apply fold.simps id_apply e add_support_lookup snoc
    using none entries [unfolded e]
    by (auto simp: backing_def backers_def saturating_sum_def)
qed simp

lemma sort_descending_mset [simp]: "mset (sort_descending key xs) = mset xs"
  by (simp add: sort_descending_def)

lemma sort_descending_sorted: "sorted_wrt (\<lambda>a b. key b \<le> key a) (sort_descending key xs)"
proof -
  have "sorted_wrt (\<lambda>a b. key a \<le> key b) (sort_key key (rev xs))"
    using sorted_sort_key [of key "rev xs"] by (simp add: sorted_map)
  then show ?thesis by (simp add: sort_descending_def sorted_wrt_rev)
qed

lemma allocated_to_allocate:
  "allocated_to (allocate v (n, x) m) n' t =
    (if n' = n \<and> t = v then saturating_add (allocated_to m n t) x else allocated_to m n' t)"
  by (auto simp: allocated_to_def allocate_def Let_def split: option.split)

lemma allocated_to_backers:
  "allocated_to (fold (allocate v) vs m) n t =
    (if t = v then fold (\<lambda>x a. saturating_add a x) (List.map snd (filter (\<lambda>e. fst e = n) vs)) (allocated_to m n t)
     else allocated_to m n t)"
proof (induction vs arbitrary: m)
  case (Cons e vs)
  then show ?case by (cases e) (auto simp: allocated_to_allocate)
qed simp

lemma allocated_to_winners:
  assumes "distinct (keys ws)"
  shows "allocated_to (fold (\<lambda>(v, sp). fold (allocate v) (sup_voters sp)) ws m) n t =
    (case map_of ws t of
       None \<Rightarrow> allocated_to m n t
     | Some sp \<Rightarrow> fold (\<lambda>x a. saturating_add a x) (List.map snd (filter (\<lambda>e. fst e = n) (sup_voters sp)))
         (allocated_to m n t))"
  using assms
proof (induction ws arbitrary: m)
  case (Cons w ws)
  have "map_of ws (fst w) = None" using Cons.prems by (simp add: map_of_eq_None_iff)
  with Cons show ?case
    by (cases w) (auto simp: allocated_to_backers split: option.split)
qed simp

lemma allocated_to_share: "allocated_to (allocation_map (winner_support_map ps)) n t = share (concat ps) n t"
proof -
  let ?ss = "concat ps"
  have "distinct (keys (fold add_support ?ss []))"
    using winner_support_map_ok(1) btree.ok_distinct by blast
  from allocated_to_winners [OF this, of "[]" n t] show ?thesis
    using entries_for_none [of t ?ss]
    by (auto simp: allocation_map_def winner_support_map_flat winner_support_map_lookup share_def saturating_sum_def
        backers_def allocated_to_def [of "[]"] simp del: set_concat)
qed

lemma sort_targets_result:
  assumes "sort_targets ops ctx active a targets (act, ina, wai) = Some (act', ina', wai')"
  shows "List.map va_validator act' = List.map va_validator act @
      List.map (\<lambda>t. encode_account_id ops t (pc_ss58_prefix ctx)) (filter (\<lambda>t. t \<in> set active \<and> 0 < a t) targets) \<and>
    List.map (\<lambda>v. Some (va_allocated_stake v)) act' = List.map (\<lambda>v. Some (va_allocated_stake v)) act @
      List.map (\<lambda>t. token ctx (a t)) (filter (\<lambda>t. t \<in> set active \<and> 0 < a t) targets) \<and>
    ina' = ina @ List.map (\<lambda>t. encode_account_id ops t (pc_ss58_prefix ctx)) (filter (\<lambda>t. t \<in> set active \<and> a t = 0) targets) \<and>
    wai' = wai @ List.map (\<lambda>t. encode_account_id ops t (pc_ss58_prefix ctx)) (filter (\<lambda>t. t \<notin> set active) targets)"
  using assms
proof (induction targets arbitrary: act ina wai)
  case (Cons t targets)
  consider "t \<in> set active" "0 < a t" | "t \<in> set active" "a t = 0" | "t \<notin> set active"
    by (cases "t \<in> set active"; cases "a t = 0") (simp_all add: word_gt_0)
  then show ?case
  proof cases
    case 1
    with Cons.prems obtain str where str: "token ctx (a t) = Some str"
      by (cases "token ctx (a t)") (simp_all add: Let_def)
    with 1 Cons.prems have "sort_targets ops ctx active a targets
        (act @ [\<lparr>va_validator = encode_account_id ops t (pc_ss58_prefix ctx), va_allocated_stake = str\<rparr>], ina, wai) =
        Some (act', ina', wai')"
      by (simp add: Let_def)
    from Cons.IH [OF this] 1 str show ?thesis by simp
  next
    case 2
    with Cons.prems have "sort_targets ops ctx active a targets
        (act, ina @ [encode_account_id ops t (pc_ss58_prefix ctx)], wai) = Some (act', ina', wai')"
      by (simp add: Let_def)
    from Cons.IH [OF this] 2 show ?thesis by simp
  next
    case 3
    with Cons.prems have "sort_targets ops ctx active a targets
        (act, ina, wai @ [encode_account_id ops t (pc_ss58_prefix ctx)]) = Some (act', ina', wai')"
      by (simp add: Let_def)
    from Cons.IH [OF this] 3 show ?thesis by simp
  qed
qed simp

lemma those_Some: "those xs = Some ys \<Longrightarrow> xs = List.map Some ys"
proof (induction xs arbitrary: ys)
  case (Cons x xs)
  then show ?case by (cases x) auto
qed simp

subsection \<open>The elected\<close>

definition elected :: "prediction_context \<Rightarrow> (account_id \<times> support) list list \<Rightarrow> account_id list" where
  "elected ctx ps = List.map fst (winners_sorted ctx (winner_support_map ps))"

lemma winners_sorted_take:
  "winners_sorted ctx m = take (unat (pc_desired_targets ctx)) (sort_descending (\<lambda>w. sup_total (snd w)) m)"
  by (simp add: winners_sorted_def Let_def)

lemma winner_entry:
  assumes "w \<in> set (winner_support_map ps)"
  shows "sup_total (snd w) = backing (concat ps) (fst w)" "sup_voters (snd w) = backers (concat ps) (fst w)"
proof -
  have "distinct (keys (fold add_support (concat ps) []))"
    using winner_support_map_ok(1) btree.ok_distinct by blast
  with assms have "map_of (fold add_support (concat ps) []) (fst w) = Some (snd w)"
    by (simp add: winner_support_map_flat map_of_eq_Some_iff)
  then have "snd w = \<lparr>sup_total = backing (concat ps) (fst w), sup_voters = backers (concat ps) (fst w)\<rparr>"
    unfolding winner_support_map_lookup by (metis option.distinct(1) option.inject)
  then show "sup_total (snd w) = backing (concat ps) (fst w)" "sup_voters (snd w) = backers (concat ps) (fst w)"
    by simp_all
qed

lemma elected_strongest:
  defines "accounts ps \<equiv> fst ` set (concat ps)"
  shows "distinct (elected ctx ps)" "set (elected ctx ps) \<subseteq> accounts ps"
    "length (elected ctx ps) = min (unat (pc_desired_targets ctx)) (card (accounts ps))"
    "sorted_wrt (\<lambda>u v. backing (concat ps) v \<le> backing (concat ps) u)
       (elected ctx ps @ List.map fst (drop (unat (pc_desired_targets ctx))
         (sort_descending (\<lambda>w. sup_total (snd w)) (winner_support_map ps))))"
    "accounts ps = set (elected ctx ps) \<union> fst ` set (drop (unat (pc_desired_targets ctx))
       (sort_descending (\<lambda>w. sup_total (snd w)) (winner_support_map ps)))"
proof -
  let ?M = "winner_support_map ps" and ?n = "unat (pc_desired_targets ctx)"
  let ?S = "sort_descending (\<lambda>w. sup_total (snd w)) ?M"
  have M: "distinct (keys ?M)"
    unfolding winner_support_map_flat by (rule btree.ok_distinct [OF winner_support_map_ok(1)])
  have accounts: "set (keys ?M) = accounts ps"
    unfolding winner_support_map_flat accounts_def list.set_map by (rule winner_support_map_ok(2))
  have mset: "mset (keys ?S) = mset (keys ?M)" by simp
  have S: "distinct (keys ?S)" "set (keys ?S) = accounts ps" "set ?S = set ?M"
    using M mset_eq_imp_distinct_iff [OF mset] apply blast
    using accounts mset_eq_setD [OF mset] apply (simp only:)
    by (rule mset_eq_setD [OF sort_descending_mset])
  have E: "elected ctx ps = take ?n (keys ?S)" by (simp add: elected_def winners_sorted_take take_map)
  have all: "elected ctx ps @ keys (drop ?n ?S) = keys ?S"
    unfolding E drop_map [symmetric] by (rule append_take_drop_id)
  show "distinct (elected ctx ps)" "set (elected ctx ps) \<subseteq> accounts ps"
    unfolding E using S(1,2) set_take_subset [of ?n "keys ?S"] by (simp_all only: distinct_take)
  show "length (elected ctx ps) = min ?n (card (accounts ps))"
    using distinct_card [OF S(1)] unfolding E S(2) length_take by (simp only: min.commute)
  show "accounts ps = set (elected ctx ps) \<union> fst ` set (drop ?n ?S)"
    unfolding list.set_map [symmetric] set_append [symmetric] all S(2) by (rule refl)
  have "sorted_wrt (\<lambda>u v. backing (concat ps) (fst v) \<le> backing (concat ps) (fst u)) ?S"
    by (rule sorted_wrt_mono_rel [OF _ sort_descending_sorted]) (simp add: S(3) winner_entry)
  then show "sorted_wrt (\<lambda>u v. backing (concat ps) v \<le> backing (concat ps) u) (elected ctx ps @ keys (drop ?n ?S))"
    by (simp add: all sorted_wrt_map)
qed

lemma build_predictions_Ok:
  assumes "build_predictions_from_solution ops chain_pages now solution targets voter_snapshot ctx = Ok (vp, np)"
    and "ro_check_feasibility ops solution (truncate_from chain_pages voter_snapshot) targets (pc_desired_targets ctx) = Inr ps"
  shows "List.map (validator_info_of ops ctx) (winners_sorted ctx (winner_support_map ps)) = List.map Some (vp_results vp)"
    "List.map (nominator_prediction_of ops ctx (elected ctx ps) (allocation_map (winner_support_map ps)))
       (filter (\<lambda>v. fst v \<notin> fst ` {u \<in> set (concat voter_snapshot). only_self_vote (elected ctx ps) u}) (concat voter_snapshot)) =
     List.map Some (np_nominators np)"
proof -
  from assms obtain vs ns where
    "those (List.map (validator_info_of ops ctx) (winners_sorted ctx (winner_support_map ps))) = Some vs"
    "those (List.map (nominator_prediction_of ops ctx (elected ctx ps) (allocation_map (winner_support_map ps)))
       (filter (\<lambda>v. fst v \<notin> set (List.map fst (filter (only_self_vote (elected ctx ps)) (concat voter_snapshot))))
         (concat voter_snapshot))) = Some ns"
    "vp_results vp = vs" "np_nominators np = ns"
    unfolding build_predictions_from_solution_def elected_def
    by (auto simp: Let_def bind_eq_Some_conv split: option.splits simp del: set_map set_filter filter_concat)
  note parts = this
  show "List.map (validator_info_of ops ctx) (winners_sorted ctx (winner_support_map ps)) = List.map Some (vp_results vp)"
    using those_Some [OF parts(1)] parts(3) by simp
  show "List.map (nominator_prediction_of ops ctx (elected ctx ps) (allocation_map (winner_support_map ps)))
       (filter (\<lambda>v. fst v \<notin> fst ` {u \<in> set (concat voter_snapshot). only_self_vote (elected ctx ps) u}) (concat voter_snapshot)) =
     List.map Some (np_nominators np)"
    using those_Some [OF parts(2)] parts(4) by (simp only: set_map set_filter)
qed

lemma validator_info_Some:
  assumes "validator_info_of ops ctx (w, sp) = Some i"
  shows "vi_account i = encode_account_id ops w (pc_ss58_prefix ctx)" "token ctx (sup_total sp) = Some (vi_total_stake i)"
    "vi_nominator_count i = length (filter (\<lambda>b. fst b \<noteq> w) (sup_voters sp))"
  using assms
  by (auto simp: validator_info_of_def Let_def bind_eq_Some_conv sort_descending_def case_prod_unfold)


subsection \<open>The nominators\<close>

text \<open>What the report says of a nominator, given its share in each validator.\<close>

definition reported_as ::
  "'sol report_ops \<Rightarrow> prediction_context \<Rightarrow> account_id list \<Rightarrow> (account_id \<Rightarrow> u128) \<Rightarrow> voter \<Rightarrow> nominator_prediction \<Rightarrow> bool" where
  "reported_as ops ctx ws a v p \<longleftrightarrow>
     (let enc = (\<lambda>t. encode_account_id ops t (pc_ss58_prefix ctx)); targets = snd (snd v) in
      np_address p = enc (fst v) \<and>
      planck_to_token_u64 (fst (snd v)) (pc_token_decimals ctx) (pc_token_symbol ctx) = Some (np_stake p) \<and>
      List.map va_validator (np_active_validators p) = List.map enc (filter (\<lambda>t. t \<in> set ws \<and> 0 < a t) targets) \<and>
      List.map (\<lambda>x. Some (va_allocated_stake x)) (np_active_validators p) =
        List.map (\<lambda>t. token ctx (a t)) (filter (\<lambda>t. t \<in> set ws \<and> 0 < a t) targets) \<and>
      np_inactive_validators p = List.map enc (filter (\<lambda>t. t \<in> set ws \<and> a t = 0) targets) \<and>
      np_waiting_validators p = List.map enc (filter (\<lambda>t. t \<notin> set ws) targets))"

lemma nominator_prediction_Some:
  assumes "nominator_prediction_of ops ctx ws m v = Some p"
  shows "reported_as ops ctx ws (allocated_to m (fst v)) v p"
proof -
  obtain n stake targets where v: "v = (n, stake, targets)" by (cases v) auto
  with assms obtain act ina wai str where
    r: "sort_targets ops ctx ws (allocated_to m n) targets ([], [], []) = Some (act, ina, wai)"
    and s: "planck_to_token_u64 stake (pc_token_decimals ctx) (pc_token_symbol ctx) = Some str"
    and p: "p = \<lparr>np_address = encode_account_id ops n (pc_ss58_prefix ctx), np_stake = str,
      np_active_validators = act, np_inactive_validators = ina, np_waiting_validators = wai\<rparr>"
    by (auto simp: nominator_prediction_of_def bind_eq_Some_conv)
  from sort_targets_result [OF r] s show ?thesis by (simp add: reported_as_def v p Let_def)
qed

lemma only_self_vote_iff: "only_self_vote ws (n, stake, ts) \<longleftrightarrow> n \<in> set ws \<or> ts = [n]"
  by (cases ts) (auto simp: only_self_vote_def)

lemma left_out_iff:
  assumes "v \<in> set voters"
  shows "fst v \<in> fst ` {u \<in> set voters. only_self_vote ws u} \<longleftrightarrow>
    fst v \<in> set ws \<or> (\<exists>stake. (fst v, stake, [fst v]) \<in> set voters)"
proof
  assume "fst v \<in> fst ` {u \<in> set voters. only_self_vote ws u}"
  then obtain stake ts where "(fst v, stake, ts) \<in> set voters" "only_self_vote ws (fst v, stake, ts)" by auto
  then show "fst v \<in> set ws \<or> (\<exists>stake. (fst v, stake, [fst v]) \<in> set voters)"
    by (auto simp: only_self_vote_iff)
next
  assume "fst v \<in> set ws \<or> (\<exists>stake. (fst v, stake, [fst v]) \<in> set voters)"
  then obtain u where "u \<in> set voters" "fst u = fst v" "only_self_vote ws u"
  proof
    assume "fst v \<in> set ws"
    with that [OF assms] show thesis by (cases v) (simp add: only_self_vote_iff)
  qed (use that in \<open>auto simp: only_self_vote_iff\<close>)
  then show "fst v \<in> fst ` {u \<in> set voters. only_self_vote ws u}" by (metis (mono_tags, lifting) imageI mem_Collect_eq)
qed

text \<open>C23. The nominators' report has, in the order of the snapshot, every voter that is
  neither elected nor voting for itself only, and splits its targets into the elected it
  backs, with its share over all pages, the elected it does not back, and the rest.\<close>

theorem predicted_nominators_split:
  fixes ctx :: prediction_context
  assumes "build_predictions_from_solution ops chain_pages now solution targets voter_snapshot ctx = Ok (vp, np)"
    and "ro_check_feasibility ops solution (truncate_from chain_pages voter_snapshot) targets (pc_desired_targets ctx) = Inr ps"
  defines "ws \<equiv> elected ctx ps" and "voters \<equiv> concat voter_snapshot"
  shows "list_all2 (\<lambda>v. reported_as ops ctx ws (share (concat ps) (fst v)) v)
    (filter (\<lambda>v. fst v \<notin> set ws \<and> (\<forall>stake. (fst v, stake, [fst v]) \<notin> set voters)) voters) (np_nominators np)"
proof -
  let ?kept = "filter (\<lambda>v. fst v \<notin> fst ` {u \<in> set voters. only_self_vote ws u}) voters"
  have kept: "?kept = filter (\<lambda>v. fst v \<notin> set ws \<and> (\<forall>stake. (fst v, stake, [fst v]) \<notin> set voters)) voters"
    by (rule filter_cong [OF refl]) (simp add: left_out_iff)
  note reports = build_predictions_Ok(2) [OF assms(1,2), folded ws_def voters_def]
  have "list_all2 (\<lambda>v. reported_as ops ctx ws (share (concat ps) (fst v)) v) ?kept (np_nominators np)"
  proof (rule list_all2_all_nthI)
    show len: "length ?kept = length (np_nominators np)"
      using arg_cong [OF reports, of length] by simp
    fix n
    assume n: "n < length ?kept"
    from arg_cong [OF reports, of "\<lambda>xs. xs ! n"] n len
    have "nominator_prediction_of ops ctx ws (allocation_map (winner_support_map ps)) (?kept ! n) = Some (np_nominators np ! n)"
      by simp
    from nominator_prediction_Some [OF this]
    show "reported_as ops ctx ws (share (concat ps) (fst (?kept ! n))) (?kept ! n) (np_nominators np ! n)"
      by (simp add: allocated_to_share [abs_def])
  qed
  then show ?thesis unfolding kept .
qed

subsection \<open>Instances\<close>

text \<open>One seat, two pages: account 3 is backed with 5 and 1, account 4 with 4.\<close>

definition numbered_account :: "nat \<Rightarrow> account_id" where
  "numbered_account n = AccountId [word_of_nat n]"

definition test_supports :: "(account_id \<times> support) list list" where
  "test_supports =
     [[(numbered_account 3, \<lparr>sup_total = 5, sup_voters = [(numbered_account 3, 2), (numbered_account 9, 3)]\<rparr>),
       (numbered_account 4, \<lparr>sup_total = 4, sup_voters = [(numbered_account 8, 4)]\<rparr>)],
      [(numbered_account 3, \<lparr>sup_total = 1, sup_voters = [(numbered_account 8, 1)]\<rparr>)]]"

definition test_report_ops :: "unit report_ops" where
  "test_report_ops =
     \<lparr>ro_ss58 = \<lambda>prefix a. List.map (\<lambda>b. digit_char (unat b)) (account_bytes a),
      ro_check_feasibility = \<lambda>sol pgs ts n. Inr test_supports\<rparr>"

definition test_prediction_context :: prediction_context where
  "test_prediction_context =
     \<lparr>pc_round = 3, pc_desired_targets = 1, pc_block_number = 11, pc_ss58_prefix = 0, pc_token_decimals = 0,
      pc_token_symbol = ''DOT'', pc_data_source = SnapshotSource\<rparr>"

definition test_prediction_voters :: "voter_page list" where
  "test_prediction_voters =
     [[(numbered_account 3, 2, [numbered_account 3]), (numbered_account 9, 3, [numbered_account 3])],
      [(numbered_account 8, 5, [numbered_account 3, numbered_account 4])]]"

definition test_prediction_solution :: "unit paged_raw_solution" where
  "test_prediction_solution =
     \<lparr>score = \<lparr>minimal_stake = 6, sum_stake = 6, sum_stake_squared = 36\<rparr>, round = 3, solution_pages = []\<rparr>"

definition test_validator_results :: "validator_info list" where
  "test_validator_results =
     [\<lparr>vi_account = ''3'', vi_total_stake = ''6 DOT'', vi_self_stake = ''2 DOT'', vi_nominator_count = 2,
       vi_nominators = [\<lparr>na_address = ''9'', na_allocated_stake = ''3 DOT''\<rparr>,
         \<lparr>na_address = ''8'', na_allocated_stake = ''1 DOT''\<rparr>]\<rparr>]"

definition test_nominator_results :: "nominator_prediction list" where
  "test_nominator_results =
     [\<lparr>np_address = ''9'', np_stake = ''3 DOT'',
       np_active_validators = [\<lparr>va_validator = ''3'', va_allocated_stake = ''3 DOT''\<rparr>],
       np_inactive_validators = [], np_waiting_validators = []\<rparr>,
      \<lparr>np_address = ''8'', np_stake = ''5 DOT'',
       np_active_validators = [\<lparr>va_validator = ''3'', va_allocated_stake = ''1 DOT''\<rparr>],
       np_inactive_validators = [], np_waiting_validators = [''4'']\<rparr>]"

lemma test_tokens: "n < 10 \<Longrightarrow> planck_to_token (word_of_nat n) 0 ''DOT'' = Some (digit_char n # '' DOT'')"
  by (simp add: planck_to_token_def planck_amount_def Let_def show_nat.simps unat_word_of_nat)

definition test_winner :: "account_id \<times> support" where
  "test_winner = (numbered_account 3,
     \<lparr>sup_total = 6, sup_voters = [(numbered_account 3, 2), (numbered_account 9, 3), (numbered_account 8, 1)]\<rparr>)"

lemma test_winners:
  "winner_support_map test_supports =
     [test_winner, (numbered_account 4, \<lparr>sup_total = 4, sup_voters = [(numbered_account 8, 4)]\<rparr>)]"
  by (simp add: winner_support_map_def test_supports_def test_winner_def add_support_def saturating_add_def Let_def
      numbered_account_def less_account_id_def)

lemma test_token_texts:
  "planck_to_token 1 0 ''DOT'' = Some ''1 DOT''" "planck_to_token 2 0 ''DOT'' = Some ''2 DOT''"
  "planck_to_token 3 0 ''DOT'' = Some ''3 DOT''" "planck_to_token 5 0 ''DOT'' = Some ''5 DOT''"
  "planck_to_token 6 0 ''DOT'' = Some ''6 DOT''"
  using test_tokens [of 1] test_tokens [of 2] test_tokens [of 3] test_tokens [of 5] test_tokens [of 6]
  by (simp_all add: digit_chars digit_chars(2) [unfolded One_nat_def])

lemmas test_report_defs = test_report_ops_def test_prediction_context_def test_prediction_voters_def
  token_def test_token_texts encode_account_id_def digit_chars digit_chars(2) [unfolded One_nat_def]

lemma test_elected:
  "winners_sorted test_prediction_context (winner_support_map test_supports) = [test_winner]"
  unfolding test_winners
  by (simp add: winners_sorted_def test_prediction_context_def sort_descending_def test_winner_def Let_def)

lemma test_validator: "validator_info_of test_report_ops test_prediction_context test_winner = Some (hd test_validator_results)"
  by (simp add: validator_info_of_def nominator_allocation_of_def test_report_defs numbered_account_def
      sort_descending_def Let_def test_validator_results_def test_winner_def)

lemma test_nominators:
  "nominator_prediction_of test_report_ops test_prediction_context [numbered_account 3]
     (allocation_map (winner_support_map test_supports)) (numbered_account 9, 3, [numbered_account 3]) = Some (hd test_nominator_results)"
  "nominator_prediction_of test_report_ops test_prediction_context [numbered_account 3]
     (allocation_map (winner_support_map test_supports)) (numbered_account 8, 5, [numbered_account 3, numbered_account 4]) =
   Some (test_nominator_results ! 1)"
  unfolding test_winners
  by (simp_all add: nominator_prediction_of_def allocated_to_def allocation_map_def allocate_def Let_def
      test_report_defs numbered_account_def planck_to_token_u64_def test_nominator_results_def test_winner_def)

lemma test_report:
  "build_predictions_from_solution test_report_ops 2 (Some 7) test_prediction_solution [numbered_account 3, numbered_account 4]
     test_prediction_voters test_prediction_context =
   Ok (\<lparr>vp_metadata = metadata_of (Some 7) test_prediction_solution test_prediction_context,
        vp_results = test_validator_results\<rparr>, \<lparr>np_nominators = test_nominator_results\<rparr>)"
proof -
  have kept: "filter (\<lambda>v. fst v \<notin> set (List.map fst (filter (only_self_vote [numbered_account 3]) (concat test_prediction_voters))))
      (concat test_prediction_voters) =
      [(numbered_account 9, 3, [numbered_account 3]), (numbered_account 8, 5, [numbered_account 3, numbered_account 4])]"
    by (simp add: test_prediction_voters_def only_self_vote_def numbered_account_def)
  have check: "ro_check_feasibility test_report_ops sol pgs ts n = Inr test_supports" for sol pgs ts n
    by (simp add: test_report_ops_def)
  have winner: "fst test_winner = numbered_account 3" by (simp add: test_winner_def)
  have results: "[hd test_validator_results] = test_validator_results"
    "[hd test_nominator_results, test_nominator_results ! 1] = test_nominator_results"
    by (simp_all add: test_validator_results_def test_nominator_results_def)
  show ?thesis
    unfolding build_predictions_from_solution_def check sum.case Let_def test_elected list.map winner kept
      test_validator test_nominators
    by (simp add: results [simplified])
qed


theorem predicted_nominators_split_witness:
  "\<exists>vp np. build_predictions_from_solution test_report_ops 2 (Some 7) test_prediction_solution
       [numbered_account 3, numbered_account 4] test_prediction_voters test_prediction_context = Ok (vp, np) \<and>
     np_nominators np = test_nominator_results \<and> length (np_nominators np) = 2 \<and>
     list_all2 (\<lambda>v. reported_as test_report_ops test_prediction_context (elected test_prediction_context test_supports)
         (share (concat test_supports) (fst v)) v)
       (filter (\<lambda>v. fst v \<notin> set (elected test_prediction_context test_supports) \<and>
          (\<forall>stake. (fst v, stake, [fst v]) \<notin> set (concat test_prediction_voters))) (concat test_prediction_voters))
       (np_nominators np)"
proof -
  have "ro_check_feasibility test_report_ops test_prediction_solution (truncate_from 2 test_prediction_voters)
      [numbered_account 3, numbered_account 4] (pc_desired_targets test_prediction_context) = Inr test_supports"
    by (simp add: test_report_ops_def)
  note split = predicted_nominators_split [OF test_report this]
  have "length test_nominator_results = 2" by (simp add: test_nominator_results_def)
  with split show ?thesis
    by (intro exI conjI) (rule test_report, simp_all only: nominators_prediction.select_convs)
qed

end
