(* ===== verification/Prediction.thy ===== *)
theory Prediction
  imports Prediction_Report Runtime_Params Staking Miner Test_Node
begin

text \<open>
  The prediction of an election (\<open>src/src/commands/predict.rs\<close>): the election data at
  a block from its snapshot or from the staking pallet (\<open>get_election_data\<close> and
  \<open>fetch_snapshots\<close> of \<open>src/src/dynamic/election_data.rs\<close>), mining, and the
  report; with the helpers of \<open>src/src/utils.rs\<close> for block hashes, chain properties and
  JSON files.  The RPC connection, the file system, JSON and the clock are parameters.
\<close>

subsection \<open>Configuration\<close>

datatype overrides_config = OverridesPath string | OverridesData election_overrides

definition overrides_from_str :: "string \<Rightarrow> overrides_config" where
  "overrides_from_str s = OverridesPath s"

record predict_config =
  desired_validators :: "u32 option"
  output_dir :: "string option"
  balancing_iterations :: nat
  pcf_do_reduce :: bool
  block_number :: "u32 option"
  overrides :: "overrides_config option"
  algorithm :: election_algorithm

definition default_balancing_iterations :: nat where
  "default_balancing_iterations = 10"

record chain_properties =
  token_symbol :: "string option"
  token_decimals :: "u8 option"

subsection \<open>Surroundings\<close>

text \<open>Input and output fail with a printed error.\<close>

type_synonym ('w, 'a) io_op = "'w \<Rightarrow> (string, 'a) outcome \<times> 'w"

record 'w file_system =
  fs_create_dir_all :: "string \<Rightarrow> ('w, unit) io_op"
  fs_create :: "string \<Rightarrow> ('w, unit) io_op"
  fs_write_all :: "string \<Rightarrow> string \<Rightarrow> ('w, unit) io_op"
  fs_flush :: "string \<Rightarrow> ('w, unit) io_op"
  fs_open :: "string \<Rightarrow> ('w, unit) io_op"
  fs_read_to_string :: "string \<Rightarrow> ('w, string) io_op"

record ('w, 'sol, 'x) prediction_env =
  pe_api :: "('w, 'sol) chain_api"
  pe_chain :: chain
  pe_constants :: "'x constants_api"
  pe_miner :: "('w, 'sol) miner_ops"
  pe_report :: "'sol report_ops"
  pe_staking :: "at_block \<Rightarrow> 'w staking_storage"
  pe_sort :: index_sort
  pe_parse :: account_parser
  pe_formats :: debug_formats
  pe_validator_count :: "at_block \<Rightarrow> ('w, u32 storage_value option) ext"
  pe_try_round :: "at_block \<Rightarrow> ('w, u32 storage_value option) ext"
  pe_rpc_connect :: "('w, unit) ext"
  pe_rpc_block_hash :: "u32 \<Rightarrow> ('w, hash option) io_op"
  pe_rpc_properties :: "('w, chain_properties) io_op"
  pe_files :: "'w file_system"
  pe_json_overrides :: "string \<Rightarrow> string + election_overrides"
  pe_json_validators :: "validators_prediction \<Rightarrow> string + string"
  pe_json_nominators :: "nominators_prediction \<Rightarrow> string + string"
  pe_now :: "'w \<Rightarrow> u64 option \<times> 'w"

text \<open>An operation whose failure is an error of the miner.\<close>

definition attempt_op :: "(string \<Rightarrow> error) \<Rightarrow> ('w, 'a) io_op \<Rightarrow> ('w, 'v, 'm, 'a) prog" where
  "attempt_op err f = io_map_err err (call f)"

definition json_result :: "string + 'a \<Rightarrow> ('s, error, 'a) io" where
  "json_result r = (case r of Inl e \<Rightarrow> throw (SerdeJson e) | Inr x \<Rightarrow> ret x)"

subsection \<open>Helpers\<close>

text \<open>\<open>Path::parent\<close>.\<close>

definition path_parent :: "string \<Rightarrow> string option" where
  "path_parent path =
     (let above = dropWhile (\<lambda>c. c \<noteq> CHR ''/'') (rev path) in
      if path = [] \<or> path = ''/'' then None
      else if above = [] then Some []
      else let dir = rev (dropWhile (\<lambda>c. c = CHR ''/'') above) in Some (if dir = [] then ''/'' else dir))"

definition write_data_to_json_file ::
  "'w file_system \<Rightarrow> ('d \<Rightarrow> string + string) \<Rightarrow> 'd \<Rightarrow> string \<Rightarrow> ('w, 'v, 'm, unit) prog" where
  "write_data_to_json_file fs to_string_pretty data path =
     io_seq
       (case path_parent path of
          Some parent \<Rightarrow> if parent \<noteq> [] then attempt_op Io (fs_create_dir_all fs parent) else ret ()
        | None \<Rightarrow> ret ())
    (io_seq (attempt_op Io (fs_create fs path))
    (io_bind (json_result (to_string_pretty data)) (\<lambda>json.
     io_seq (attempt_op Io (fs_write_all fs path json))
            (attempt_op Io (fs_flush fs path)))))"

definition read_data_from_json_file ::
  "'w file_system \<Rightarrow> (string \<Rightarrow> string + 'd) \<Rightarrow> string \<Rightarrow> ('w, 'v, 'm, 'd) prog" where
  "read_data_from_json_file fs from_str path =
     io_seq (attempt_op Io (fs_open fs path))
    (io_bind (attempt_op Io (fs_read_to_string fs path)) (\<lambda>content.
     json_result (from_str content)))"

definition get_ss58_prefix :: "('w, 'sol, 'x) prediction_env \<Rightarrow> ('w, 'v, 'm, u16) prog" where
  "get_ss58_prefix env =
     io_bind (await (api_at_current_block (pe_api env))) (\<lambda>at.
     case fetch_constant (pe_constants env) (ca_u16 (pe_constants env)) (ca_u16_name (pe_constants env))
       (item ''System'' ''SS58Prefix'') at of
       Inr ss58_prefix \<Rightarrow> ret ss58_prefix
     | Inl e \<Rightarrow> ret 0)"

definition get_block_hash :: "('w, 'sol, 'x) prediction_env \<Rightarrow> u32 \<Rightarrow> ('w, 'v, 'm, hash) prog" where
  "get_block_hash env n =
     io_seq (await (pe_rpc_connect env))
    (io_bind (attempt_op (\<lambda>e. OtherError (''Failed to get block hash for block '' @ show_word n @ '': '' @ e))
       (pe_rpc_block_hash env n)) (\<lambda>block_hash.
     case block_hash of
       Some h \<Rightarrow> ret h
     | None \<Rightarrow> throw (OtherError (''Block '' @ show_word n @ '' not found (may be pruned or invalid)''))))"

definition get_chain_properties :: "('w, 'sol, 'x) prediction_env \<Rightarrow> ('w, 'v, 'm, u16 \<times> u8 \<times> string) prog" where
  "get_chain_properties env =
     io_seq (await (pe_rpc_connect env))
    (io_bind (attempt_op (\<lambda>e. OtherError (''Failed to call system_properties RPC: '' @ e)) (pe_rpc_properties env)) (\<lambda>response.
     let decimals = (case token_decimals response of Some d \<Rightarrow> d | None \<Rightarrow> 10);
         symbol = (case token_symbol response of Some s \<Rightarrow> s | None \<Rightarrow> ''UNIT'') in
     io_bind (get_ss58_prefix env) (\<lambda>ss58_prefix.
     ret (ss58_prefix, decimals, symbol))))"

subsection \<open>Election data\<close>

text \<open>The product of the two \<open>u32\<close> constants wraps.\<close>

definition get_election_data ::
  "('w, 'sol, 'x) prediction_env \<Rightarrow> u32 \<Rightarrow> u32 \<Rightarrow> at_block \<Rightarrow>
     ('w, 'sol event, 'm, validator_data list \<times> nominator_data list \<times> election_data_source) params_prog" where
  "get_election_data env n rnd at =
     io_bind (io_get params) (\<lambda>p.
     io_bind (io_try (try_fetch_snapshot (pe_api env) (rp_pages p) n rnd at)) (\<lambda>r.
     case r of
       Inr (t, voter_pages) \<Rightarrow> ret (List.map (\<lambda>a. (a, 0)) t, concat voter_pages, SnapshotSource)
     | Inl err \<Rightarrow>
         io_bind (io_map_err (\<lambda>e. OtherError (''Failed to fetch candidates: '' @ error_display (pe_formats env) e))
           (fetch_candidates (pe_staking env at))) (\<lambda>candidates.
         io_bind (io_get params) (\<lambda>p.
         let voter_limit = unat (rp_pages p * rp_voter_snapshot_per_block p) in
         io_bind (io_map_err (\<lambda>e. OtherError (''Failed to fetch voters: '' @ error_display (pe_formats env) e))
           (fetch_voters (pe_formats env) (pe_staking env at) voter_limit)) (\<lambda>voters.
         ret (candidates, voters, StakingSource))))))"

definition overrides_to_apply ::
  "('w, 'sol, 'x) prediction_env \<Rightarrow> overrides_config \<Rightarrow> ('w, 'v, 'm, election_overrides) prog" where
  "overrides_to_apply env cfg =
     (case cfg of
        OverridesPath path \<Rightarrow> read_data_from_json_file (pe_files env) (pe_json_overrides env) path
      | OverridesData data \<Rightarrow> ret data)"

definition fetch_snapshots ::
  "('w, 'sol, 'x) prediction_env \<Rightarrow> u32 \<Rightarrow> u32 \<Rightarrow> at_block \<Rightarrow> overrides_config option \<Rightarrow>
     ('w, 'sol event, 'm, target_page \<times> voter_page list \<times> election_data_source) params_prog" where
  "fetch_snapshots env n current_round at ovr =
     io_bind (get_election_data env n current_round at) (\<lambda>(candidates, nominators, data_source).
     io_bind
       (case ovr of
          Some cfg \<Rightarrow> io_bind (overrides_to_apply env cfg) (\<lambda>ov.
            io_result (apply_overrides (pe_parse env) candidates nominators ov))
        | None \<Rightarrow> ret (candidates, nominators)) (\<lambda>(candidates, nominators).
     io_bind (io_get params) (\<lambda>p.
     case convert_election_data_to_snapshots (pe_sort env) (miner_config (pe_chain env) p) candidates nominators data_source of
       (t, voter_snapshot) \<Rightarrow> ret (t, voter_snapshot, data_source))))"

subsection \<open>Prediction\<close>

definition desired_targets_of ::
  "('w, 'sol, 'x) prediction_env \<Rightarrow> predict_config \<Rightarrow> at_block \<Rightarrow> ('w, 'v, 'm, u32) prog" where
  "desired_targets_of env config at =
     (case desired_validators config of
        Some targets \<Rightarrow> ret targets
      | None \<Rightarrow>
          io_bind (io_map_err (\<lambda>e. OtherError (''Failed to fetch Desired Targets from chain: '' @ subxt_display e))
            (call (pe_validator_count env at))) (\<lambda>v.
          case v of
            None \<Rightarrow> throw (OtherError ''Desired validators not found in chain storage'')
          | Some (Malformed e) \<Rightarrow> throw (OtherError (''Failed to decode Desired Targets: '' @ subxt_display e))
          | Some (Decodes n) \<Rightarrow> ret n))"

text \<open>The block number and the block, from the configuration or each from the head.\<close>

definition prediction_block_number ::
  "('w, 'sol, 'x) prediction_env \<Rightarrow> predict_config \<Rightarrow> ('w, 'v, 'm, u32) prog" where
  "prediction_block_number env config =
     (case block_number config of
        Some block_num \<Rightarrow> ret block_num
      | None \<Rightarrow>
          io_bind (io_map_err (\<lambda>e. OtherError (''Failed to fetch latest block number: '' @ subxt_display e))
            (call (api_at_current_block (pe_api env)))) (\<lambda>at.
          ret (ucast (ab_number at))))"

definition prediction_block ::
  "('w, 'sol, 'x) prediction_env \<Rightarrow> predict_config \<Rightarrow> ('w, 'v, 'm, at_block) prog" where
  "prediction_block env config =
     (case block_number config of
        Some block_num \<Rightarrow> io_bind (get_block_hash env block_num) (\<lambda>h. storage_at (pe_api env) (Some h))
      | None \<Rightarrow> await (api_at_current_block (pe_api env)))"

definition mine_prediction ::
  "('w, 'sol, 'x) prediction_env \<Rightarrow> predict_config \<Rightarrow> target_page \<Rightarrow> voter_page list \<Rightarrow> u32 \<Rightarrow> u32 \<Rightarrow> u32 \<Rightarrow>
     ('w, 'sol event, 'm, 'sol paged_raw_solution) params_prog" where
  "mine_prediction env config t v n current_round desired_targets =
     io_bind (io_get params) (\<lambda>p.
     io_bind (io_timeout (mine_solution (pe_miner env) (rp_pages p) t v n current_round desired_targets (pcf_do_reduce config)))
       (\<lambda>r. case r of
          Some (Inr sol) \<Rightarrow> ret sol
        | Some (Inl e) \<Rightarrow> throw e
        | None \<Rightarrow> throw (Timeout (MiningTimeout 600))))"

definition system_time :: "('w \<Rightarrow> 'a \<times> 'w) \<Rightarrow> ('w, 'v, 'm, 'a) prog" where
  "system_time f = (\<lambda>s. case f (world s) of (x, w) \<Rightarrow> (Ok x, s\<lparr>world := w\<rparr>))"

definition run_prediction ::
  "('w, 'sol, 'x) prediction_env \<Rightarrow> predict_config \<Rightarrow>
     ('w, 'sol event, 'm, validators_prediction \<times> nominators_prediction) params_prog" where
  "run_prediction env config =
     io_bind (await (api_at_current_block (pe_api env))) (\<lambda>head.
     io_seq (update_metadata_constants (pe_constants env) head)
    (io_seq (set_balancing_iterations (balancing_iterations config))
    (io_seq (set_algorithm (algorithm config))
    (io_bind (io_get (\<lambda>s. rp_pages (params s))) (\<lambda>n.
     io_bind (prediction_block_number env config) (\<lambda>number.
     io_bind (prediction_block env config) (\<lambda>at.
     io_bind (io_bind (await (api_round (pe_api env) at)) decode_value) (\<lambda>current_round.
     io_bind (desired_targets_of env config at) (\<lambda>desired_targets.
     io_bind (fetch_snapshots env n current_round at (overrides config)) (\<lambda>(t, v, data_source).
     let n = max n (word_of_nat (length v)) in
     io_bind (mine_prediction env config t v n current_round desired_targets) (\<lambda>sol.
     io_bind (get_chain_properties env) (\<lambda>(ss58_prefix, decimals, symbol).
     io_bind (system_time (pe_now env)) (\<lambda>now.
     io_bind (io_get params) (\<lambda>p.
     (\<lambda>s. (build_predictions_from_solution (pe_report env) (rp_pages p) now sol t v
        \<lparr>pc_round = current_round, pc_desired_targets = desired_targets, pc_block_number = number,
         pc_ss58_prefix = ss58_prefix, pc_token_decimals = decimals, pc_token_symbol = symbol,
         pc_data_source = data_source\<rparr>, s))))))))))))))))"

text \<open>\<open>Path::join\<close> with a file name.\<close>

definition path_join :: "string \<Rightarrow> string \<Rightarrow> string" where
  "path_join dir name =
     (if dir = [] \<or> last dir = CHR ''/'' then dir @ name else dir @ ''/'' @ name)"

definition predict_cmd ::
  "('w, 'sol, 'x) prediction_env \<Rightarrow> predict_config \<Rightarrow> ('w, 'sol event, 'm, unit) params_prog" where
  "predict_cmd env config =
     (let dir = (case output_dir config of Some d \<Rightarrow> d | None \<Rightarrow> ''results'') in
      io_bind (run_prediction env config) (\<lambda>(validators_prediction, nominators_prediction).
      io_seq (attempt_op (\<lambda>e. OtherError (''Failed to create output directory '' @ dir @ '': '' @ e))
        (fs_create_dir_all (pe_files env) dir))
     (io_seq (write_data_to_json_file (pe_files env) (pe_json_validators env) validators_prediction
        (path_join dir ''validators_prediction.json''))
        (write_data_to_json_file (pe_files env) (pe_json_nominators env) nominators_prediction
        (path_join dir ''nominators_prediction.json'')))))"

subsection \<open>Snapshots\<close>

text \<open>Without a block number, the reported number is that of the head of one request and
  the data are those of the head of the next.\<close>

theorem reported_block_is_another:
  assumes "block_number config = None"
    and "api_at_current_block (pe_api env) w = (Ok a, w')" "api_at_current_block (pe_api env) w' = (Ok b, w'')"
  shows "io_bind (prediction_block_number env config) (\<lambda>number.
      io_bind (prediction_block env config) (\<lambda>at. ret (number, at))) \<lparr>world = w, trace = evs\<rparr> =
    (Ok (ucast (ab_number a), b), \<lparr>world = w'', trace = evs\<rparr>)"
  using assms by (simp add: prediction_block_number_def prediction_block_def io_defs call_def)

lemma snapshot_missing:
  assumes "yields (api_target_snapshot api at rnd (n - 1)) None"
  shows "\<exists>e. gives P (io_try (try_fetch_snapshot api chain_pages n rnd at) :: (('w, 'v, 'm) sys_scheme, error, _) io) (Inl e) []"
proof (cases "n = chain_pages")
  case False
  then show ?thesis
    by (auto simp: gives_def try_fetch_snapshot_def io_try_def throw_def shows_only_def)
next
  case True
  have "gives P (io_try (try_fetch_snapshot api chain_pages n rnd at) :: (('w, 'v, 'm) sys_scheme, error, _) io) (Inl EmptySnapshot) []"
    unfolding gives_def
  proof
    fix s :: "('w, 'v, 'm) sys_scheme"
    from assms obtain w where "api_target_snapshot api at rnd (n - 1) (world s) = (Ok None, w)"
      unfolding yields_def by (metis prod.collapse)
    with True show "\<exists>t. io_try (try_fetch_snapshot api chain_pages n rnd at) s = (Ok (Inl EmptySnapshot), t) \<and> shows_only P s t []"
      by (simp add: try_fetch_snapshot_def target_snapshot_def fetch_raw_def io_defs)
  qed
  then show ?thesis by blast
qed

lemma gives_step:
  assumes "gives (\<lambda>v. [v]) m x []"
  obtains t where "m s = (Ok x, t)" "trace t = trace s" "sys.more t = sys.more s"
proof -
  from assms obtain t where "m s = (Ok x, t)" "shows_only (\<lambda>v. [v]) s t []" unfolding gives_def by blast
  with that show thesis by (auto simp: shows_only_def)
qed

lemma params_more: "sys.more t = sys.more s \<Longrightarrow> params t = params s"
  by (cases s; cases t) simp

lemma gives_map_err: "gives P m x rs \<Longrightarrow> gives P (io_map_err f m) x rs"
  unfolding gives_def
proof
  fix s
  assume "\<forall>s. \<exists>t. m s = (Ok x, t) \<and> shows_only P s t rs"
  then obtain t where "m s = (Ok x, t)" "shows_only P s t rs" by blast
  then show "\<exists>t. io_map_err f m s = (Ok x, t) \<and> shows_only P s t rs" by (simp add: io_map_err_def)
qed

lemma election_data_from_staking:
  fixes s :: "('w, 'sol event, 'm) params_sys_scheme"
  assumes "staking_node (pe_staking env at) c" "yields (api_target_snapshot (pe_api env) at rnd (n - 1)) None"
  shows "\<exists>t. get_election_data env n rnd at s =
      (Ok (List.map (\<lambda>a. (a, self_stake (sc_ledger c (controller c a)))) (sc_validators c),
           (let limit = unat (rp_pages (params s) * rp_voter_snapshot_per_block (params s)) in
            take limit (concat (List.map (npos_vote c) (voter_list (sc_bags c) (sc_nodes c) limit)))), StakingSource), t) \<and>
    trace t = trace s \<and> params t = params s"
proof -
  from snapshot_missing [OF assms(2), where chain_pages = "rp_pages (params s)" and P = "\<lambda>v. [v]"]
  obtain e where "gives (\<lambda>v. [v]) (io_try (try_fetch_snapshot (pe_api env) (rp_pages (params s)) n rnd at)
      :: (('w, 'sol event, 'm) params_sys_scheme, error, _) io) (Inl e) []" by blast
  from gives_step [OF this, of s] obtain s1 where s1:
    "io_try (try_fetch_snapshot (pe_api env) (rp_pages (params s)) n rnd at) s = (Ok (Inl e) :: (error, _) outcome, s1)"
    "trace s1 = trace s" "sys.more s1 = sys.more s" .
  from gives_step [OF gives_map_err [where f = "\<lambda>e. OtherError (''Failed to fetch candidates: '' @ error_display (pe_formats env) e)",
      OF gives_fetch_candidates [OF assms(1)]], where s = s1] obtain s2 where s2:
    "io_map_err (\<lambda>e. OtherError (''Failed to fetch candidates: '' @ error_display (pe_formats env) e))
       (fetch_candidates (pe_staking env at)) s1 =
     (Ok (List.map (\<lambda>a. (a, self_stake (sc_ledger c (controller c a)))) (sc_validators c)), s2)"
    "trace s2 = trace s1" "sys.more s2 = sys.more s1" .
  let ?limit = "unat (rp_pages (params s) * rp_voter_snapshot_per_block (params s))"
  from gives_step [OF gives_map_err [where f = "\<lambda>e. OtherError (''Failed to fetch voters: '' @ error_display (pe_formats env) e)",
      OF gives_fetch_voters [OF assms(1), where n = ?limit and dbg = "pe_formats env"]], where s = s2] obtain s3 where s3:
    "io_map_err (\<lambda>e. OtherError (''Failed to fetch voters: '' @ error_display (pe_formats env) e))
       (fetch_voters (pe_formats env) (pe_staking env at) ?limit) s2 =
     (Ok (take ?limit (concat (List.map (npos_vote c) (voter_list (sc_bags c) (sc_nodes c) ?limit)))), s3)"
    "trace s3 = trace s2" "sys.more s3 = sys.more s2" .
  have p: "params s2 = params s" "params s3 = params s"
    using s1(3) s2(3) s3(3) by (auto intro!: params_more)
  show ?thesis
    using s1 s2 s3 p unfolding get_election_data_def by (simp add: io_bind_def io_get_def Let_def ret_def)
qed


subsection \<open>Instances\<close>

text \<open>A node without a snapshot, pages of one voter.\<close>

definition test_files :: "'w file_system" where
  "test_files =
     \<lparr>fs_create_dir_all = \<lambda>p w. (Ok (), w), fs_create = \<lambda>p w. (Ok (), w), fs_write_all = \<lambda>p d w. (Ok (), w),
      fs_flush = \<lambda>p w. (Ok (), w), fs_open = \<lambda>p w. (Err ''not found'', w), fs_read_to_string = \<lambda>p w. (Ok [], w)\<rparr>"

definition test_prediction_env :: "(test_world, nat, u32) prediction_env" where
  "test_prediction_env =
     \<lparr>pe_api = (test_node [] Off None)\<lparr>api_target_snapshot := \<lambda>b r p w. (Ok None, w)\<rparr>, pe_chain = Westend,
      pe_constants = test_constants,
      pe_miner = \<lparr>mo_mine = \<lambda>i. Inr test_solution, mo_infeasible = \<lambda>sol v t n. None, mo_winner_count = \<lambda>sol. 4,
        mo_join = \<lambda>w. (Ok (), w)\<rparr>,
      pe_report = \<lparr>ro_ss58 = \<lambda>p a. [], ro_check_feasibility = \<lambda>sol v t n. Inr []\<rparr>,
      pe_staking = \<lambda>at. test_staking, pe_sort = test_sort, pe_parse = test_parse, pe_formats = test_formats,
      pe_validator_count = \<lambda>at w. (Ok (Some (Decodes 4)), w), pe_try_round = \<lambda>at w. (Ok (Some (Decodes 1)), w),
      pe_rpc_connect = \<lambda>w. (Ok (), w), pe_rpc_block_hash = \<lambda>n w. (Ok (Some 7), w),
      pe_rpc_properties = \<lambda>w. (Ok \<lparr>token_symbol = Some ''DOT'', token_decimals = None\<rparr>, w), pe_files = test_files,
      pe_json_overrides = \<lambda>c. Inl ''syntax'', pe_json_validators = \<lambda>d. Inr [], pe_json_nominators = \<lambda>d. Inr [],
      pe_now = \<lambda>w. (Some 7, w)\<rparr>"


end
