(* ===== verification/Server.thy ===== *)
theory Server
  imports Prediction
begin

text \<open>
  The REST server (\<open>src/src/commands/server.rs\<close>): routing a request, the simulate
  and snapshot endpoints with their responses, the snapshot data of a block, and the two
  semaphores that bound open connections and running predictions.  The HTTP and JSON
  libraries are parameters; concurrent requests are a step relation.
\<close>

subsection \<open>Responses\<close>

record simulate_run_parameters =
  srp_block_number :: u32
  srp_desired_validators :: u32
  srp_balancing_iterations :: nat
  srp_do_reduce :: bool
  srp_algorithm :: election_algorithm
  srp_overrides :: "overrides_config option"

record simulate_result =
  sr_run_parameters :: simulate_run_parameters
  sr_validators :: validators_prediction
  sr_nominators :: nominators_prediction

record snapshot_config =
  sc_block_number :: u32
  sc_round :: u32
  sc_data_source :: election_data_source

record snapshot_nominator =
  sn_account :: string
  sn_stake :: string
  sn_targets :: "string list"

record snapshot_result =
  snr_validators :: "string list"
  snr_nominators :: "snapshot_nominator list"
  snr_config :: snapshot_config

text \<open>The JSON values that are sent.\<close>

datatype reply = ErrorReply string | SimulateReply simulate_result | SnapshotReply snapshot_result

record response =
  rs_status :: u16
  rs_body :: string

subsection \<open>Requests\<close>

datatype http_method = GET | POST | OtherMethod string

record 'b request =
  rq_method :: http_method
  rq_path :: string
  rq_query :: "string option"
  rq_body :: 'b

datatype body_error = LengthLimitError | OtherBodyError

text \<open>\<open>form_urlencoded::parse\<close>, reading a body up to a limit, \<open>serde_json\<close> in both
  directions, and whether the response builder takes a status.\<close>

record 'b http_ops =
  ho_parse_query :: "string \<Rightarrow> (string \<times> string) list"
  ho_collect :: "nat \<Rightarrow> 'b \<Rightarrow> body_error + string"
  ho_parse_config :: "string \<Rightarrow> predict_config option"
  ho_to_vec :: "reply \<Rightarrow> string option"
  ho_status_ok :: "u16 \<Rightarrow> bool"

text \<open>\<open>str::parse::<u32>\<close>: an optional plus sign, digits, no overflow.\<close>

definition parse_u32 :: "string \<Rightarrow> u32 option" where
  "parse_u32 s =
     (let digits = (case s of c # cs \<Rightarrow> if c = CHR ''+'' then cs else s | [] \<Rightarrow> []) in
      if digits = [] \<or> (\<exists>c \<in> set digits. to_digit c = None) then None
      else let n = foldl (\<lambda>acc c. 10 * acc + the (to_digit c)) 0 digits in
           if n < 2 ^ 32 then Some (word_of_nat n) else None)"

definition query_block_number :: "'b http_ops \<Rightarrow> 'b request \<Rightarrow> u32 option" where
  "query_block_number ho rq =
     Option.bind (rq_query rq) (\<lambda>query.
     Option.bind (map_of (ho_parse_query ho query) ''block'') parse_u32)"

definition max_body_size :: nat where
  "max_body_size = 1024 * 1024"

text \<open>Fallbacks of the two builders; the last \<open>unwrap\<close> may panic.\<close>

definition fallback_response :: "'b http_ops \<Rightarrow> ('s, 'e, response) io" where
  "fallback_response ho =
     (if ho_status_ok ho 500 then
        ret \<lparr>rs_status = 500, rs_body = ''{'' @ [CHR 0x22] @ ''error'' @ [CHR 0x22] @ '': '' @ [CHR 0x22] @
              ''Internal Server Error'' @ [CHR 0x22] @ ''}''\<rparr>
      else panic ''called Result::unwrap() on an Err value'')"

definition error_response :: "'b http_ops \<Rightarrow> u16 \<Rightarrow> string \<Rightarrow> ('s, 'e, response) io" where
  "error_response ho status message =
     (let body_bytes = (case ho_to_vec ho (ErrorReply message) of
            Some b \<Rightarrow> b
          | None \<Rightarrow> ''{'' @ [CHR 0x22] @ ''error'' @ [CHR 0x22] @ '': '' @ [CHR 0x22] @
              ''Internal Server Error'' @ [CHR 0x22] @ ''}'') in
      if ho_status_ok ho status then ret \<lparr>rs_status = status, rs_body = body_bytes\<rparr> else fallback_response ho)"

definition json_response :: "'b http_ops \<Rightarrow> reply \<Rightarrow> ('s, 'e, response) io" where
  "json_response ho result =
     (case ho_to_vec ho result of
        Some body \<Rightarrow>
          if ho_status_ok ho 200 then ret \<lparr>rs_status = 200, rs_body = body\<rparr> else fallback_response ho
      | None \<Rightarrow> error_response ho 500 ''Failed to serialize JSON'')"

subsection \<open>Handlers\<close>

text \<open>What a request asks for, before any permit is taken.\<close>

datatype routed = Reject u16 string | Simulate predict_config | Snapshot "u32 option"

definition route :: "'b http_ops \<Rightarrow> 'b request \<Rightarrow> routed" where
  "route ho rq =
     (if rq_method rq = POST \<and> rq_path rq = ''/simulate'' then
        (case ho_collect ho max_body_size (rq_body rq) of
           Inl LengthLimitError \<Rightarrow> Reject 413 ''Request body too large''
         | Inl OtherBodyError \<Rightarrow> Reject 400 ''Failed to read body''
         | Inr body_bytes \<Rightarrow>
             (case ho_parse_config ho body_bytes of
                None \<Rightarrow> Reject 400 ''Invalid JSON''
              | Some config \<Rightarrow>
                  Simulate (case query_block_number ho rq of
                      Some num \<Rightarrow> config\<lparr>block_number := Some num\<rparr>
                    | None \<Rightarrow> config)))
      else if rq_method rq = GET \<and> rq_path rq = ''/snapshot'' then Snapshot (query_block_number ho rq)
      else Reject 404 ''Not Found'')"

definition run_parameters :: "predict_config \<Rightarrow> validators_prediction \<Rightarrow> simulate_run_parameters" where
  "run_parameters config validators =
     \<lparr>srp_block_number = pm_block_number (vp_metadata validators),
      srp_desired_validators = pm_desired_validators (vp_metadata validators),
      srp_balancing_iterations = balancing_iterations config, srp_do_reduce = pcf_do_reduce config,
      srp_algorithm = algorithm config, srp_overrides = overrides config\<rparr>"

text \<open>The responses to the outcome of a prediction and of a snapshot; no outcome is the
  timeout.\<close>

definition simulate_response ::
  "'b http_ops \<Rightarrow> predict_config \<Rightarrow> (error + validators_prediction \<times> nominators_prediction) option \<Rightarrow>
     ('s, 'e, response) io" where
  "simulate_response ho config result =
     (case result of
        Some (Inr (validators, nominators)) \<Rightarrow>
          json_response ho (SimulateReply \<lparr>sr_run_parameters = run_parameters config validators,
            sr_validators = validators, sr_nominators = nominators\<rparr>)
      | Some (Inl e) \<Rightarrow> error_response ho 500 ''Internal Server Error: Prediction failed''
      | None \<Rightarrow> error_response ho 504 ''Gateway Timeout: Prediction took too long'')"

definition snapshot_response :: "'b http_ops \<Rightarrow> (error + snapshot_result) option \<Rightarrow> ('s, 'e, response) io" where
  "snapshot_response ho result =
     (case result of
        Some (Inr snapshot_data) \<Rightarrow> json_response ho (SnapshotReply snapshot_data)
      | Some (Inl e) \<Rightarrow> error_response ho 500 ''Internal Server Error''
      | None \<Rightarrow> error_response ho 504 ''Gateway Timeout: Snapshot fetch took too long'')"

text \<open>The semaphore of predictions; its permit is returned however the rest ends.\<close>

record ('w, 'v) server_sys = "('w, 'v) params_sys" +
  prediction_permits :: nat

type_synonym ('w, 'v, 'm, 'a) server_prog = "(('w, 'v, 'm) server_sys_scheme, error, 'a) io"

definition try_acquire :: "('w, 'v, 'm, bool) server_prog" where
  "try_acquire = (\<lambda>s.
     if 0 < prediction_permits s then (Ok True, s\<lparr>prediction_permits := prediction_permits s - 1\<rparr>)
     else (Ok False, s))"

definition holding_permit :: "('w, 'v, 'm, 'a) server_prog \<Rightarrow> ('w, 'v, 'm, 'a) server_prog" where
  "holding_permit m = (\<lambda>s. case m s of (r, t) \<Rightarrow> (r, t\<lparr>prediction_permits := prediction_permits t + 1\<rparr>))"

record ('w, 'v, 'm) server_handler =
  sh_predict :: "predict_config \<Rightarrow> ('w, 'v, 'm, validators_prediction \<times> nominators_prediction) server_prog"
  sh_snapshot :: "u32 option \<Rightarrow> ('w, 'v, 'm, snapshot_result) server_prog"

definition handle_request ::
  "'b http_ops \<Rightarrow> ('w, 'v, 'm) server_handler \<Rightarrow> 'b request \<Rightarrow> ('w, 'v, 'm, response) server_prog" where
  "handle_request ho handler rq =
     (case route ho rq of
        Reject status message \<Rightarrow> error_response ho status message
      | Simulate config \<Rightarrow>
          io_bind try_acquire (\<lambda>acquired.
          if \<not> acquired then error_response ho 503 ''A prediction is already in progress''
          else holding_permit
            (io_bind (io_timeout (sh_predict handler config)) (\<lambda>result. simulate_response ho config result)))
      | Snapshot query_number \<Rightarrow>
          io_bind (io_timeout (sh_snapshot handler query_number)) (\<lambda>result. snapshot_response ho result))"

definition snapshot_block ::
  "('w, 'sol, 'x) prediction_env \<Rightarrow> u32 option \<Rightarrow> ('w, 'v, 'm, u32 \<times> at_block) prog" where
  "snapshot_block env number =
     (case number of
        Some num \<Rightarrow>
          io_bind (get_block_hash env num) (\<lambda>h.
          io_bind (storage_at (pe_api env) (Some h)) (\<lambda>at. ret (num, at)))
      | None \<Rightarrow>
          io_bind (await (api_at_current_block (pe_api env))) (\<lambda>at. ret (ucast (ab_number at), at)))"

definition fetch_snapshot_data ::
  "('w, 'sol, 'x) prediction_env \<Rightarrow> u32 option \<Rightarrow> ('w, 'sol event, 'm, snapshot_result) params_prog" where
  "fetch_snapshot_data env number =
     io_bind (io_get (\<lambda>s. rp_pages (params s))) (\<lambda>n.
     io_bind (snapshot_block env number) (\<lambda>(block_num, at).
     io_bind (io_bind (await (pe_try_round env at)) decode_storage_opt) (\<lambda>rnd.
     let current_round = (case rnd of Some r \<Rightarrow> r | None \<Rightarrow> 0) in
     io_bind (fetch_snapshots env n current_round at None) (\<lambda>(t, voter_snapshot, data_source).
     io_bind (get_ss58_prefix env) (\<lambda>ss58_prefix.
     ret \<lparr>snr_validators = List.map (\<lambda>acc. encode_account_id (pe_report env) acc ss58_prefix) t,
          snr_nominators = List.map (\<lambda>(acc, stake, ts).
            \<lparr>sn_account = encode_account_id (pe_report env) acc ss58_prefix, sn_stake = show_word stake,
             sn_targets = List.map (\<lambda>x. encode_account_id (pe_report env) x ss58_prefix) ts\<rparr>) (concat voter_snapshot),
          snr_config = \<lparr>sc_block_number = block_num, sc_round = current_round, sc_data_source = data_source\<rparr>\<rparr>)))))"

text \<open>\<open>ClientHandler\<close>.\<close>

definition client_handler :: "('w, 'sol, 'x) prediction_env \<Rightarrow> ('w, 'sol event, 'm) server_handler" where
  "client_handler env = \<lparr>sh_predict = run_prediction env, sh_snapshot = fetch_snapshot_data env\<rparr>"

subsection \<open>Concurrent requests\<close>

text \<open>A request is routed, runs its prediction, or fetches its snapshot.\<close>

datatype 'b activity = Routing "'b request" | Predicting predict_config | Snapshotting "u32 option"

record 'b server =
  free_connections :: nat
  free_predictions :: nat
  connections :: "nat list"
  requests :: "(nat \<times> nat \<times> 'b activity) list"

definition server_new :: "'b server" where
  "server_new = \<lparr>free_connections = 25, free_predictions = 1, connections = [], requests = []\<rparr>"

fun predicting :: "nat \<times> nat \<times> 'b activity \<Rightarrow> bool" where
  "predicting (r, c, Predicting config) = True"
| "predicting (r, c, _) = False"

abbreviation drop_request :: "nat \<Rightarrow> (nat \<times> nat \<times> 'b activity) list \<Rightarrow> (nat \<times> nat \<times> 'b activity) list" where
  "drop_request r qs \<equiv> filter (\<lambda>q. fst q \<noteq> r) qs"

datatype server_event = Accepted nat | Closed nat | Arrived nat | Began nat | Answered nat u16

text \<open>
  \<open>serve\<close> and \<open>handle_request\<close>: a connection is served once it has its permit, and
  gives it back when it ends, together with whatever its requests hold; requests of
  all connections interleave.
\<close>

inductive server_step :: "'b http_ops \<Rightarrow> 'b server \<Rightarrow> server_event \<Rightarrow> 'b server \<Rightarrow> bool" for ho where
  accepted: "0 < free_connections s \<Longrightarrow> c \<notin> set (connections s) \<Longrightarrow>
    server_step ho s (Accepted c)
      (s\<lparr>free_connections := free_connections s - 1, connections := c # connections s\<rparr>)"
| closed: "c \<in> set (connections s) \<Longrightarrow>
    server_step ho s (Closed c)
      (s\<lparr>free_connections := free_connections s + 1, connections := remove1 c (connections s),
        free_predictions := free_predictions s + length (filter (\<lambda>q. fst (snd q) = c \<and> predicting q) (requests s)),
        requests := filter (\<lambda>q. fst (snd q) \<noteq> c) (requests s)\<rparr>)"
| arrived: "c \<in> set (connections s) \<Longrightarrow> r \<notin> fst ` set (requests s) \<Longrightarrow>
    server_step ho s (Arrived r) (s\<lparr>requests := (r, c, Routing rq) # requests s\<rparr>)"
| rejected: "(r, c, Routing rq) \<in> set (requests s) \<Longrightarrow> route ho rq = Reject status message \<Longrightarrow>
    error_response ho status message () = (Ok resp :: (error, response) outcome, ()) \<Longrightarrow>
    server_step ho s (Answered r (rs_status resp)) (s\<lparr>requests := drop_request r (requests s)\<rparr>)"
| began: "(r, c, Routing rq) \<in> set (requests s) \<Longrightarrow> route ho rq = Simulate config \<Longrightarrow> 0 < free_predictions s \<Longrightarrow>
    server_step ho s (Began r)
      (s\<lparr>free_predictions := free_predictions s - 1,
        requests := (r, c, Predicting config) # drop_request r (requests s)\<rparr>)"
| busy: "(r, c, Routing rq) \<in> set (requests s) \<Longrightarrow> route ho rq = Simulate config \<Longrightarrow> free_predictions s = 0 \<Longrightarrow>
    error_response ho 503 ''A prediction is already in progress'' () = (Ok resp :: (error, response) outcome, ()) \<Longrightarrow>
    server_step ho s (Answered r (rs_status resp)) (s\<lparr>requests := drop_request r (requests s)\<rparr>)"
| predicted: "(r, c, Predicting config) \<in> set (requests s) \<Longrightarrow>
    simulate_response ho config result () = (Ok resp :: (error, response) outcome, ()) \<Longrightarrow>
    server_step ho s (Answered r (rs_status resp))
      (s\<lparr>free_predictions := free_predictions s + 1, requests := drop_request r (requests s)\<rparr>)"
| fetching: "(r, c, Routing rq) \<in> set (requests s) \<Longrightarrow> route ho rq = Snapshot number \<Longrightarrow>
    server_step ho s (Began r) (s\<lparr>requests := (r, c, Snapshotting number) # drop_request r (requests s)\<rparr>)"
| fetched: "(r, c, Snapshotting number) \<in> set (requests s) \<Longrightarrow>
    snapshot_response ho result () = (Ok resp :: (error, response) outcome, ()) \<Longrightarrow>
    server_step ho s (Answered r (rs_status resp)) (s\<lparr>requests := drop_request r (requests s)\<rparr>)"

inductive server_reachable :: "'b http_ops \<Rightarrow> 'b server \<Rightarrow> bool" for ho where
  start: "server_reachable ho server_new"
| step: "server_reachable ho s \<Longrightarrow> server_step ho s ev t \<Longrightarrow> server_reachable ho t"

definition server_ok :: "'b server \<Rightarrow> bool" where
  "server_ok s \<longleftrightarrow>
     length (connections s) + free_connections s = 25 \<and>
     length (filter predicting (requests s)) + free_predictions s = 1 \<and>
     distinct (List.map fst (requests s)) \<and> (\<forall>q \<in> set (requests s). fst (snd q) \<in> set (connections s)) \<and>
     distinct (connections s)"

lemma drop_request_predicting:
  assumes "distinct (List.map fst qs)" "q \<in> set qs"
  shows "length (filter predicting (drop_request (fst q) qs)) + (if predicting q then 1 else 0) =
    length (filter predicting qs)"
  using assms
proof (induction qs)
  case (Cons x qs)
  show ?case
  proof (cases "x = q")
    case True
    with Cons.prems have "fst q \<notin> fst ` set qs" by simp
    then have "\<forall>y \<in> set qs. fst y \<noteq> fst q" by (metis image_eqI)
    then have "drop_request (fst q) qs = qs" by (simp add: filter_id_conv)
    with True show ?thesis by simp
  next
    case False
    with Cons.prems have "fst x \<noteq> fst q" by auto
    with False Cons show ?thesis by auto
  qed
qed simp

lemma server_ok_new: "server_ok server_new"
  by (simp add: server_ok_def server_new_def)

lemma server_ok_drop:
  assumes "server_ok s" "(r, c, a) \<in> set (requests s)" "\<not> predicting (r, c, a)"
  shows "server_ok (s\<lparr>requests := drop_request r (requests s)\<rparr>)"
  using assms drop_request_predicting [of "requests s" "(r, c, a)"]
  by (auto simp: server_ok_def distinct_map inj_on_def)

lemma server_step_ok:
  assumes "server_step ho s ev t" "server_ok s"
  shows "server_ok t"
  using assms
proof (induction rule: server_step.induct)
  case (closed c s)
  have "length (filter (\<lambda>q. fst (snd q) = c \<and> predicting q) qs) +
      length (filter predicting (filter (\<lambda>q. fst (snd q) \<noteq> c) qs)) = length (filter predicting qs)"
    for qs :: "(nat \<times> nat \<times> 'b activity) list"
    by (induction qs) auto
  note predictions = this [of "requests s"]
  have "length (connections s) = Suc (length (remove1 c (connections s)))"
    using closed(1) by (simp add: length_remove1) (metis Suc_pred length_pos_if_in_set)
  with predictions closed show ?case by (auto simp: server_ok_def distinct_map inj_on_def)
next
  case (began r c rq s config)
  then have "length (filter predicting (requests s)) + free_predictions s = 1" by (simp add: server_ok_def)
  with began(3) have "length (filter predicting (requests s)) = 0" "free_predictions s = 1" by linarith+
  with drop_request_predicting [of "requests s" "(r, c, Routing rq)"] began show ?case
    by (auto simp: server_ok_def distinct_map inj_on_def)
next
  case (predicted r c config s result resp)
  then have "distinct (List.map fst (requests s))" "length (filter predicting (requests s)) + free_predictions s = 1"
    by (simp_all add: server_ok_def)
  with drop_request_predicting [OF this(1) predicted(1)]
  have "length (filter predicting (drop_request r (requests s))) = 0" "free_predictions s = 0"
    by (simp_all only: fst_conv predicting.simps if_True)
  with predicted show ?case by (auto simp: server_ok_def distinct_map inj_on_def)
next
  case (fetching r c rq s number)
  from drop_request_predicting [of "requests s" "(r, c, Routing rq)"] fetching show ?case
    by (auto simp: server_ok_def distinct_map inj_on_def)
next
  case (rejected r c rq s status message resp)
  show ?case by (rule server_ok_drop [OF rejected(4) rejected(1)]) simp
next
  case (busy r c rq s config resp)
  show ?case by (rule server_ok_drop [OF busy(5) busy(1)]) simp
next
  case (fetched r c number s result resp)
  show ?case by (rule server_ok_drop [OF fetched(3) fetched(1)]) simp
qed (auto simp: server_ok_def)

lemma server_reachable_ok: "server_reachable ho s \<Longrightarrow> server_ok s"
  by (induction rule: server_reachable.induct) (auto intro: server_ok_new server_step_ok)

lemma response_statuses:
  "error_response ho status message () = (Ok resp :: (error, response) outcome, ()) \<Longrightarrow> rs_status resp \<in> {status, 500}"
  "json_response ho result () = (Ok resp :: (error, response) outcome, ()) \<Longrightarrow> rs_status resp \<in> {200, 500}"
  by (auto simp: json_response_def error_response_def fallback_response_def ret_def panic_def Let_def
      split: if_splits option.splits)

lemma simulate_statuses:
  "simulate_response ho config result () = (Ok resp :: (error, response) outcome, ()) \<Longrightarrow> rs_status resp \<in> {200, 500, 504}"
  "snapshot_response ho result' () = (Ok resp :: (error, response) outcome, ()) \<Longrightarrow> rs_status resp \<in> {200, 500, 504}"
  by (auto simp: simulate_response_def snapshot_response_def split: option.splits sum.splits
      dest!: response_statuses)

lemma reject_statuses: "route ho rq = Reject status message \<Longrightarrow> status \<in> {400, 404, 413}"
  by (auto simp: route_def split: if_splits sum.splits body_error.splits option.splits)


text \<open>The responses do not depend on the state they are made in.\<close>

lemma error_response_state: "error_response ho status message s = (fst (error_response ho status message ()), s)"
  by (simp add: error_response_def fallback_response_def ret_def panic_def Let_def)

lemma json_response_state: "json_response ho result s = (fst (json_response ho result ()), s)"
  by (auto simp: json_response_def error_response_state [of ho _ _ s] fallback_response_def ret_def panic_def
      split: option.split)

lemma simulate_response_state: "simulate_response ho config result s = (fst (simulate_response ho config result ()), s)"
  by (auto simp: simulate_response_def error_response_state [of ho _ _ s] json_response_state [of ho _ s]
      split: option.split sum.split)

lemma snapshot_response_state: "snapshot_response ho result s = (fst (snapshot_response ho result ()), s)"
  by (auto simp: snapshot_response_def error_response_state [of ho _ _ s] json_response_state [of ho _ s]
      split: option.split sum.split)

lemma unit_run: "fst (m ()) = r \<longleftrightarrow> m () = (r, ())"
  by (cases "m ()") auto


subsection \<open>Instances\<close>

definition test_http :: "string http_ops" where
  "test_http =
     \<lparr>ho_parse_query = \<lambda>q. [(''block'', ''12'')], ho_collect = \<lambda>n b. if length b \<le> n then Inr b else Inl LengthLimitError,
      ho_parse_config = \<lambda>b. Some \<lparr>desired_validators = None, output_dir = None, balancing_iterations = 10,
        pcf_do_reduce = False, block_number = None, overrides = None, algorithm = SeqPhragmen\<rparr>,
      ho_to_vec = \<lambda>r. Some ''{}'', ho_status_ok = \<lambda>st. True\<rparr>"

definition test_simulate :: "string request" where
  "test_simulate = \<lparr>rq_method = POST, rq_path = ''/simulate'', rq_query = None, rq_body = ''{}''\<rparr>"

definition test_config :: predict_config where
  "test_config = the (ho_parse_config test_http ''{}'')"

text \<open>Two requests of one connection, the first with its prediction running.\<close>

definition busy_server :: "string server" where
  "busy_server =
     \<lparr>free_connections = 24, free_predictions = 0, connections = [5],
      requests = [(2, 5, Routing test_simulate), (1, 5, Predicting test_config)]\<rparr>"

lemma test_route: "route test_http test_simulate = Simulate test_config"
  by (simp add: route_def test_simulate_def test_http_def test_config_def query_block_number_def max_body_size_def)

lemma busy_server_reachable: "server_reachable test_http busy_server"
proof -
  let ?s0 = "server_new :: string server"
  let ?s1 = "?s0\<lparr>free_connections := 24, connections := [5]\<rparr>"
  let ?s2 = "?s1\<lparr>requests := [(1, 5, Routing test_simulate)]\<rparr>"
  let ?s3 = "?s2\<lparr>free_predictions := 0, requests := [(1, 5, Predicting test_config)]\<rparr>"
  have "server_step test_http ?s0 (Accepted 5) ?s1"
    using server_step.accepted [of ?s0 5 test_http] by (simp add: server_new_def)
  from server_reachable.step [OF server_reachable.start this] have 1: "server_reachable test_http ?s1" .
  have "server_step test_http ?s1 (Arrived 1) ?s2"
    using server_step.arrived [of 5 ?s1 1 test_http test_simulate] by (simp add: server_new_def)
  from server_reachable.step [OF 1 this] have 2: "server_reachable test_http ?s2" .
  have "server_step test_http ?s2 (Began 1) ?s3"
    using server_step.began [of 1 5 test_simulate ?s2 test_http test_config] test_route by (simp add: server_new_def)
  from server_reachable.step [OF 2 this] have 3: "server_reachable test_http ?s3" .
  have "server_step test_http ?s3 (Arrived 2) busy_server"
    using server_step.arrived [of 5 ?s3 2 test_http test_simulate] by (simp add: server_new_def busy_server_def)
  from server_reachable.step [OF 3 this] show ?thesis .
qed


text \<open>A prediction that fails, on a server that is free and on one that is busy.\<close>

definition failing_handler :: "(unit, nat, unit) server_handler" where
  "failing_handler = \<lparr>sh_predict = \<lambda>config. throw AccountDoesNotExists, sh_snapshot = \<lambda>n. throw AccountDoesNotExists\<rparr>"

definition test_server_sys :: "nat \<Rightarrow> (unit, nat) server_sys" where
  "test_server_sys k = \<lparr>world = (), trace = [], params = initial_params, prediction_permits = k\<rparr>"


end
