(* ===== verification/Metrics.thy ===== *)
theory Metrics
  imports Chain_Api
begin

text \<open>
  The metrics (\<open>src/src/prometheus.rs\<close>): the lazily registered gauges and
  counters, their forced registration at the start, the functions that update
  them, and the endpoint.  Registering a name twice is a panic (\<open>unwrap\<close>).  The
  value of a metric is the integer that is converted to a float; help texts and
  the text encoding are left out.
\<close>

subsection \<open>The metrics\<close>

datatype metric_kind = GaugeMetric | CounterMetric

datatype metric_id =
    MINED_SOLUTION_DURATION
  | SUBMIT_SOLUTION_AND_WATCH_DURATION
  | BALANCE
  | SCORE_MINIMAL_STAKE
  | SCORE_SUM_STAKE
  | SCORE_SUM_STAKE_SQUARED
  | RUNTIME_UPGRADES
  | SUBMISSIONS_STARTED
  | SUBMISSIONS_SUCCESS
  | SUBMISSIONS_SKIPPED_NOT_COMPETITIVE
  | CLEAR_OLD_ROUNDS_CLEANUP_SUCCESS
  | CLEAR_OLD_ROUNDS_CLEANUP_FAILURES
  | CLEAR_OLD_ROUNDS_OLD_SUBMISSIONS_FOUND
  | CLEAR_OLD_ROUNDS_OLD_SUBMISSIONS_CLEARED
  | CLEAR_OLD_ROUNDS_CLEANUP_DURATION
  | ERA_PRUNING_SUBMISSIONS_SUCCESS
  | ERA_PRUNING_SUBMISSIONS_FAILURES
  | ERA_PRUNING_STORAGE_MAP_SIZE
  | LISTENER_SUBSCRIPTION_STALLS
  | ENDPOINT_SWITCHES
  | STORAGE_QUERY_DURATION
  | BLOCK_STATE_DURATION
  | BLOCK_DETAILS_DURATION
  | CHECK_EXISTING_SUBMISSION_DURATION
  | BAIL_DURATION
  | BALANCE_FETCH_DURATION
  | PHASE_CHECK_DURATION
  | SCORE_CHECK_DURATION
  | MISSING_PAGES_DURATION
  | LAST_BLOCK_PROCESSING_TIME
  | BLOCK_PROCESSING_STALLS
  | MINING_TIMEOUTS
  | CHECK_EXISTING_SUBMISSION_TIMEOUTS
  | BAIL_TIMEOUTS
  | SUBMIT_TIMEOUTS
  | BALANCE_FETCH_TIMEOUTS
  | PHASE_CHECK_TIMEOUTS
  | SCORE_CHECK_TIMEOUTS
  | MISSING_PAGES_TIMEOUTS
  | ERA_PRUNING_TIMEOUTS
  | CONNECTION_TIMEOUTS

text \<open>The statics: each is a cell with the kind and the name it registers.\<close>

definition solution_statics :: "(metric_id \<times> metric_kind \<times> string) list" where
  "solution_statics =
    [(MINED_SOLUTION_DURATION, GaugeMetric, ''staking_miner_mining_duration_ms''),
     (SUBMIT_SOLUTION_AND_WATCH_DURATION, GaugeMetric, ''staking_miner_submit_and_watch_duration_ms''),
     (BALANCE, GaugeMetric, ''staking_miner_balance''),
     (SCORE_MINIMAL_STAKE, GaugeMetric, ''staking_miner_score_minimal_stake''),
     (SCORE_SUM_STAKE, GaugeMetric, ''staking_miner_score_sum_stake''),
     (SCORE_SUM_STAKE_SQUARED, GaugeMetric, ''staking_miner_score_sum_stake_squared''),
     (RUNTIME_UPGRADES, CounterMetric, ''staking_miner_runtime_upgrades''),
     (SUBMISSIONS_STARTED, CounterMetric, ''staking_miner_submissions_started''),
     (SUBMISSIONS_SUCCESS, CounterMetric, ''staking_miner_submissions_success''),
     (SUBMISSIONS_SKIPPED_NOT_COMPETITIVE, CounterMetric, ''staking_miner_submissions_skipped_not_competitive_total'')]"

definition cleanup_statics :: "(metric_id \<times> metric_kind \<times> string) list" where
  "cleanup_statics =
    [(CLEAR_OLD_ROUNDS_CLEANUP_SUCCESS, CounterMetric, ''staking_miner_clear_old_rounds_cleanup_success_total''),
     (CLEAR_OLD_ROUNDS_CLEANUP_FAILURES, CounterMetric, ''staking_miner_clear_old_rounds_cleanup_failures_total''),
     (CLEAR_OLD_ROUNDS_OLD_SUBMISSIONS_FOUND, GaugeMetric, ''staking_miner_clear_old_rounds_old_submissions_found''),
     (CLEAR_OLD_ROUNDS_OLD_SUBMISSIONS_CLEARED, GaugeMetric, ''staking_miner_clear_old_rounds_old_submissions_cleared''),
     (CLEAR_OLD_ROUNDS_CLEANUP_DURATION, GaugeMetric, ''staking_miner_clear_old_rounds_cleanup_duration_ms''),
     (ERA_PRUNING_SUBMISSIONS_SUCCESS, CounterMetric, ''staking_miner_era_pruning_submissions_success_total''),
     (ERA_PRUNING_SUBMISSIONS_FAILURES, CounterMetric, ''staking_miner_era_pruning_submissions_failures_total''),
     (ERA_PRUNING_STORAGE_MAP_SIZE, GaugeMetric, ''staking_miner_era_pruning_storage_map_size'')]"

definition listener_statics :: "(metric_id \<times> metric_kind \<times> string) list" where
  "listener_statics =
    [(LISTENER_SUBSCRIPTION_STALLS, CounterMetric, ''staking_miner_listener_subscription_stalls_total''),
     (ENDPOINT_SWITCHES, CounterMetric, ''staking_miner_endpoint_switches_total''),
     (STORAGE_QUERY_DURATION, GaugeMetric, ''staking_miner_storage_query_duration_ms''),
     (BLOCK_STATE_DURATION, GaugeMetric, ''staking_miner_block_state_duration_ms''),
     (BLOCK_DETAILS_DURATION, GaugeMetric, ''staking_miner_block_details_duration_ms''),
     (CHECK_EXISTING_SUBMISSION_DURATION, GaugeMetric, ''staking_miner_check_existing_submission_duration_ms''),
     (BAIL_DURATION, GaugeMetric, ''staking_miner_bail_duration_ms''),
     (BALANCE_FETCH_DURATION, GaugeMetric, ''staking_miner_balance_fetch_duration_ms''),
     (PHASE_CHECK_DURATION, GaugeMetric, ''staking_miner_phase_check_duration_ms''),
     (SCORE_CHECK_DURATION, GaugeMetric, ''staking_miner_score_check_duration_ms''),
     (MISSING_PAGES_DURATION, GaugeMetric, ''staking_miner_missing_pages_duration_ms''),
     (LAST_BLOCK_PROCESSING_TIME, GaugeMetric, ''staking_miner_last_block_processing_timestamp'')]"

definition timeout_statics :: "(metric_id \<times> metric_kind \<times> string) list" where
  "timeout_statics =
    [(BLOCK_PROCESSING_STALLS, CounterMetric, ''staking_miner_block_processing_stalls_total''),
     (MINING_TIMEOUTS, CounterMetric, ''staking_miner_mining_timeouts_total''),
     (CHECK_EXISTING_SUBMISSION_TIMEOUTS, CounterMetric, ''staking_miner_check_existing_submission_timeouts_total''),
     (BAIL_TIMEOUTS, CounterMetric, ''staking_miner_bail_timeouts_total''),
     (SUBMIT_TIMEOUTS, CounterMetric, ''staking_miner_submit_timeouts_total''),
     (BALANCE_FETCH_TIMEOUTS, CounterMetric, ''staking_miner_balance_fetch_timeouts_total''),
     (PHASE_CHECK_TIMEOUTS, CounterMetric, ''staking_miner_phase_check_timeouts_total''),
     (SCORE_CHECK_TIMEOUTS, CounterMetric, ''staking_miner_score_check_timeouts_total''),
     (MISSING_PAGES_TIMEOUTS, CounterMetric, ''staking_miner_missing_pages_timeouts_total''),
     (ERA_PRUNING_TIMEOUTS, CounterMetric, ''staking_miner_era_pruning_timeouts_total''),
     (CONNECTION_TIMEOUTS, CounterMetric, ''staking_miner_connection_timeouts_total'')]"

definition statics :: "(metric_id \<times> metric_kind \<times> string) list" where
  "statics = solution_statics @ cleanup_statics @ listener_statics @ timeout_statics"

definition static_info :: "metric_id \<Rightarrow> metric_kind \<times> string" where
  "static_info i = (case map_of statics i of Some info \<Rightarrow> info | None \<Rightarrow> (GaugeMetric, []))"

subsection \<open>The registry\<close>

record registry =
  forced :: "metric_id list"
  families :: "(string \<times> nat) list"

type_synonym 'a registry_prog = "(registry, error, 'a) io"

definition empty_registry :: registry where
  "empty_registry = \<lparr>forced = [], families = []\<rparr>"

text \<open>The first access of a cell registers its metric.\<close>

definition force :: "metric_id \<Rightarrow> unit registry_prog" where
  "force i = (\<lambda>r.
     let name = snd (static_info i) in
     if i \<in> set (forced r) then (Ok (), r)
     else if name \<in> fst ` set (families r) then (Panic ''called `Result::unwrap()` on an `Err` value: AlreadyReg'', r)
     else (Ok (), \<lparr>forced = forced r @ [i], families = families r @ [(name, 0)]\<rparr>))"

definition change :: "metric_id \<Rightarrow> (nat \<Rightarrow> nat) \<Rightarrow> unit registry_prog" where
  "change i f = io_seq (force i) (io_modify (\<lambda>r. r\<lparr>families :=
     List.map (\<lambda>(name, x). (name, if name = snd (static_info i) then f x else x)) (families r)\<rparr>))"

definition inc :: "metric_id \<Rightarrow> unit registry_prog" where
  "inc i = change i (\<lambda>x. x + 1)"

definition set_gauge :: "metric_id \<Rightarrow> nat \<Rightarrow> unit registry_prog" where
  "set_gauge i v = change i (\<lambda>_. v)"

definition metrics_init :: "unit registry_prog" where
  "metrics_init = io_fold (\<lambda>i _. force i)
    [MINED_SOLUTION_DURATION, SUBMIT_SOLUTION_AND_WATCH_DURATION, BALANCE, SCORE_MINIMAL_STAKE,
     SCORE_SUM_STAKE, SCORE_SUM_STAKE_SQUARED, RUNTIME_UPGRADES, SUBMISSIONS_STARTED, SUBMISSIONS_SUCCESS,
     SUBMISSIONS_SKIPPED_NOT_COMPETITIVE, CLEAR_OLD_ROUNDS_CLEANUP_SUCCESS, CLEAR_OLD_ROUNDS_CLEANUP_FAILURES,
     CLEAR_OLD_ROUNDS_OLD_SUBMISSIONS_FOUND, CLEAR_OLD_ROUNDS_OLD_SUBMISSIONS_CLEARED,
     CLEAR_OLD_ROUNDS_CLEANUP_DURATION, ERA_PRUNING_SUBMISSIONS_SUCCESS, ERA_PRUNING_SUBMISSIONS_FAILURES,
     ERA_PRUNING_STORAGE_MAP_SIZE, LISTENER_SUBSCRIPTION_STALLS, ENDPOINT_SWITCHES, STORAGE_QUERY_DURATION,
     BLOCK_STATE_DURATION, BLOCK_DETAILS_DURATION, CHECK_EXISTING_SUBMISSION_DURATION, BAIL_DURATION,
     BALANCE_FETCH_DURATION, PHASE_CHECK_DURATION, SCORE_CHECK_DURATION, MISSING_PAGES_DURATION,
     LAST_BLOCK_PROCESSING_TIME, BLOCK_PROCESSING_STALLS, MINING_TIMEOUTS, CHECK_EXISTING_SUBMISSION_TIMEOUTS,
     BAIL_TIMEOUTS, SUBMIT_TIMEOUTS, BALANCE_FETCH_TIMEOUTS, PHASE_CHECK_TIMEOUTS, SCORE_CHECK_TIMEOUTS,
     MISSING_PAGES_TIMEOUTS, ERA_PRUNING_TIMEOUTS, CONNECTION_TIMEOUTS] ()"

text \<open>The functions of the module, with their arguments.\<close>

datatype metric_call =
    OnRuntimeUpgrade
  | SetBalance u128
  | SetScore election_score
  | ObserveSubmitAndWatchDuration nat
  | ObserveMinedSolutionDuration nat
  | OnSubmissionStarted
  | OnSubmissionSuccess
  | OnSubmissionSkippedNotCompetitive
  | OnClearOldRoundsCleanupSuccess u32
  | OnClearOldRoundsCleanupFailure
  | SetClearOldRoundsOldSubmissionsFound u32
  | ObserveClearOldRoundsCleanupDuration nat
  | OnEraPruningSubmissionSuccess
  | OnEraPruningSubmissionFailure
  | SetEraPruningStorageMapSize u32
  | OnListenerSubscriptionStall
  | OnEndpointSwitch
  | ObserveStorageQueryDuration nat
  | ObserveBlockStateDuration nat
  | ObserveBlockDetailsDuration nat
  | ObserveCheckExistingSubmissionDuration nat
  | ObserveBailDuration nat
  | SetLastBlockProcessingTime "u64 option"
  | OnBlockProcessingStall
  | OnMiningTimeout
  | OnCheckExistingSubmissionTimeout
  | OnBailTimeout
  | OnSubmitTimeout
  | ObserveBalanceFetchDuration nat
  | OnBalanceFetchTimeout
  | ObservePhaseCheckDuration nat
  | OnPhaseCheckTimeout
  | ObserveScoreCheckDuration nat
  | OnScoreCheckTimeout
  | ObserveMissingPagesDuration nat
  | OnMissingPagesTimeout
  | OnEraPruningTimeout
  | OnConnectionTimeout

fun perform :: "metric_call \<Rightarrow> unit registry_prog" where
  "perform OnRuntimeUpgrade = inc RUNTIME_UPGRADES"
| "perform (SetBalance v) = set_gauge BALANCE (unat v)"
| "perform (SetScore score) = io_seq (set_gauge SCORE_MINIMAL_STAKE (unat (minimal_stake score))) (io_seq (set_gauge SCORE_SUM_STAKE (unat (sum_stake score))) (set_gauge SCORE_SUM_STAKE_SQUARED (unat (sum_stake_squared score))))"
| "perform (ObserveSubmitAndWatchDuration v) = set_gauge SUBMIT_SOLUTION_AND_WATCH_DURATION v"
| "perform (ObserveMinedSolutionDuration v) = set_gauge MINED_SOLUTION_DURATION v"
| "perform OnSubmissionStarted = inc SUBMISSIONS_STARTED"
| "perform OnSubmissionSuccess = inc SUBMISSIONS_SUCCESS"
| "perform OnSubmissionSkippedNotCompetitive = inc SUBMISSIONS_SKIPPED_NOT_COMPETITIVE"
| "perform (OnClearOldRoundsCleanupSuccess v) = io_seq (inc CLEAR_OLD_ROUNDS_CLEANUP_SUCCESS) (set_gauge CLEAR_OLD_ROUNDS_OLD_SUBMISSIONS_CLEARED (unat v))"
| "perform OnClearOldRoundsCleanupFailure = inc CLEAR_OLD_ROUNDS_CLEANUP_FAILURES"
| "perform (SetClearOldRoundsOldSubmissionsFound v) = set_gauge CLEAR_OLD_ROUNDS_OLD_SUBMISSIONS_FOUND (unat v)"
| "perform (ObserveClearOldRoundsCleanupDuration v) = set_gauge CLEAR_OLD_ROUNDS_CLEANUP_DURATION v"
| "perform OnEraPruningSubmissionSuccess = inc ERA_PRUNING_SUBMISSIONS_SUCCESS"
| "perform OnEraPruningSubmissionFailure = inc ERA_PRUNING_SUBMISSIONS_FAILURES"
| "perform (SetEraPruningStorageMapSize v) = set_gauge ERA_PRUNING_STORAGE_MAP_SIZE (unat v)"
| "perform OnListenerSubscriptionStall = inc LISTENER_SUBSCRIPTION_STALLS"
| "perform OnEndpointSwitch = inc ENDPOINT_SWITCHES"
| "perform (ObserveStorageQueryDuration v) = set_gauge STORAGE_QUERY_DURATION v"
| "perform (ObserveBlockStateDuration v) = set_gauge BLOCK_STATE_DURATION v"
| "perform (ObserveBlockDetailsDuration v) = set_gauge BLOCK_DETAILS_DURATION v"
| "perform (ObserveCheckExistingSubmissionDuration v) = set_gauge CHECK_EXISTING_SUBMISSION_DURATION v"
| "perform (ObserveBailDuration v) = set_gauge BAIL_DURATION v"
| "perform (SetLastBlockProcessingTime now) = set_gauge LAST_BLOCK_PROCESSING_TIME (case now of Some secs \<Rightarrow> unat secs | None \<Rightarrow> 0)"
| "perform OnBlockProcessingStall = inc BLOCK_PROCESSING_STALLS"
| "perform OnMiningTimeout = inc MINING_TIMEOUTS"
| "perform OnCheckExistingSubmissionTimeout = inc CHECK_EXISTING_SUBMISSION_TIMEOUTS"
| "perform OnBailTimeout = inc BAIL_TIMEOUTS"
| "perform OnSubmitTimeout = inc SUBMIT_TIMEOUTS"
| "perform (ObserveBalanceFetchDuration v) = set_gauge BALANCE_FETCH_DURATION v"
| "perform OnBalanceFetchTimeout = inc BALANCE_FETCH_TIMEOUTS"
| "perform (ObservePhaseCheckDuration v) = set_gauge PHASE_CHECK_DURATION v"
| "perform OnPhaseCheckTimeout = inc PHASE_CHECK_TIMEOUTS"
| "perform (ObserveScoreCheckDuration v) = set_gauge SCORE_CHECK_DURATION v"
| "perform OnScoreCheckTimeout = inc SCORE_CHECK_TIMEOUTS"
| "perform (ObserveMissingPagesDuration v) = set_gauge MISSING_PAGES_DURATION v"
| "perform OnMissingPagesTimeout = inc MISSING_PAGES_TIMEOUTS"
| "perform OnEraPruningTimeout = inc ERA_PRUNING_TIMEOUTS"
| "perform OnConnectionTimeout = inc CONNECTION_TIMEOUTS"

lemmas [run_defs] = force_def change_def inc_def set_gauge_def metrics_init_def

subsection \<open>What a scrape shows\<close>

definition metric_name :: "metric_id \<Rightarrow> string" where
  "metric_name i = snd (static_info i)"

definition is_counter :: "metric_id \<Rightarrow> bool" where
  "is_counter i \<longleftrightarrow> fst (static_info i) = CounterMetric"

lemma static_known: "map_of statics i \<noteq> None"
  by (cases i) (simp_all add: statics_def solution_statics_def cleanup_statics_def listener_statics_def
      timeout_statics_def)

lemma distinct_names: "distinct (List.map (\<lambda>x. snd (snd x)) statics)"
  by code_simp

lemma distinct_ids: "distinct (List.map fst statics)"
  by code_simp

lemma static_member: "(i, static_info i) \<in> set statics"
  using static_known [of i] by (auto simp: static_info_def split: option.split dest: map_of_SomeD)

lemma metric_name_eq [simp]: "metric_name i = metric_name j \<longleftrightarrow> i = j"
proof
  assume "metric_name i = metric_name j"
  then have "(i, static_info i) = (j, static_info j)"
    using distinct_names static_member [of i] static_member [of j]
    by (intro inj_onD [of "\<lambda>x. snd (snd x)" "set statics"]) (simp_all add: metric_name_def distinct_map)
  then show "i = j" by simp
qed simp

text \<open>A registry in which the cells \<open>is\<close> are registered, with values.\<close>

definition exposing :: "metric_id list \<Rightarrow> (metric_id \<Rightarrow> nat) \<Rightarrow> registry" where
  "exposing is v = \<lparr>forced = is, families = List.map (\<lambda>i. (metric_name i, v i)) is\<rparr>"

lemma force_exposing:
  "force i (exposing is (\<lambda>_. 0)) = (Ok (), exposing (if i \<in> set is then is else is @ [i]) (\<lambda>_. 0))"
  by (auto simp: force_def exposing_def Let_def metric_name_def [symmetric])

lemma init_exposing:
  "distinct (is @ js) \<Longrightarrow> io_fold (\<lambda>i _. force i) js () (exposing is (\<lambda>_. 0)) = (Ok (), exposing (is @ js) (\<lambda>_. 0))"
proof (induction js arbitrary: "is")
  case (Cons j js)
  then show ?case using Cons.IH [of "is @ [j]"] by (simp add: io_bind_def force_exposing)
qed (simp add: ret_def)

lemma metrics_init_run: "metrics_init empty_registry = (Ok (), exposing (List.map fst statics) (\<lambda>_. 0))"
proof -
  have "metrics_init = io_fold (\<lambda>i _. force i) (List.map fst statics) ()"
    unfolding metrics_init_def statics_def solution_statics_def cleanup_statics_def listener_statics_def
      timeout_statics_def by simp
  then show ?thesis
    using init_exposing [of "[]" "List.map fst statics"] distinct_ids
    by (simp add: exposing_def empty_registry_def)
qed

lemma all_ids: "i \<in> set (List.map fst statics)"
  using static_member [of i] by force

lemma change_exposing:
  "change i f (exposing (List.map fst statics) v) = (Ok (), exposing (List.map fst statics) (v(i := f (v i))))"
  using all_ids [of i]
  by (auto simp: change_def io_bind_def io_modify_def force_def exposing_def metric_name_def [symmetric])

text \<open>An update of the metrics that adds at most \<open>k\<close> to each counter.\<close>

definition updates :: "unit registry_prog \<Rightarrow> nat \<Rightarrow> bool" where
  "updates m k \<longleftrightarrow> (\<forall>v. \<exists>v'. m (exposing (List.map fst statics) v) = (Ok (), exposing (List.map fst statics) v') \<and>
     (\<forall>i. is_counter i \<longrightarrow> v i \<le> v' i \<and> v' i \<le> v i + k))"

lemma updates_inc: "updates (inc i) 1"
  by (auto simp: updates_def inc_def change_exposing)

lemma updates_set: "\<not> is_counter i \<Longrightarrow> updates (set_gauge i x) 0"
  by (auto simp: updates_def set_gauge_def change_exposing)

lemma updates_ret: "updates (ret ()) 0"
  by (auto simp: updates_def ret_def)

lemma updates_seq:
  assumes "updates m j" and "updates n k"
  shows "updates (io_seq m n) (j + k)"
  unfolding updates_def
proof
  fix v
  from assms(1) obtain v1 where 1: "m (exposing (List.map fst statics) v) = (Ok (), exposing (List.map fst statics) v1)"
    "\<forall>i. is_counter i \<longrightarrow> v i \<le> v1 i \<and> v1 i \<le> v i + j" unfolding updates_def by blast
  from assms(2) obtain v2 where 2: "n (exposing (List.map fst statics) v1) = (Ok (), exposing (List.map fst statics) v2)"
    "\<forall>i. is_counter i \<longrightarrow> v1 i \<le> v2 i \<and> v2 i \<le> v1 i + k" unfolding updates_def by blast
  have "v i \<le> v2 i \<and> v2 i \<le> v i + (j + k)" if "is_counter i" for i
    using 1(2) 2(2) that by (metis add.assoc add_le_mono1 le_trans)
  with 1(1) 2(1) show "\<exists>v'. io_seq m n (exposing (List.map fst statics) v) = (Ok (), exposing (List.map fst statics) v') \<and>
      (\<forall>i. is_counter i \<longrightarrow> v i \<le> v' i \<and> v' i \<le> v i + (j + k))"
    by (auto simp: io_bind_def)
qed

lemma updates_mono: "updates m j \<Longrightarrow> j \<le> k \<Longrightarrow> updates m k"
  unfolding updates_def by (meson add_le_mono le_refl le_trans)

lemma gauges [simp]:
    "\<not> is_counter MINED_SOLUTION_DURATION"
    "\<not> is_counter SUBMIT_SOLUTION_AND_WATCH_DURATION"
    "\<not> is_counter BALANCE"
    "\<not> is_counter SCORE_MINIMAL_STAKE"
    "\<not> is_counter SCORE_SUM_STAKE"
    "\<not> is_counter SCORE_SUM_STAKE_SQUARED"
    "\<not> is_counter CLEAR_OLD_ROUNDS_OLD_SUBMISSIONS_FOUND"
    "\<not> is_counter CLEAR_OLD_ROUNDS_OLD_SUBMISSIONS_CLEARED"
    "\<not> is_counter CLEAR_OLD_ROUNDS_CLEANUP_DURATION"
    "\<not> is_counter ERA_PRUNING_STORAGE_MAP_SIZE"
    "\<not> is_counter STORAGE_QUERY_DURATION"
    "\<not> is_counter BLOCK_STATE_DURATION"
    "\<not> is_counter BLOCK_DETAILS_DURATION"
    "\<not> is_counter CHECK_EXISTING_SUBMISSION_DURATION"
    "\<not> is_counter BAIL_DURATION"
    "\<not> is_counter BALANCE_FETCH_DURATION"
    "\<not> is_counter PHASE_CHECK_DURATION"
    "\<not> is_counter SCORE_CHECK_DURATION"
    "\<not> is_counter MISSING_PAGES_DURATION"
    "\<not> is_counter LAST_BLOCK_PROCESSING_TIME"
  by (simp_all add: is_counter_def static_info_def statics_def solution_statics_def cleanup_statics_def
      listener_statics_def timeout_statics_def)

lemma updates_set_score: "updates (perform (SetScore score)) 1"
  unfolding perform.simps
  by (rule updates_mono, rule updates_seq [OF updates_set updates_seq [OF updates_set updates_set]]) simp_all

lemma updates_cleanup: "updates (perform (OnClearOldRoundsCleanupSuccess n)) 1"
  unfolding perform.simps by (rule updates_mono, rule updates_seq [OF updates_inc updates_set]) simp_all

lemma updates_perform: "updates (perform c) 1"
proof -
  have set1: "updates (set_gauge i x) 1" if "\<not> is_counter i" for i x
    using updates_mono [OF updates_set [OF that]] by simp
  show ?thesis
    by (cases c; simp only: perform.simps)
      (simp_all only: updates_inc set1 gauges not_False_eq_True updates_set_score [unfolded perform.simps]
        updates_cleanup [unfolded perform.simps])
qed

definition perform_all :: "metric_call list \<Rightarrow> unit registry_prog" where
  "perform_all cs = io_fold (\<lambda>c _. perform c) cs ()"

lemma updates_perform_all: "updates (perform_all cs) (length cs)"
proof (induction cs)
  case (Cons c cs)
  have "perform_all (c # cs) = io_seq (perform c) (perform_all cs)" by (simp add: perform_all_def)
  with updates_seq [OF updates_perform Cons.IH, of c] show ?case by simp
qed (simp add: perform_all_def updates_ret)

definition shown :: "registry \<Rightarrow> metric_id \<Rightarrow> nat option" where
  "shown r i = map_of (families r) (metric_name i)"

lemma shown_exposing: "shown (exposing is v) i = (if i \<in> set is then Some (v i) else None)"
  by (induction "is") (auto simp: shown_def exposing_def)

lemma names_exposing: "List.map fst (families (exposing (List.map fst statics) v)) = List.map (\<lambda>x. snd (snd x)) statics"
proof -
  have "metric_name i = snd info" if "(i, info) \<in> set statics" for i info
    using map_of_is_SomeI [OF distinct_ids that] by (simp add: metric_name_def static_info_def)
  then show ?thesis by (auto simp: exposing_def)
qed

text \<open>C29. The metrics can be scraped from the start: forcing them registers all of
  them under distinct names with value 0 and does not panic.  Whatever is called
  afterwards does not panic either, shows the same names, and increases each
  counter by at most one per call and never decreases it.\<close>

theorem metrics_exposed:
  "\<exists>r t u. metrics_init empty_registry = (Ok (), r) \<and> perform_all cs r = (Ok (), t) \<and> perform_all cs' t = (Ok (), u) \<and>
     List.map snd (families r) = replicate 41 0 \<and> distinct (List.map fst (families r)) \<and>
     List.map fst (families t) = List.map fst (families r) \<and> List.map fst (families u) = List.map fst (families r) \<and>
     (\<forall>i. is_counter i \<longrightarrow> (\<exists>a b. shown t i = Some a \<and> shown u i = Some b \<and> a \<le> b \<and> b \<le> a + length cs'))"
proof -
  let ?ids = "List.map fst statics"
  obtain v where v: "perform_all cs (exposing ?ids (\<lambda>_. 0)) = (Ok (), exposing ?ids v)"
    using updates_perform_all [of cs] unfolding updates_def by blast
  obtain w where w: "perform_all cs' (exposing ?ids v) = (Ok (), exposing ?ids w)"
    "\<forall>i. is_counter i \<longrightarrow> v i \<le> w i \<and> w i \<le> v i + length cs'"
    using updates_perform_all [of cs'] unfolding updates_def by blast
  have "length statics = 41"
    by (simp add: statics_def solution_statics_def cleanup_statics_def listener_statics_def timeout_statics_def)
  then have zero: "List.map snd (families (exposing ?ids (\<lambda>_. 0))) = replicate 41 0"
    by (simp add: exposing_def comp_def map_replicate_const)
  show ?thesis
    by (rule exI [of _ "exposing ?ids (\<lambda>_. 0)"], rule exI [of _ "exposing ?ids v"], rule exI [of _ "exposing ?ids w"])
      (simp add: metrics_init_run v w zero names_exposing distinct_names shown_exposing all_ids del: set_map list.map_comp)
qed

theorem metrics_exposed_witness:
  "\<exists>r t u. metrics_init empty_registry = (Ok (), r) \<and> perform_all [OnSubmissionStarted] r = (Ok (), t) \<and>
     perform_all [OnSubmissionSuccess, OnSubmitTimeout] t = (Ok (), u) \<and> is_counter SUBMISSIONS_SUCCESS \<and>
     (\<exists>a b. shown t SUBMISSIONS_SUCCESS = Some a \<and> shown u SUBMISSIONS_SUCCESS = Some b \<and> a \<le> b \<and> b \<le> a + 2)"
proof -
  have "is_counter SUBMISSIONS_SUCCESS"
    by (simp add: is_counter_def static_info_def statics_def solution_statics_def)
  with metrics_exposed [of "[OnSubmissionStarted]" "[OnSubmissionSuccess, OnSubmitTimeout]"] show ?thesis by fastforce
qed

end
