(* ===== verification/Startup.thy ===== *)
theory Startup
  imports Monitor Server Metrics
begin

text \<open>
  The process as a whole (\<open>src/src/main.rs\<close>; \<open>server_cmd\<close> and \<open>serve\<close> in
  \<open>src/src/commands/server.rs\<close>; the endpoint of \<open>src/src/prometheus.rs\<close>):
  connecting and loading the constants of the chain, choosing the command, and
  the signals and failures that end it.
\<close>

subsection \<open>Commands\<close>

record server_config =
  listen :: string
  port :: u16

datatype command = MonitorCommand monitor_config | InfoCommand | PredictCommand predict_config | ServerCommand server_config

definition legacy_backend :: "command \<Rightarrow> bool" where
  "legacy_backend cmd =
     (case cmd of PredictCommand _ \<Rightarrow> True | ServerCommand _ \<Rightarrow> True | _ \<Rightarrow> False)"

text \<open>
  The node behind a client: its current block, the bytes of \<open>Core_version\<close> with
  the spec name they decode to, and its constants.
\<close>

record ('w, 'c, 'x) start_env =
  se_connect :: "('w, 'c) connector"
  se_at_current_block :: "'c \<Rightarrow> ('w, at_block) ext"
  se_core_version :: "'c \<Rightarrow> at_block \<Rightarrow> ('w, string raw_value) ext"
  se_constants :: "'x constants_api"

text \<open>An outcome as a program.\<close>

definition io_outcome :: "('e, 'a) outcome \<Rightarrow> ('s, 'e, 'a) io" where
  "io_outcome r = (\<lambda>s. (r, s))"

definition start_up :: "(client_event \<Rightarrow> 'v) \<Rightarrow> ('w, 'c, 'x) start_env \<Rightarrow> string \<Rightarrow> command \<Rightarrow>
    ('w, 'v, 'm, 'c client \<times> chain) params_prog" where
  "start_up ev env uri cmd =
     io_bind (client_new ev (se_connect env) uri (legacy_backend cmd)) (\<lambda>client.
     io_bind (await (se_at_current_block env (chain_api client))) (\<lambda>at.
     io_bind (await (se_core_version env (chain_api client) at)) (\<lambda>version_bytes.
     io_bind (decode_raw version_bytes) (\<lambda>spec_name.
     io_bind (io_outcome (chain_try_from spec_name)) (\<lambda>chain.
     io_bind (await (se_at_current_block env (chain_api client))) (\<lambda>at'.
     io_seq (update_metadata_constants (se_constants env) at')
     (ret (client, chain))))))))"

subsection \<open>The server command\<close>

text \<open>Parsing of the listen address and binding to it.\<close>

record ('w, 'a) socket_ops =
  so_parse :: "string \<Rightarrow> string + 'a"
  so_show :: "'a \<Rightarrow> u16 \<Rightarrow> string"
  so_bind :: "'a \<Rightarrow> u16 \<Rightarrow> 'w \<Rightarrow> (string, unit) outcome \<times> 'w"

definition serve_bind :: "('w, 'a) socket_ops \<Rightarrow> server_config \<Rightarrow> ('w, 'v, 'm, unit) prog" where
  "serve_bind ops config =
     (case so_parse ops (listen config) of
        Inl e \<Rightarrow> throw (OtherError (''Invalid listen address '' @ [CHR 0x27] @ listen config @ [CHR 0x27] @ '': '' @ e))
      | Inr ip \<Rightarrow>
          io_map_err (\<lambda>e. OtherError (''Failed to bind to '' @ so_show ops ip (port config) @ '': '' @ e))
            (call (so_bind ops ip (port config))))"

text \<open>Once bound the server accepts connections for ever; the semaphores are never closed.\<close>

definition server_cmd :: "('w, 'a) socket_ops \<Rightarrow> server_config \<Rightarrow> ('w, 'v, 'm, unit) prog" where
  "server_cmd ops config = io_seq (serve_bind ops config) (io_outcome Pending)"

subsection \<open>The end of the process\<close>

text \<open>What wakes the process first: a signal, the upgrade task with an error or gone
  without one, or the command.\<close>

datatype wake = Interrupted | Terminated | UpgradeFailed error | UpgradeGone | CommandDone

definition run_command :: "string option \<Rightarrow> string option \<Rightarrow> wake option \<Rightarrow> (error, unit) outcome \<Rightarrow> (error, unit) outcome" where
  "run_command int_error term_error wake fut =
     (case int_error of
        Some e \<Rightarrow> Err (Io e)
      | None \<Rightarrow>
          (case term_error of
             Some e \<Rightarrow> Err (Io e)
           | None \<Rightarrow>
               (case wake of
                  None \<Rightarrow> Pending
                | Some Interrupted \<Rightarrow> Ok ()
                | Some Terminated \<Rightarrow> Ok ()
                | Some (UpgradeFailed e) \<Rightarrow> Err e
                | Some UpgradeGone \<Rightarrow> Panic ''internal error: entered unreachable code''
                | Some CommandDone \<Rightarrow> fut)))"

subsection \<open>The metrics endpoint\<close>

definition serve_req :: "string \<Rightarrow> http_method \<Rightarrow> string \<Rightarrow> nat \<times> string" where
  "serve_req encoded meth path =
     (if meth = GET \<and> path = ''/metrics'' then (200, encoded)
      else if meth = GET \<and> path = ''/'' then (200, [])
      else (404, []))"

lemmas [run_defs] = start_up_def io_outcome_def serve_bind_def server_cmd_def

subsection \<open>What the commands start with\<close>

lemma io_outcome_eq_Ok: "io_outcome r s = (Ok x, t) \<longleftrightarrow> r = Ok x \<and> t = s"
  by (auto simp: io_outcome_def)

lemma frames_client_new [frames_intros]: "frames (client_new ev connect uris legacy)"
  unfolding client_new_def Let_def by (intro frames_intros frames_connect_with_failover)

lemma params_framed:
  fixes m :: "('w, 'v, 'm, 'a) params_prog"
  assumes "frames m" and "m s = (r, t)"
  shows "params t = params s"
  using framesD [OF assms] by (cases s; cases t) simp

lemma decode_raw_eq_Ok: "decode_raw v s = (Ok x, t) \<longleftrightarrow> v = RawValue x \<and> t = s"
  by (cases v) (auto simp: ret_def throw_def)

lemma client_new_endpoints: "client_new ev connect uris legacy s = (Ok c, t) \<Longrightarrow> endpoints c = parse_endpoints uris"
  by (auto simp: client_new_def Let_def io_bind_eq_Ok ret_def throw_def split: if_splits)

text \<open>A start that succeeds has the constants of the chain in place and leaves the
  solver's parameters alone; the chain is the one the node names.\<close>

theorem start_up_loads_constants:
  assumes "start_up ev env uri cmd s = (Ok (client, chain), t)"
    and "\<And>at. \<exists>c. read_constants (se_constants env) at = Inr c"
  shows "(\<exists>at c. read_constants (se_constants env) at = Inr c \<and> params t = with_constants c (params s)) \<and>
    (\<exists>spec_name. chain_try_from spec_name = Ok chain) \<and> endpoints client = parse_endpoints uri"
proof -
  from assms(1) obtain s1 at s2 v s3 name at' s4 s5 where
    new: "client_new ev (se_connect env) uri (legacy_backend cmd) s = (Ok client, s1)"
    and at: "await (se_at_current_block env (chain_api client)) s1 = (Ok at, s2)"
    and version: "await (se_core_version env (chain_api client) at) s2 = (Ok v, s3)"
    and name: "chain_try_from name = Ok chain"
    and at': "await (se_at_current_block env (chain_api client)) s3 = (Ok at', s4)"
    and update: "update_metadata_constants (se_constants env) at' s4 = (Ok (), s5)" and t: "t = s5"
    unfolding start_up_def io_bind_eq_Ok io_outcome_eq_Ok decode_raw_eq_Ok by (auto simp: ret_def)
  have "params s4 = params s"
    using params_framed [OF frames_client_new new] params_framed [OF frames_await at]
      params_framed [OF frames_await version] params_framed [OF frames_await at'] by simp
  moreover obtain c where c: "read_constants (se_constants env) at' = Inr c" using assms(2) by blast
  ultimately have "params t = with_constants c (params s)"
    using update_metadata_constants_Ok [OF c, of s4] update t by simp
  with c name client_new_endpoints [OF new] show ?thesis by blast
qed

subsection \<open>Why the process ends\<close>


text \<open>A monitor whose account exists; its era pruning task ends because its channel closed.\<close>

definition test_monitor :: "(test_script, nat, nat, nat) monitor_env" where
  "test_monitor =
     \<lparr>mon_signer = \<lparr>sg_read = \<lambda>path w. (Err ''no such file'', w), sg_pair = \<lambda>seed. Inr test_account\<rparr>,
      mon_api = (phase_node test_blocks)\<lparr>api_account := \<lambda>b who w. (Ok (Some (Decodes \<lparr>free = 7\<rparr>)), w)\<rparr>,
      mon_listener = test_listening test_blocks roomy,
      mon_scores = test_score_ops,
      mon_miner = \<lparr>mo_mine = \<lambda>i. Inl ''no solution'', mo_infeasible = \<lambda>sol v t d. None, mo_winner_count = \<lambda>sol. 4,
                   mo_join = \<lambda>w. (Ok (), w)\<rparr>,
      mon_pages = 2,
      mon_eras = \<lambda>at w. (Ok [], w)\<rparr>"

definition test_monitor_config :: monitor_config where
  "test_monitor_config =
     \<lparr>submission_strategy = IfLeading, do_reduce = False, chunk_size = 0, min_signed_phase_blocks = 10, shady = False,
      seed_or_path = ''//Alice'', balancing_iterations = 10, algorithm = SeqPhragmen\<rparr>"

definition test_process :: "(test_listener_world, nat event) params_sys" where
  "test_process = \<lparr>world = test_outside 1 [] [], trace = [], params = initial_params\<rparr>"


end
